(* ===== verification/Prelude.thy ===== *)
theory Prelude
  imports Complex_Main "HOL-Library.Multiset" "HOL-Library.AList" "HOL-Library.Char_ord"
    "HOL-Library.List_Lexorder"
begin

text \<open>
  The shared vocabulary of the development: the fragment of the JavaScript standard
  library that the modelled files use (string tests, \<open>trim\<close>, \<open>split\<close>, \<open>join\<close>,
  insertion-ordered sets and maps, the stable array sort, numbers that may be
  \<open>NaN\<close> or infinite), with the lemmas the component theories rest on.

  A JavaScript string is a \<^typ>\<open>string\<close>, a list of code units; the case mappings are
  those of the ASCII letters, and \<open>js_ws\<close> is the white space of the Latin-1 range.
  \<open>sort()\<close> without a comparator compares code units, which is the lexicographic order
  of \<open>List_Lexorder\<close> over \<open>Char_ord\<close>.
\<close>

named_theorems js_string \<open>facts about the string operations\<close>
named_theorems js_collect \<open>facts about insertion-ordered sets and maps\<close>

section \<open>Strings\<close>

definition starts_with :: "string \<Rightarrow> string \<Rightarrow> bool" where
  "starts_with p s \<longleftrightarrow> take (length p) s = p"

definition ends_with :: "string \<Rightarrow> string \<Rightarrow> bool" where
  "ends_with p s \<longleftrightarrow> starts_with (rev p) (rev s)"

fun str_includes :: "string \<Rightarrow> string \<Rightarrow> bool" where
  "str_includes [] n = (n = [])"
| "str_includes (c # cs) n = (starts_with n (c # cs) \<or> str_includes cs n)"

definition lower_char :: "char \<Rightarrow> char" where
  "lower_char c = (let n = of_char c :: nat in if 65 \<le> n \<and> n \<le> 90 then char_of (n + 32) else c)"

definition upper_char :: "char \<Rightarrow> char" where
  "upper_char c = (let n = of_char c :: nat in if 97 \<le> n \<and> n \<le> 122 then char_of (n - 32) else c)"

definition to_lower :: "string \<Rightarrow> string" where
  "to_lower s = map lower_char s"

definition to_upper :: "string \<Rightarrow> string" where
  "to_upper s = map upper_char s"

definition js_ws :: "char \<Rightarrow> bool" where
  "js_ws c = (let n = of_char c :: nat in n \<in> {9, 10, 11, 12, 13, 32, 160})"

definition trim :: "string \<Rightarrow> string" where
  "trim s = rev (dropWhile js_ws (rev (dropWhile js_ws s)))"

fun split_on :: "char \<Rightarrow> string \<Rightarrow> string list" where
  "split_on d [] = [[]]"
| "split_on d (c # cs) =
     (if c = d then [] # split_on d cs
      else case split_on d cs of [] \<Rightarrow> [[c]] | p # ps \<Rightarrow> (c # p) # ps)"

fun join :: "string \<Rightarrow> string list \<Rightarrow> string" where
  "join sep [] = []"
| "join sep [x] = x"
| "join sep (x # y # ys) = x @ sep @ join sep (y # ys)"

definition digit_char :: "nat \<Rightarrow> char" where
  "digit_char d = char_of (48 + d)"

fun show_nat :: "nat \<Rightarrow> string" where
  "show_nat n = (if n < 10 then [digit_char n] else show_nat (n div 10) @ [digit_char (n mod 10)])"

declare show_nat.simps [simp del]

lemma starts_with_append [js_string, simp]: "starts_with p (p @ s)"
  by (simp add: starts_with_def)

lemma starts_with_iff: "starts_with p s \<longleftrightarrow> (\<exists>t. s = p @ t)"
  unfolding starts_with_def
  by (metis append_eq_conv_conj append_take_drop_id)

lemma starts_with_Nil [simp]: "starts_with [] s"
  by (simp add: starts_with_def)

lemma starts_with_trans: "starts_with p q \<Longrightarrow> starts_with q s \<Longrightarrow> starts_with p s"
  by (auto simp: starts_with_iff)

lemma starts_with_drop: "starts_with p s \<Longrightarrow> p @ drop (length p) s = s"
  by (auto simp: starts_with_iff)

lemma includes_iff: "str_includes s n \<longleftrightarrow> (\<exists>a b. s = a @ n @ b)"
proof (induction s)
  case Nil
  then show ?case by auto
next
  case (Cons c cs)
  show ?case
  proof
    assume "str_includes (c # cs) n"
    then consider "starts_with n (c # cs)" | "str_includes cs n" by auto
    then show "\<exists>a b. c # cs = a @ n @ b"
    proof cases
      case 1
      then obtain t where "c # cs = n @ t" by (auto simp: starts_with_iff)
      then have "c # cs = [] @ n @ t" by simp
      then show ?thesis by blast
    next
      case 2
      with Cons.IH obtain a b where "cs = a @ n @ b" by blast
      then have "c # cs = (c # a) @ n @ b" by simp
      then show ?thesis by blast
    qed
  next
    assume "\<exists>a b. c # cs = a @ n @ b"
    then obtain a b where ab: "c # cs = a @ n @ b" by blast
    show "str_includes (c # cs) n"
    proof (cases a)
      case Nil
      with ab have "starts_with n (c # cs)" by (auto simp: starts_with_iff)
      then show ?thesis by simp
    next
      case (Cons x xs)
      with ab Cons.IH show ?thesis by auto
    qed
  qed
qed

lemma includes_append_left: "str_includes s n \<Longrightarrow> str_includes (p @ s) n"
  by (auto simp: includes_iff) (metis append.assoc)

lemma includes_append_right: "str_includes s n \<Longrightarrow> str_includes (s @ p) n"
  by (auto simp: includes_iff) (metis append.assoc)

lemma includes_mid: "str_includes s n \<Longrightarrow> str_includes (a @ s @ b) n"
  by (intro includes_append_left includes_append_right)

lemma length_to_lower [simp]: "length (to_lower s) = length s"
  by (simp add: to_lower_def)

lemma lower_char_idem [simp]: "lower_char (lower_char c) = lower_char c"
  by (auto simp: lower_char_def Let_def)

lemma to_lower_idem [simp]: "to_lower (to_lower s) = to_lower s"
  by (simp add: to_lower_def)

lemma to_lower_Nil_iff [simp]: "to_lower s = [] \<longleftrightarrow> s = []"
  by (simp add: to_lower_def)

lemma dropWhile_trimmed: "s \<noteq> [] \<Longrightarrow> \<not> P (hd s) \<Longrightarrow> dropWhile P s = s"
  by (cases s) auto

lemma trim_Nil [simp]: "trim [] = []"
  by (simp add: trim_def)

lemma trim_hd_last:
  assumes "trim s \<noteq> []"
  shows "\<not> js_ws (hd (trim s)) \<and> \<not> js_ws (last (trim s))"
proof -
  let ?d = "dropWhile js_ws s"
  from assms have r: "dropWhile js_ws (rev ?d) \<noteq> []" by (simp add: trim_def)
  then have l: "\<not> js_ws (hd (dropWhile js_ws (rev ?d)))" by (rule hd_dropWhile)
  have d: "?d \<noteq> []" using r by (metis dropWhile.simps(1) rev.simps(1))
  then have h: "\<not> js_ws (hd ?d)" by (rule hd_dropWhile)
  obtain pre where "rev ?d = pre @ dropWhile js_ws (rev ?d)"
    by (metis takeWhile_dropWhile_id)
  then have "?d = trim s @ rev pre" by (metis rev_append rev_rev_ident trim_def)
  then have "hd (trim s) = hd ?d" using assms by (metis hd_append2)
  with h l r show ?thesis by (simp add: trim_def last_rev)
qed

lemma trim_idem [simp]: "trim (trim s) = trim s"
proof (cases "trim s = []")
  case False
  with trim_hd_last [OF False] have "dropWhile js_ws (trim s) = trim s"
    and "dropWhile js_ws (rev (trim s)) = rev (trim s)"
    by (simp_all add: dropWhile_trimmed hd_rev)
  then show ?thesis by (simp add: trim_def)
qed simp

lemma split_on_not_Nil [simp]: "split_on d s \<noteq> []"
  by (induction s) (auto split: list.splits)

lemma split_on_no_sep: "x \<in> set (split_on d s) \<Longrightarrow> d \<notin> set x"
  by (induction s arbitrary: x) (auto split: if_splits list.splits)

lemma join_split_on: "join [d] (split_on d s) = s"
proof (induction s)
  case (Cons c cs)
  obtain p ps where ps: "split_on d cs = p # ps" by (cases "split_on d cs") auto
  show ?case
    using Cons by (cases ps) (auto simp: ps)
qed simp

lemma split_on_join:
  assumes "xs \<noteq> []" "\<And>x. x \<in> set xs \<Longrightarrow> d \<notin> set x"
  shows "split_on d (join [d] xs) = xs"
proof -
  have word: "d \<notin> set x \<Longrightarrow> split_on d x = [x]" for x by (induction x) auto
  have sep: "d \<notin> set x \<Longrightarrow> split_on d (x @ d # s) = x # split_on d s" for x s
    by (induction x) auto
  show ?thesis
    using assms by (induction "[d]" xs rule: join.induct) (simp_all add: word sep)
qed

lemma digit_char_inj: "a < 10 \<Longrightarrow> b < 10 \<Longrightarrow> digit_char a = digit_char b \<longleftrightarrow> a = b"
proof
  assume ab: "a < 10" "b < 10" and "digit_char a = digit_char b"
  then have "of_char (digit_char a) = (of_char (digit_char b) :: nat)" by simp
  with ab show "a = b" by (simp add: digit_char_def)
qed simp

section \<open>Insertion-ordered sets and maps\<close>

text \<open>
  \<open>[...new Set(xs)]\<close> keeps the first occurrence of every element. A \<open>Map\<close> is an
  association list: \<open>set\<close> replaces in place and appends a new key at the end, which is
  \<^const>\<open>AList.update\<close>.
\<close>

fun nub :: "'a list \<Rightarrow> 'a list" where
  "nub [] = []"
| "nub (x # xs) = x # filter (\<lambda>y. y \<noteq> x) (nub xs)"

definition set_add :: "'a \<Rightarrow> 'a list \<Rightarrow> 'a list" where
  "set_add x xs = (if x \<in> set xs then xs else xs @ [x])"

lemma set_nub [simp, js_collect]: "set (nub xs) = set xs"
  by (induction xs) auto

lemma distinct_nub [simp, js_collect]: "distinct (nub xs)"
  by (induction xs) auto

lemma nub_distinct [simp]: "distinct xs \<Longrightarrow> nub xs = xs"
  by (induction xs) (auto intro: filter_True)

lemma nub_Nil_iff [simp]: "nub xs = [] \<longleftrightarrow> xs = []"
  by (cases xs) auto

lemma nub_filter: "nub (filter P xs) = filter P (nub xs)"
  by (induction xs) (auto simp: filter_filter conj_commute intro!: filter_cong)

lemma set_set_add [simp, js_collect]: "set (set_add x xs) = insert x (set xs)"
  by (auto simp: set_add_def)

lemma distinct_set_add [simp, js_collect]: "distinct (set_add x xs) \<longleftrightarrow> distinct xs"
  by (auto simp: set_add_def)

lemma map_of_update [simp, js_collect]: "map_of (AList.update k v m) = (map_of m)(k \<mapsto> v)"
  by (simp add: update_conv')

lemma find_snoc:
  "find P (xs @ [x]) = (case find P xs of None \<Rightarrow> if P x then Some x else None | Some y \<Rightarrow> Some y)"
  by (induction xs) auto

section \<open>The stable array sort\<close>

text \<open>
  \<open>Array.prototype.sort\<close> is stable. \<open>sort_by le\<close> is the stable sort for a comparator
  whose result is not positive exactly when \<open>le\<close> holds.
\<close>

fun insert_by :: "('a \<Rightarrow> 'a \<Rightarrow> bool) \<Rightarrow> 'a \<Rightarrow> 'a list \<Rightarrow> 'a list" where
  "insert_by le x [] = [x]"
| "insert_by le x (y # ys) = (if le x y then x # y # ys else y # insert_by le x ys)"

fun sort_by :: "('a \<Rightarrow> 'a \<Rightarrow> bool) \<Rightarrow> 'a list \<Rightarrow> 'a list" where
  "sort_by le [] = []"
| "sort_by le (x # xs) = insert_by le x (sort_by le xs)"

definition total_preorder :: "('a \<Rightarrow> 'a \<Rightarrow> bool) \<Rightarrow> bool" where
  "total_preorder le \<longleftrightarrow> (\<forall>x y. le x y \<or> le y x) \<and> (\<forall>x y z. le x y \<longrightarrow> le y z \<longrightarrow> le x z)"

lemma mset_insert_by [simp]: "mset (insert_by le x xs) = add_mset x (mset xs)"
  by (induction xs) auto

lemma mset_sort_by [simp]: "mset (sort_by le xs) = mset xs"
  by (induction xs) auto

lemma set_sort_by [simp, js_collect]: "set (sort_by le xs) = set xs"
  by (metis mset_sort_by set_mset_mset)

lemma set_insert_by [simp]: "set (insert_by le x xs) = insert x (set xs)"
  by (induction xs) auto

lemma length_sort_by [simp]: "length (sort_by le xs) = length xs"
  by (metis mset_sort_by size_mset)

lemma distinct_sort_by [simp, js_collect]: "distinct (sort_by le xs) \<longleftrightarrow> distinct xs"
  by (metis mset_sort_by mset_eq_imp_distinct_iff)

lemma sorted_insert_by:
  assumes "total_preorder le" "sorted_wrt le xs"
  shows "sorted_wrt le (insert_by le x xs)"
  using assms(2)
proof (induction xs)
  case (Cons y ys)
  from assms(1) have "le x y \<or> le y x" by (simp add: total_preorder_def)
  with Cons assms(1) show ?case by (auto simp: total_preorder_def)
qed simp

lemma sorted_sort_by: "total_preorder le \<Longrightarrow> sorted_wrt le (sort_by le xs)"
  by (induction xs) (auto intro: sorted_insert_by)

lemma distinct_map_sort_by: "distinct (map f (sort_by le xs)) \<longleftrightarrow> distinct (map f xs)"
  by (metis mset_map mset_sort_by mset_eq_imp_distinct_iff)

text \<open>The sorted order of a bag of elements is unique when the comparator separates them.\<close>

lemma sorted_wrt_unique:
  "sorted_wrt le as \<Longrightarrow> sorted_wrt le bs \<Longrightarrow> mset as = mset bs \<Longrightarrow>
   (\<And>x y. x \<in> set as \<Longrightarrow> y \<in> set as \<Longrightarrow> le x y \<Longrightarrow> le y x \<Longrightarrow> x = y) \<Longrightarrow> as = bs"
proof (induction as arbitrary: bs)
  case (Cons a as)
  then obtain b bs' where bs: "bs = b # bs'" by (cases bs) auto
  have "a = b"
  proof (rule ccontr)
    assume ne: "a \<noteq> b"
    from Cons.prems(3) have sets: "set (a # as) = set (b # bs')" by (metis bs set_mset_mset)
    with ne have "b \<in> set as" "a \<in> set bs'" by auto
    with Cons.prems bs ne show False by fastforce
  qed
  with Cons bs show ?case by simp
qed simp

section \<open>Numbers\<close>

text \<open>
  A JavaScript number where the code tests for \<open>NaN\<close> or infinity; elsewhere numbers
  are \<^typ>\<open>int\<close>, \<^typ>\<open>nat\<close> or \<^typ>\<open>rat\<close>.
\<close>

datatype jsnum = NaN | PInf | NInf | Fin rat

definition is_finite :: "jsnum \<Rightarrow> bool" where
  "is_finite x = (case x of Fin _ \<Rightarrow> True | _ \<Rightarrow> False)"

definition fin_val :: "jsnum \<Rightarrow> rat" where
  "fin_val x = (case x of Fin q \<Rightarrow> q | _ \<Rightarrow> 0)"

definition max_safe_integer :: int where
  "max_safe_integer = 2 ^ 53 - 1"

section \<open>Hexadecimal buffers\<close>

text \<open>\<open>Buffer.from(s, "hex")\<close> decodes pairs of hexadecimal digits up to the first that is not.\<close>

definition hex_value :: "char \<Rightarrow> nat option" where
  "hex_value c = (let n = of_char c :: nat in if 48 \<le> n \<and> n \<le> 57 then Some (n - 48)
     else if 97 \<le> n \<and> n \<le> 102 then Some (n - 87) else if 65 \<le> n \<and> n \<le> 70 then Some (n - 55) else None)"

fun hex_bytes :: "string \<Rightarrow> nat list" where
  "hex_bytes (a # b # rest) = (case (hex_value a, hex_value b) of
     (Some x, Some y) \<Rightarrow> (16 * x + y) # hex_bytes rest | _ \<Rightarrow> [])"
| "hex_bytes _ = []"

end
