(* ===== verification/Table.thy ===== *)
theory Table
  imports Prelude
begin

text \<open>
  The persistence interface. Every service of the program keeps its state in database
  tables reached through the Prisma client, which is not part of the repository: here a
  client is a record of operations over an abstract database state \<open>'s\<close>, and the
  documented behaviour the code relies on is the locale \<open>prisma_table\<close>, stated through
  the bag of rows a state holds. An operation may reject (\<open>Inl\<close>); a rejected statement
  leaves the state as it was.

  \<open>double_table\<close> is the in-memory table the repository itself substitutes for Prisma
  (\<open>apps/agent/src/privacy/erasure-doubles.test-fixture.ts\<close>), and it satisfies the
  interface. \<open>focus\<close> places a table inside a larger database state, as \<open>database()\<close> of the
  same file does.
\<close>

section \<open>Tables\<close>

datatype db_error = UniqueViolation | Rejected

record ('s, 'r) table =
  findFirst :: "('r \<Rightarrow> bool) \<Rightarrow> 's \<Rightarrow> db_error + 'r option"
  findMany :: "('r \<Rightarrow> bool) \<Rightarrow> 's \<Rightarrow> db_error + 'r list"
  create :: "'r \<Rightarrow> 's \<Rightarrow> db_error + 's"
  createManySkip :: "'r list \<Rightarrow> 's \<Rightarrow> db_error + (nat \<times> 's)"
  updateMany :: "('r \<Rightarrow> bool) \<Rightarrow> ('r \<Rightarrow> 'r) \<Rightarrow> 's \<Rightarrow> db_error + (nat \<times> 's)"
  deleteMany :: "('r \<Rightarrow> bool) \<Rightarrow> 's \<Rightarrow> db_error + (nat \<times> 's)"

fun add_new :: "('r \<Rightarrow> 'k) \<Rightarrow> 'r multiset \<Rightarrow> 'r list \<Rightarrow> 'r multiset" where
  "add_new key m [] = m"
| "add_new key m (x # xs) =
     (if key x \<in> key ` set_mset m then add_new key m xs else add_new key (add_mset x m) xs)"

lemma add_new_mono: "m \<subseteq># add_new key m xs"
proof (induction xs arbitrary: m)
  case (Cons x xs)
  have "m \<subseteq># add_mset x m" by simp
  also have "\<dots> \<subseteq># add_new key (add_mset x m) xs" by (rule Cons.IH)
  finally show ?case using Cons.IH [of m] by simp
qed simp

lemma add_new_keys: "key ` set_mset (add_new key m xs) = key ` set_mset m \<union> key ` set xs"
  by (induction xs arbitrary: m) auto

lemma add_new_sources: "r \<in># add_new key m xs \<Longrightarrow> r \<in># m \<or> r \<in> set xs"
  by (induction xs arbitrary: m) (fastforce split: if_splits)+

locale prisma_table =
  fixes T :: "('s, 'r) table"
    and rows :: "'s \<Rightarrow> 'r multiset"
    and key :: "'r \<Rightarrow> 'k"
  assumes first_none: "findFirst T p s = Inr None \<Longrightarrow> \<forall>r. r \<in># rows s \<longrightarrow> \<not> p r"
    and first_some: "findFirst T p s = Inr (Some r) \<Longrightarrow> r \<in># rows s \<and> p r"
    and many: "findMany T p s = Inr rs \<Longrightarrow> mset rs = filter_mset p (rows s)"
    and created: "create T r s = Inr s' \<Longrightarrow>
      rows s' = add_mset r (rows s) \<and> key r \<notin> key ` set_mset (rows s)"
    and created_many: "createManySkip T xs s = Inr (n, s') \<Longrightarrow> rows s' = add_new key (rows s) xs"
    and updated: "updateMany T p f s = Inr (n, s') \<Longrightarrow>
      rows s' = image_mset (\<lambda>r. if p r then f r else r) (rows s) \<and> n = size (filter_mset p (rows s))"
    and deleted: "deleteMany T p s = Inr (n, s') \<Longrightarrow>
      rows s' = filter_mset (\<lambda>r. \<not> p r) (rows s) \<and> n = size (filter_mset p (rows s))"
begin

lemma first_some_row: "findFirst T p s = Inr (Some r) \<Longrightarrow> p r"
  by (simp add: first_some)

lemma many_iff: "findMany T p s = Inr rs \<Longrightarrow> r \<in> set rs \<longleftrightarrow> r \<in># rows s \<and> p r"
  by (drule many, drule arg_cong [where f = set_mset]) auto

lemma many_Nil: "findMany T p s = Inr [] \<Longrightarrow> r \<in># rows s \<Longrightarrow> \<not> p r"
  using many_iff [of p s "[]" r] by simp

lemma updated_row:
  assumes "updateMany T p f s = Inr (n, s')" "r' \<in># rows s'"
  shows "(r' \<in># rows s \<and> \<not> p r') \<or> (\<exists>r. r \<in># rows s \<and> p r \<and> r' = f r)"
  using updated [OF assms(1)] assms(2) by (auto split: if_splits)

lemma updated_hit: "updateMany T p f s = Inr (n, s') \<Longrightarrow> r \<in># rows s \<Longrightarrow> p r \<Longrightarrow> f r \<in># rows s'"
  by (drule updated) (auto intro!: image_eqI)

lemma updated_miss: "updateMany T p f s = Inr (n, s') \<Longrightarrow> r \<in># rows s \<Longrightarrow> \<not> p r \<Longrightarrow> r \<in># rows s'"
  by (drule updated) (auto intro!: image_eqI)

lemma updated_zero: "updateMany T p f s = Inr (0, s') \<Longrightarrow> rows s' = rows s"
proof -
  assume u: "updateMany T p f s = Inr (0, s')"
  then have none: "\<And>r. r \<in># rows s \<Longrightarrow> \<not> p r"
    using updated [OF u] by (auto simp: filter_mset_eq_mempty_iff)
  have "image_mset (\<lambda>r. if p r then f r else r) (rows s) = image_mset (\<lambda>r. r) (rows s)"
    by (rule image_mset_cong) (simp add: none)
  then show ?thesis using updated [OF u] by simp
qed

lemma updated_positive:
  "updateMany T p f s = Inr (n, s') \<Longrightarrow> 0 < n \<longleftrightarrow> (\<exists>r. r \<in># rows s \<and> p r)"
  by (drule updated) (auto simp: filter_mset_eq_mempty_iff nonempty_has_size [symmetric])

end

section \<open>Ledgers\<close>

text \<open>
  A ledger is a table whose rows are sealed at some point (an approval by its decision, a
  token by its revocation) and then keep the seal. One write inserts a row under a new key or
  maps the rows without touching keys and seals; \<open>sealed_ledger\<close> is the contract of a step
  relation made of such writes.
\<close>

definition ledger_write :: "('r \<Rightarrow> 'k) \<Rightarrow> ('r \<Rightarrow> 'd option) \<Rightarrow> 'r multiset \<Rightarrow> 'r multiset \<Rightarrow> bool" where
  "ledger_write key seal m m' \<longleftrightarrow> (\<exists>row. m' = add_mset row m \<and> key row \<notin> key ` set_mset m) \<or>
     (\<exists>f. m' = image_mset f m \<and> (\<forall>r. key (f r) = key r \<and> (seal r \<noteq> None \<longrightarrow> seal (f r) = seal r)))"

definition sealed_key :: "('r \<Rightarrow> 'k) \<Rightarrow> ('r \<Rightarrow> 'd option) \<Rightarrow> 'r multiset \<Rightarrow> 'k \<Rightarrow> bool" where
  "sealed_key key seal m i \<longleftrightarrow> i \<in> key ` set_mset m \<and> (\<forall>r. r \<in># m \<longrightarrow> key r = i \<longrightarrow> seal r \<noteq> None)"

lemma ledger_same: "ledger_write key seal m m"
  unfolding ledger_write_def by (rule disjI2, rule exI [of _ "\<lambda>r. r"]) simp

lemma ledger_write_seal:
  assumes "ledger_write key seal m m'" "r \<in># m" "seal r \<noteq> None"
  shows "\<exists>r'. r' \<in># m' \<and> key r' = key r \<and> seal r' = seal r"
  using assms unfolding ledger_write_def by fastforce

lemma ledger_write_sealed: "ledger_write key seal m m' \<Longrightarrow> sealed_key key seal m i \<Longrightarrow> sealed_key key seal m' i"
  unfolding ledger_write_def sealed_key_def by (elim disjE exE conjE) (auto simp: image_image)

lemma ledger_create:
  "prisma_table T rows key \<Longrightarrow> create T row s = Inr s' \<Longrightarrow> ledger_write key seal (rows s) (rows s')"
  unfolding ledger_write_def by (drule (1) prisma_table.created) blast

lemma ledger_update:
  assumes "prisma_table T rows key'" "updateMany T p f s = Inr (n, s')" "\<And>r. key (f r) = key r"
    and "\<And>r. p r \<Longrightarrow> seal r \<noteq> None \<Longrightarrow> seal (f r) = seal r"
  shows "ledger_write key seal (rows s) (rows s')"
  unfolding ledger_write_def using prisma_table.updated [OF assms(1,2)] assms(3,4)
  by (intro disjI2 exI [of _ "\<lambda>r. if p r then f r else r"]) simp

lemma sealed_key_unique:
  assumes "inj_on key (set_mset m)" "r \<in># m" "seal r \<noteq> None"
  shows "sealed_key key seal m (key r)"
  unfolding sealed_key_def using assms(2,3) inj_onD [OF assms(1) _ _ assms(2)] by blast

lemma sealed_key_update:
  assumes "prisma_table T rows key'" "updateMany T p f s = Inr (n, s')" "\<And>x. key (f x) = key x" "\<And>x. seal (f x) \<noteq> None"
    and uniq: "inj_on key (set_mset (rows s))" and r: "r \<in># rows s" "p r"
  shows "sealed_key key seal (rows s') (key r)"
  unfolding sealed_key_def
proof (intro conjI allI impI)
  have rows: "rows s' = image_mset (\<lambda>x. if p x then f x else x) (rows s)"
    using prisma_table.updated [OF assms(1,2)] by blast
  show "key r \<in> key ` set_mset (rows s')"
    using prisma_table.updated_hit [where p = p, OF assms(1,2) r] by (rule rev_image_eqI) (simp add: assms(3))
  fix r' assume "r' \<in># rows s'" "key r' = key r"
  then obtain x where x: "x \<in># rows s" "r' = (if p x then f x else x)" unfolding rows by auto
  then have "key x = key r" using \<open>key r' = key r\<close> assms(3) by (simp split: if_splits)
  then have "x = r" using inj_onD [OF uniq _ x(1) r(1)] by blast
  then show "seal r' \<noteq> None" using x(2) r(2) assms(4) by simp
qed

locale sealed_ledger =
  fixes rows :: "'s \<Rightarrow> 'r multiset"
    and key :: "'r \<Rightarrow> 'k"
    and seal :: "'r \<Rightarrow> 'd option"
    and step :: "'s \<Rightarrow> 's \<Rightarrow> bool"
  assumes writes: "step s s' \<Longrightarrow> ledger_write key seal (rows s) (rows s')"
begin

lemma seal_run:
  assumes "step\<^sup>*\<^sup>* s s'" "r \<in># rows s" "seal r \<noteq> None"
  shows "\<exists>r'. r' \<in># rows s' \<and> key r' = key r \<and> seal r' = seal r"
  using assms(1)
proof (induction rule: rtranclp_induct)
  case base
  then show ?case using assms(2) by blast
next
  case (step t u)
  then obtain r' where r': "r' \<in># rows t" "key r' = key r" "seal r' = seal r" by blast
  show ?case using ledger_write_seal [OF writes [OF step.hyps(2)] r'(1)] r'(2,3) assms(3) by simp
qed

lemma sealed_run: "step\<^sup>*\<^sup>* s s' \<Longrightarrow> sealed_key key seal (rows s) i \<Longrightarrow> sealed_key key seal (rows s') i"
  by (induction rule: rtranclp_induct) (auto intro: ledger_write_sealed writes)

end

section \<open>The repository's table double\<close>

definition double_findFirst :: "('r \<Rightarrow> bool) \<Rightarrow> 'r list \<Rightarrow> db_error + 'r option" where
  "double_findFirst w rs = Inr (find w rs)"

definition double_findMany :: "('r \<Rightarrow> bool) \<Rightarrow> 'r list \<Rightarrow> db_error + 'r list" where
  "double_findMany w rs = Inr (filter w rs)"

definition double_create :: "('r \<Rightarrow> 'k) \<Rightarrow> 'r \<Rightarrow> 'r list \<Rightarrow> db_error + 'r list" where
  "double_create key r rs = (if key r \<in> key ` set rs then Inl UniqueViolation else Inr (rs @ [r]))"

fun double_createMany :: "('r \<Rightarrow> 'k) \<Rightarrow> 'r list \<Rightarrow> 'r list \<Rightarrow> nat \<times> 'r list" where
  "double_createMany key [] rs = (0, rs)"
| "double_createMany key (x # xs) rs =
     (if key x \<in> key ` set rs then double_createMany key xs rs
      else let (n, rs') = double_createMany key xs (rs @ [x]) in (Suc n, rs'))"

definition double_updateMany ::
    "('r \<Rightarrow> bool) \<Rightarrow> ('r \<Rightarrow> 'r) \<Rightarrow> 'r list \<Rightarrow> db_error + (nat \<times> 'r list)" where
  "double_updateMany w f rs = Inr (length (filter w rs), map (\<lambda>r. if w r then f r else r) rs)"

definition double_deleteMany :: "('r \<Rightarrow> bool) \<Rightarrow> 'r list \<Rightarrow> db_error + (nat \<times> 'r list)" where
  "double_deleteMany w rs =
     (let rs' = filter (\<lambda>r. \<not> w r) rs in Inr (length rs - length rs', rs'))"

definition double_table :: "('r \<Rightarrow> 'k) \<Rightarrow> ('r list, 'r) table" where
  "double_table key = \<lparr>findFirst = double_findFirst, findMany = double_findMany,
     create = double_create key,
     createManySkip = (\<lambda>xs rs. Inr (double_createMany key xs rs)),
     updateMany = double_updateMany, deleteMany = double_deleteMany\<rparr>"

lemmas double_defs = double_table_def double_findFirst_def double_findMany_def
  double_create_def double_updateMany_def double_deleteMany_def

lemma double_createMany_mset: "mset (snd (double_createMany key xs rs)) = add_new key (mset rs) xs"
  by (induction key xs rs rule: double_createMany.induct)
    (auto split: prod.splits simp: Let_def)

lemma length_filter_neg: "length xs - length (filter (\<lambda>x. \<not> P x) xs) = length (filter P xs)"
  by (metis add_diff_cancel_right' sum_length_filter_compl)

interpretation dbl: prisma_table "double_table key" mset key
proof (unfold_locales, goal_cases)
  case (1 p s)
  then show ?case by (auto simp: double_defs find_None_iff)
next
  case (2 p s r)
  then show ?case by (auto simp: double_defs find_Some_iff)
next
  case (3 p s rs)
  then show ?case by (auto simp: double_defs)
next
  case (4 r s s')
  then show ?case by (auto simp: double_defs split: if_splits)
next
  case (5 xs s n s')
  then show ?case using double_createMany_mset [of key xs s] by (auto simp: double_defs)
next
  case (6 p f s n s')
  then show ?case by (auto simp: double_defs) (metis mset_filter size_mset)
next
  case (7 p s n s')
  then show ?case
    by (auto simp: double_defs Let_def length_filter_neg) (metis mset_filter size_mset)
qed

section \<open>A table inside a database\<close>

definition map_res :: "('a \<Rightarrow> 'b) \<Rightarrow> 'e + 'a \<Rightarrow> 'e + 'b" where
  "map_res f r = (case r of Inl e \<Rightarrow> Inl e | Inr x \<Rightarrow> Inr (f x))"

lemma map_res_simps [simp]: "map_res f (Inl e) = Inl e" "map_res f (Inr x) = Inr (f x)"
  by (simp_all add: map_res_def)

lemma map_res_Inr: "map_res f r = Inr y \<longleftrightarrow> (\<exists>x. r = Inr x \<and> y = f x)"
  by (cases r) auto

definition focus :: "('t \<Rightarrow> 's) \<Rightarrow> ('s \<Rightarrow> 't \<Rightarrow> 't) \<Rightarrow> ('s, 'r) table \<Rightarrow> ('t, 'r) table" where
  "focus get put T = \<lparr>findFirst = (\<lambda>p t. findFirst T p (get t)),
     findMany = (\<lambda>p t. findMany T p (get t)),
     create = (\<lambda>r t. map_res (\<lambda>s. put s t) (create T r (get t))),
     createManySkip = (\<lambda>xs t. map_res (map_prod id (\<lambda>s. put s t)) (createManySkip T xs (get t))),
     updateMany = (\<lambda>p f t. map_res (map_prod id (\<lambda>s. put s t)) (updateMany T p f (get t))),
     deleteMany = (\<lambda>p t. map_res (map_prod id (\<lambda>s. put s t)) (deleteMany T p (get t)))\<rparr>"

lemma focus_table:
  assumes "prisma_table T rows key" and lens: "\<And>s t. get (put s t) = s"
  shows "prisma_table (focus get put T) (\<lambda>t. rows (get t)) key"
proof (unfold_locales, goal_cases)
  case (1 p s)
  then show ?case by (auto simp: focus_def dest: prisma_table.first_none [OF assms(1)])
next
  case (2 p s r)
  then show ?case by (auto simp: focus_def dest: prisma_table.first_some [OF assms(1)])
next
  case (3 p s rs)
  then show ?case by (auto simp: focus_def dest: prisma_table.many [OF assms(1)])
next
  case (4 r s s')
  then show ?case by (auto simp: focus_def map_res_Inr lens dest: prisma_table.created [OF assms(1)])
next
  case (5 xs s n s')
  then show ?case
    by (auto simp: focus_def map_res_Inr lens dest: prisma_table.created_many [OF assms(1)])
next
  case (6 p f s n s')
  then show ?case by (auto simp: focus_def map_res_Inr lens dest: prisma_table.updated [OF assms(1)])
next
  case (7 p s n s')
  then show ?case by (auto simp: focus_def map_res_Inr lens dest: prisma_table.deleted [OF assms(1)])
qed

lemma focus_double:
  assumes "\<And>s t. get (put s t) = s"
  shows "prisma_table (focus get put (double_table key)) (\<lambda>t. mset (get t)) key"
  using focus_table [OF dbl.prisma_table_axioms, of get put] assms by simp

text \<open>The writes to one table leave what another part of the database holds as it was.\<close>

definition leaves :: "('s, 'r) table \<Rightarrow> ('s \<Rightarrow> 'v) \<Rightarrow> bool" where
  "leaves T view \<longleftrightarrow> (\<forall>r s s'. create T r s = Inr s' \<longrightarrow> view s' = view s) \<and>
     (\<forall>p f s n s'. updateMany T p f s = Inr (n, s') \<longrightarrow> view s' = view s)"

lemma leaves_create: "leaves T view \<Longrightarrow> create T r s = Inr s' \<Longrightarrow> view s' = view s"
  unfolding leaves_def by blast

lemma leaves_update: "leaves T view \<Longrightarrow> updateMany T p f s = Inr (n, s') \<Longrightarrow> view s' = view s"
  unfolding leaves_def by blast

lemma focus_leaves: "(\<And>s t. view (put s t) = view t) \<Longrightarrow> leaves (focus get put T) view"
  unfolding leaves_def focus_def by (auto simp: map_res_Inr)

section \<open>Scopes\<close>

text \<open>The organization, project and environment every request is pinned to.\<close>

record scope_tuple =
  sc_organizationId :: string
  sc_projectId :: string
  sc_environmentId :: string

end
