(* ===== verification/SubjectGraph.thy ===== *)
theory SubjectGraph
  imports Prelude
begin

text \<open>
  Who an erasure is about: \<open>privacy/subject-graph.ts\<close> (the handles of one person, their
  merge, the table allow-lists, the subject hash) and \<open>privacy/legal-hold.ts\<close> (the
  register that stops an erasure). \<open>localeCompare\<close> depends on the host's collation and
  is the parameter \<open>lc\<close> (\<open>lc a b\<close> when the comparison is not positive); the hash
  function is the parameter \<open>hasher\<close>, as in the source.
\<close>

section \<open>Subjects\<close>

record subject_scope =
  organizationId :: string
  projectId :: string
  environmentId :: string

record subject_keys =
  platosEndUserIds :: "string list"
  legacyUserIds :: "string list"
  scopes :: "subject_scope list"

record partial_keys =
  pk_platosEndUserIds :: "string list option"
  pk_legacyUserIds :: "string list option"
  pk_scopes :: "subject_scope list option"

definition CANONICAL_TABLES :: "string list" where
  "CANONICAL_TABLES = [''PlatosAgentThread'', ''PlatosChannelAppThread'', ''PlatosChannelThread'',
     ''PlatosMemory'', ''PlatosToolCallAudit'', ''PlatosEndUserIdentity'']"

definition SUBJECT_USERID_TABLES :: "string list" where
  "SUBJECT_USERID_TABLES = [''PlatosAgentThread'', ''PlatosMemory'', ''PlatosMemoryEntity'',
     ''PlatosMemoryRelationship'', ''PlatosMessageRating'', ''PlatosSafetyEvent'',
     ''PlatosToolCallAudit'']"

definition OPERATOR_USERID_TABLES :: "string list" where
  "OPERATOR_USERID_TABLES = [''OrgMember'', ''MfaBackupCode'', ''PlatosPAT'',
     ''PlatosOAuthAccessToken'', ''PlatosOAuthAuthCode'', ''PlatosOAuthRefreshToken'',
     ''BulkActionGroup'', ''CustomerQuery'', ''PlatformNotification'',
     ''PlatformNotificationInteraction'']"

definition CASCADE_TABLES :: "string list" where
  "CASCADE_TABLES = [''PlatosAgentMessage'', ''PlatosMessageAttachment'']"

definition isSubjectUserIdTable :: "string \<Rightarrow> bool" where
  "isSubjectUserIdTable t = List.member SUBJECT_USERID_TABLES t"

definition isOperatorTable :: "string \<Rightarrow> bool" where
  "isOperatorTable t = List.member OPERATOR_USERID_TABLES t"

section \<open>Merging discovered handles\<close>

definition scope_key :: "subject_scope \<Rightarrow> string" where
  "scope_key s = organizationId s @ ''/'' @ projectId s @ ''/'' @ environmentId s"

definition scope_valid :: "subject_scope \<Rightarrow> bool" where
  "scope_valid s \<longleftrightarrow> organizationId s \<noteq> [] \<and> projectId s \<noteq> [] \<and> environmentId s \<noteq> []"

type_synonym merge_acc = "string list \<times> string list \<times> (string \<times> subject_scope) list"

definition add_ids :: "string list option \<Rightarrow> string list \<Rightarrow> string list" where
  "add_ids ids acc =
     fold (\<lambda>i a. if i \<noteq> [] then set_add i a else a) (case ids of None \<Rightarrow> [] | Some xs \<Rightarrow> xs) acc"

definition add_scopes ::
    "subject_scope list option \<Rightarrow> (string \<times> subject_scope) list \<Rightarrow> (string \<times> subject_scope) list" where
  "add_scopes ss m =
     fold (\<lambda>s a. if scope_valid s then AList.update (scope_key s) s a else a)
       (case ss of None \<Rightarrow> [] | Some xs \<Rightarrow> xs) m"

definition merge_part :: "partial_keys option \<Rightarrow> merge_acc \<Rightarrow> merge_acc" where
  "merge_part p acc = (case p of None \<Rightarrow> acc
     | Some p \<Rightarrow> (case acc of (eu, lu, sm) \<Rightarrow>
         (add_ids (pk_platosEndUserIds p) eu, add_ids (pk_legacyUserIds p) lu,
          add_scopes (pk_scopes p) sm)))"

definition mergeSubjectKeys ::
    "(string \<Rightarrow> string \<Rightarrow> bool) \<Rightarrow> partial_keys option list \<Rightarrow> subject_keys" where
  "mergeSubjectKeys lc parts =
     (case fold merge_part parts ([], [], []) of (eu, lu, sm) \<Rightarrow>
        \<lparr>platosEndUserIds = sort eu, legacyUserIds = sort lu,
         scopes = sort_by (\<lambda>a b. lc (scope_key a) (scope_key b)) (map snd sm)\<rparr>)"

definition isEmptySubject :: "subject_keys \<Rightarrow> bool" where
  "isEmptySubject k \<longleftrightarrow> platosEndUserIds k = [] \<and> legacyUserIds k = []"

definition subjectKeyHash :: "string \<Rightarrow> string \<Rightarrow> string \<Rightarrow> (string \<Rightarrow> string) \<Rightarrow> string" where
  "subjectKeyHash externalUserId org salt hasher =
     hasher (join [char_of (0::nat)] [salt, org, externalUserId])"

section \<open>Legal holds\<close>

definition parseLegalHoldList :: "string option \<Rightarrow> string list" where
  "parseLegalHoldList raw = (case raw of None \<Rightarrow> []
     | Some r \<Rightarrow> if r = [] then []
         else filter (\<lambda>s. length s > 0) (map trim (split_on (CHR '','') r)))"

record legal_hold_match =
  hold_value :: string
  hold_position :: nat

definition LEGAL_HOLD_REFERENCE_PREFIX :: string where
  "LEGAL_HOLD_REFERENCE_PREFIX = ''legal-hold-register#''"

fun scan_holds :: "string list \<Rightarrow> nat \<Rightarrow> string list \<Rightarrow> legal_hold_match option" where
  "scan_holds aliases i [] = None"
| "scan_holds aliases i (held # rest) =
     (if List.member aliases (to_lower held) then Some \<lparr>hold_value = held, hold_position = i + 1\<rparr>
      else scan_holds aliases (Suc i) rest)"

definition findLegalHold :: "subject_keys \<Rightarrow> string \<Rightarrow> string list \<Rightarrow> legal_hold_match option" where
  "findLegalHold subject requestedExternalUserId holdList =
     (if holdList = [] then None
      else scan_holds
        (nub (map to_lower (filter (\<lambda>a. length a > 0)
           (requestedExternalUserId # legacyUserIds subject @ platosEndUserIds subject))))
        0 holdList)"

definition legalHoldReference :: "legal_hold_match \<Rightarrow> string \<Rightarrow> string" where
  "legalHoldReference m entryHash =
     LEGAL_HOLD_REFERENCE_PREFIX @ show_nat (hold_position m) @ '':'' @ take 12 entryHash"

section \<open>Lemmas\<close>

definition contributed :: "(partial_keys \<Rightarrow> 'a list option) \<Rightarrow> partial_keys option list \<Rightarrow> 'a set" where
  "contributed f parts = {x. \<exists>p xs. Some p \<in> set parts \<and> f p = Some xs \<and> x \<in> set xs}"

lemma contributed_Nil [simp]: "contributed f [] = {}"
  by (simp add: contributed_def)

lemma contributed_Cons:
  "contributed f (p # ps) =
     (case p of None \<Rightarrow> {} | Some q \<Rightarrow> (case f q of None \<Rightarrow> {} | Some xs \<Rightarrow> set xs)) \<union> contributed f ps"
  by (auto simp: contributed_def split: option.splits)

lemma set_add_ids: "set (add_ids ids acc) = set acc \<union>
    ((case ids of None \<Rightarrow> {} | Some xs \<Rightarrow> set xs) - {[]})"
proof -
  have "set (fold (\<lambda>i a. if i \<noteq> [] then set_add i a else a) xs acc) = set acc \<union> (set xs - {[]})" for xs
    by (induction xs arbitrary: acc) auto
  then show ?thesis by (auto simp: add_ids_def split: option.splits)
qed

lemma distinct_add_ids: "distinct acc \<Longrightarrow> distinct (add_ids ids acc)"
proof -
  have "distinct acc \<Longrightarrow> distinct (fold (\<lambda>i a. if i \<noteq> [] then set_add i a else a) xs acc)" for xs
    by (induction xs arbitrary: acc) auto
  then show "distinct acc \<Longrightarrow> distinct (add_ids ids acc)" by (simp add: add_ids_def)
qed

lemma fold_merge_ids:
  "fold merge_part parts (eu, lu, sm) = (eu', lu', sm') \<Longrightarrow> distinct eu \<Longrightarrow> distinct lu \<Longrightarrow>
     distinct eu' \<and> distinct lu' \<and>
     set eu' = set eu \<union> (contributed pk_platosEndUserIds parts - {[]}) \<and>
     set lu' = set lu \<union> (contributed pk_legacyUserIds parts - {[]})"
proof (induction parts arbitrary: eu lu sm)
  case (Cons p ps)
  show ?case
  proof (cases p)
    case None
    with Cons show ?thesis by (simp add: merge_part_def contributed_Cons)
  next
    case (Some q)
    with Cons.IH [of "add_ids (pk_platosEndUserIds q) eu" "add_ids (pk_legacyUserIds q) lu"] Cons.prems
    show ?thesis
      by (auto simp: merge_part_def contributed_Cons set_add_ids distinct_add_ids split: option.splits)
  qed
qed simp

lemma merge_ids:
  shows merge_set_endUserIds: "set (platosEndUserIds (mergeSubjectKeys lc parts)) =
      contributed pk_platosEndUserIds parts - {[]}"
    and merge_set_legacyUserIds: "set (legacyUserIds (mergeSubjectKeys lc parts)) =
      contributed pk_legacyUserIds parts - {[]}"
    and merge_canonical_endUserIds: "distinct (platosEndUserIds (mergeSubjectKeys lc parts))"
      "sorted (platosEndUserIds (mergeSubjectKeys lc parts))"
    and merge_canonical_legacyUserIds: "distinct (legacyUserIds (mergeSubjectKeys lc parts))"
      "sorted (legacyUserIds (mergeSubjectKeys lc parts))"
proof -
  obtain eu lu sm where f: "fold merge_part parts ([], [], []) = (eu, lu, sm)"
    by (metis prod_cases3)
  from fold_merge_ids [OF f]
  show "set (platosEndUserIds (mergeSubjectKeys lc parts)) = contributed pk_platosEndUserIds parts - {[]}"
    and "set (legacyUserIds (mergeSubjectKeys lc parts)) = contributed pk_legacyUserIds parts - {[]}"
    and "distinct (platosEndUserIds (mergeSubjectKeys lc parts))"
    and "sorted (platosEndUserIds (mergeSubjectKeys lc parts))"
    and "distinct (legacyUserIds (mergeSubjectKeys lc parts))"
    and "sorted (legacyUserIds (mergeSubjectKeys lc parts))"
    by (simp_all add: mergeSubjectKeys_def f)
qed

subsection \<open>Scopes\<close>

definition slash_free :: "subject_scope \<Rightarrow> bool" where
  "slash_free s \<longleftrightarrow> CHR ''/'' \<notin> set (organizationId s) \<and> CHR ''/'' \<notin> set (projectId s)
     \<and> CHR ''/'' \<notin> set (environmentId s)"

lemma scope_key_join: "scope_key s = join ''/'' [organizationId s, projectId s, environmentId s]"
  by (simp add: scope_key_def)

lemma scope_key_inj: "slash_free s \<Longrightarrow> slash_free t \<Longrightarrow> scope_key s = scope_key t \<Longrightarrow> s = t"
proof -
  assume st: "slash_free s" "slash_free t" "scope_key s = scope_key t"
  have "split_on (CHR ''/'') (scope_key u) = [organizationId u, projectId u, environmentId u]"
    if "slash_free u" for u :: subject_scope
    unfolding scope_key_join by (rule split_on_join) (use that in \<open>auto simp: slash_free_def\<close>)
  with st show "s = t" by (metis list.inject subject_scope.equality unit.exhaust)
qed

definition keyed :: "(string \<times> subject_scope) list \<Rightarrow> bool" where
  "keyed m \<longleftrightarrow> distinct (map fst m) \<and> (\<forall>(k, s) \<in> set m. k = scope_key s)"

lemma keyed_update:
  assumes "keyed m" "slash_free s" "\<forall>t \<in> snd ` set m. slash_free t"
  shows "keyed (AList.update (scope_key s) s m) \<and>
    snd ` set (AList.update (scope_key s) s m) = insert s (snd ` set m)"
  using assms
proof (induction m)
  case (Cons e m)
  obtain k t where e: "e = (k, t)" by (cases e)
  have kt: "k = scope_key t" "slash_free t" "keyed m" "k \<notin> fst ` set m"
    using Cons.prems e by (auto simp: keyed_def)
  show ?case
  proof (cases "k = scope_key s")
    case True
    with kt have "t = s" using Cons.prems(2) scope_key_inj by blast
    with True Cons.prems e kt show ?thesis by (auto simp: keyed_def)
  next
    case False
    with Cons kt have IH: "keyed (AList.update (scope_key s) s m)"
      "snd ` set (AList.update (scope_key s) s m) = insert s (snd ` set m)" by auto
    moreover have "fst ` set (AList.update (scope_key s) s m) = insert (scope_key s) (fst ` set m)"
      by (simp add: dom_update)
    ultimately show ?thesis using False kt e by (auto simp: keyed_def)
  qed
qed (simp add: keyed_def)

lemma keyed_distinct: "keyed m \<Longrightarrow> distinct (map snd m)"
  by (induction m) (auto simp: keyed_def image_iff, force)

lemma add_scopes_keyed:
  assumes "keyed m" "\<forall>t \<in> snd ` set m. slash_free t" "\<forall>xs. ss = Some xs \<longrightarrow> (\<forall>t \<in> set xs. slash_free t)"
  shows "keyed (add_scopes ss m) \<and> snd ` set (add_scopes ss m) = snd ` set m \<union>
    {s. scope_valid s \<and> (\<exists>xs. ss = Some xs \<and> s \<in> set xs)}"
proof -
  have gen: "keyed m \<Longrightarrow> \<forall>t \<in> snd ` set m. slash_free t \<Longrightarrow> \<forall>t \<in> set xs. slash_free t \<Longrightarrow>
    keyed (fold (\<lambda>s a. if scope_valid s then AList.update (scope_key s) s a else a) xs m) \<and>
    snd ` set (fold (\<lambda>s a. if scope_valid s then AList.update (scope_key s) s a else a) xs m)
      = snd ` set m \<union> {s \<in> set xs. scope_valid s}" for xs m
  proof (induction xs arbitrary: m)
    case (Cons x xs)
    then show ?case
    proof (cases "scope_valid x")
      case True
      with keyed_update [of m x] Cons.prems
      have u: "keyed (AList.update (scope_key x) x m)"
        "snd ` set (AList.update (scope_key x) x m) = insert x (snd ` set m)" by auto
      with Cons.IH [of "AList.update (scope_key x) x m"] Cons.prems True show ?thesis by auto
    qed auto
  qed auto
  show ?thesis
  proof (cases ss)
    case None
    with assms show ?thesis by (simp add: add_scopes_def)
  next
    case (Some xs)
    with gen [of m xs] assms show ?thesis by (auto simp: add_scopes_def)
  qed
qed

lemma fold_merge_scopes:
  assumes "fold merge_part parts (eu, lu, sm) = (eu', lu', sm')" "keyed sm"
    and "\<forall>t \<in> snd ` set sm. slash_free t" "\<forall>t \<in> contributed pk_scopes parts. slash_free t"
  shows "keyed sm' \<and> snd ` set sm' = snd ` set sm \<union> {s \<in> contributed pk_scopes parts. scope_valid s}"
  using assms
proof (induction parts arbitrary: eu lu sm)
  case (Cons p ps)
  show ?case
  proof (cases p)
    case None
    with Cons show ?thesis by (simp add: merge_part_def contributed_Cons)
  next
    case (Some q)
    have a: "keyed (add_scopes (pk_scopes q) sm)"
      "snd ` set (add_scopes (pk_scopes q) sm) = snd ` set sm \<union>
        {s. scope_valid s \<and> (\<exists>xs. pk_scopes q = Some xs \<and> s \<in> set xs)}"
      using add_scopes_keyed [of sm "pk_scopes q"] Cons.prems Some by (auto simp: contributed_Cons)
    have "keyed sm' \<and> snd ` set sm' = snd ` set (add_scopes (pk_scopes q) sm) \<union>
        {s \<in> contributed pk_scopes ps. scope_valid s}"
      by (rule Cons.IH [of "add_ids (pk_platosEndUserIds q) eu" "add_ids (pk_legacyUserIds q) lu"])
        (use Cons.prems Some a in \<open>auto simp: merge_part_def contributed_Cons\<close>)
    with a Some show ?thesis by (auto simp: contributed_Cons split: option.splits)
  qed
qed simp

lemma merge_scopes:
  assumes "\<forall>s \<in> contributed pk_scopes parts. slash_free s"
  shows "set (scopes (mergeSubjectKeys lc parts)) = {s \<in> contributed pk_scopes parts. scope_valid s}"
    and "distinct (scopes (mergeSubjectKeys lc parts))"
proof -
  obtain eu lu sm where f: "fold merge_part parts ([], [], []) = (eu, lu, sm)"
    by (metis prod_cases3)
  have "keyed sm \<and> snd ` set sm = snd ` set ([] :: (string \<times> subject_scope) list) \<union>
      {s \<in> contributed pk_scopes parts. scope_valid s}"
    by (rule fold_merge_scopes [OF f]) (use assms in \<open>auto simp: keyed_def\<close>)
  then show "set (scopes (mergeSubjectKeys lc parts)) = {s \<in> contributed pk_scopes parts. scope_valid s}"
    and "distinct (scopes (mergeSubjectKeys lc parts))"
    by (simp_all add: mergeSubjectKeys_def f keyed_distinct)
qed

subsection \<open>Holds\<close>

definition hold_aliases :: "subject_keys \<Rightarrow> string \<Rightarrow> string set" where
  "hold_aliases subject requested =
     set (requested # legacyUserIds subject @ platosEndUserIds subject) - {[]}"

lemma scan_holds_None: "scan_holds al i hs = None \<longleftrightarrow> (\<forall>h \<in> set hs. to_lower h \<notin> set al)"
  by (induction hs arbitrary: i) (auto simp: List.member_iff)

lemma scan_holds_Some:
  "scan_holds al i hs = Some m \<Longrightarrow> i < hold_position m \<and> hold_position m \<le> i + length hs \<and>
     hs ! (hold_position m - 1 - i) = hold_value m \<and> to_lower (hold_value m) \<in> set al \<and>
     (\<forall>j < hold_position m - 1 - i. to_lower (hs ! j) \<notin> set al)"
proof (induction hs arbitrary: i)
  case (Cons h hs)
  show ?case
  proof (cases "to_lower h \<in> set al")
    case True
    with Cons.prems show ?thesis by (auto simp: List.member_iff)
  next
    case False
    with Cons.prems have s: "scan_holds al (Suc i) hs = Some m" by (simp add: List.member_iff)
    note IH = Cons.IH [OF s]
    from IH have d: "hold_position m - 1 - i = Suc (hold_position m - 1 - Suc i)" by auto
    from IH False show ?thesis unfolding d by (auto simp: nth_Cons less_Suc_eq_0_disj split: nat.splits)
  qed
qed simp

lemma parseLegalHoldList_clean:
  "h \<in> set (parseLegalHoldList raw) \<Longrightarrow> h \<noteq> [] \<and> trim h = h"
  by (auto simp: parseLegalHoldList_def split: option.splits if_splits)

lemma operator_tables_excluded:
  "isOperatorTable t \<Longrightarrow> \<not> isSubjectUserIdTable t \<and> t \<notin> set CANONICAL_TABLES \<and> t \<notin> set CASCADE_TABLES"
  by (auto simp: isOperatorTable_def isSubjectUserIdTable_def OPERATOR_USERID_TABLES_def
      SUBJECT_USERID_TABLES_def CANONICAL_TABLES_def CASCADE_TABLES_def)

section \<open>Properties\<close>

text \<open>
  Merging discovered handles loses nothing and invents nothing. The merged subject
  holds exactly the non-empty end-user ids and legacy ids of its parts, each list sorted
  and without duplicates, and, when no identifier contains the separator \<open>/\<close>, exactly
  the scopes whose three ids are present, without duplicates.
\<close>

lemma mergeSubjectKeys_lossless:
  assumes "\<forall>s \<in> contributed pk_scopes parts. slash_free s"
  shows "set (platosEndUserIds (mergeSubjectKeys lc parts)) = contributed pk_platosEndUserIds parts - {[]} \<and>
    set (legacyUserIds (mergeSubjectKeys lc parts)) = contributed pk_legacyUserIds parts - {[]} \<and>
    set (scopes (mergeSubjectKeys lc parts)) = {s \<in> contributed pk_scopes parts. scope_valid s} \<and>
    distinct (platosEndUserIds (mergeSubjectKeys lc parts)) \<and>
    sorted (platosEndUserIds (mergeSubjectKeys lc parts)) \<and>
    distinct (legacyUserIds (mergeSubjectKeys lc parts)) \<and>
    sorted (legacyUserIds (mergeSubjectKeys lc parts)) \<and>
    distinct (scopes (mergeSubjectKeys lc parts))"
  using merge_ids merge_scopes [OF assms] by simp

text \<open>
  Two discoveries of the same person give byte-identical key sets. If two lists of
  parts contribute the same ids and scopes, in whatever order and however often, their
  merged subjects are equal, given a collation that is a total order on the scope keys
  and identifiers without the separator.
\<close>

lemma mergeSubjectKeys_canonical:
  assumes lc: "total_preorder lc" "\<And>a b. lc a b \<Longrightarrow> lc b a \<Longrightarrow> a = b"
    and free: "\<forall>s \<in> contributed pk_scopes parts. slash_free s"
    and same: "contributed pk_platosEndUserIds parts = contributed pk_platosEndUserIds parts'"
      "contributed pk_legacyUserIds parts = contributed pk_legacyUserIds parts'"
      "contributed pk_scopes parts = contributed pk_scopes parts'"
  shows "mergeSubjectKeys lc parts = mergeSubjectKeys lc parts'"
proof -
  let ?m = "mergeSubjectKeys lc parts" and ?n = "mergeSubjectKeys lc parts'"
  let ?le = "\<lambda>a b. lc (scope_key a) (scope_key b)"
  have eu: "platosEndUserIds ?m = platosEndUserIds ?n"
    by (rule sorted_distinct_set_unique) (simp_all add: merge_ids same)
  have lu: "legacyUserIds ?m = legacyUserIds ?n"
    by (rule sorted_distinct_set_unique) (simp_all add: merge_ids same)
  have free': "\<forall>s \<in> contributed pk_scopes parts'. slash_free s" using free same by simp
  have tp: "total_preorder ?le" using lc(1) unfolding total_preorder_def by blast
  have st: "sorted_wrt ?le (scopes (mergeSubjectKeys lc ps))" for ps
    using sorted_sort_by [OF tp] by (auto simp: mergeSubjectKeys_def split: prod.splits)
  have "scopes ?m = scopes ?n"
  proof (rule sorted_wrt_unique [OF st st])
    show "mset (scopes ?m) = mset (scopes ?n)"
      using merge_scopes [OF free] merge_scopes [OF free'] same
      by (simp add: set_eq_iff_mset_eq_distinct [symmetric])
    fix x y assume "x \<in> set (scopes ?m)" "y \<in> set (scopes ?m)"
      "lc (scope_key x) (scope_key y)" "lc (scope_key y) (scope_key x)"
    with lc(2) have "scope_key x = scope_key y" "slash_free x" "slash_free y"
      using merge_scopes(1) [OF free, of lc] free by auto
    then show "x = y" by (simp add: scope_key_inj)
  qed
  with eu lu show ?thesis by simp
qed

text \<open>
  A hold stops the erasure under every alias. \<open>findLegalHold\<close> answers \<open>null\<close> exactly
  when no register entry equals, ignoring case, the requested id, a legacy id or an
  end-user id of the subject; otherwise it returns the first entry that does, with its
  one-based position in the register.
\<close>

lemma findLegalHold_spec:
  "case findLegalHold subject requested holds of
      None \<Rightarrow> \<forall>h \<in> set holds. \<forall>a \<in> hold_aliases subject requested. to_lower h \<noteq> to_lower a
    | Some m \<Rightarrow> 1 \<le> hold_position m \<and> hold_position m \<le> length holds \<and>
        holds ! (hold_position m - 1) = hold_value m \<and>
        (\<exists>a \<in> hold_aliases subject requested. to_lower (hold_value m) = to_lower a) \<and>
        (\<forall>j < hold_position m - 1. \<forall>a \<in> hold_aliases subject requested. to_lower (holds ! j) \<noteq> to_lower a)"
proof -
  let ?al = "nub (map to_lower (filter (\<lambda>a. length a > 0)
    (requested # legacyUserIds subject @ platosEndUserIds subject)))"
  have al: "set ?al = to_lower ` hold_aliases subject requested" by (auto simp: hold_aliases_def)
  show ?thesis
  proof (cases "findLegalHold subject requested holds")
    case None
    then have "holds = [] \<or> scan_holds ?al 0 holds = None" by (simp add: findLegalHold_def split: if_splits)
    then show ?thesis using None al by (auto simp: scan_holds_None)
  next
    case (Some m)
    then have "scan_holds ?al 0 holds = Some m" by (simp add: findLegalHold_def split: if_splits)
    from scan_holds_Some [OF this] show ?thesis unfolding al using Some by auto
  qed
qed

text \<open>
  The subject hash binds organisation and person. For NUL-free inputs, if the hash
  function does not collide on the two strings, equal handles under one salt come from the
  same organisation and the same external id, so a reused idempotency key cannot match
  another person and one person is not correlatable between tenants.
\<close>

lemma subjectKeyHash_binding:
  assumes "\<forall>s \<in> {salt, org, ext, org', ext'}. CHR 0x00 \<notin> set s"
    and "inj hasher"
    and "subjectKeyHash ext org salt hasher = subjectKeyHash ext' org' salt hasher"
  shows "ext = ext' \<and> org = org'"
proof -
  let ?j = "\<lambda>o1 e. join [char_of (0::nat)] [salt, o1, e]"
  from assms(2,3) have j: "?j org ext = ?j org' ext'" by (simp add: subjectKeyHash_def inj_eq)
  have z: "char_of (0::nat) = CHR 0x00" by (simp add: char_of_def)
  have "split_on (CHR 0x00) (join [CHR 0x00] [salt, org, ext]) = [salt, org, ext]"
    "split_on (CHR 0x00) (join [CHR 0x00] [salt, org', ext']) = [salt, org', ext']"
    by (rule split_on_join; use assms(1) in auto)+
  with j show ?thesis unfolding z by simp
qed

section \<open>Witnesses\<close>

definition w_scope :: subject_scope where
  "w_scope = \<lparr>organizationId = ''o'', projectId = ''p'', environmentId = ''e''\<rparr>"

definition w_part :: partial_keys where
  "w_part = \<lparr>pk_platosEndUserIds = Some [''b'', [], ''a'', ''b''], pk_legacyUserIds = None,
     pk_scopes = Some [w_scope]\<rparr>"

lemma w_contributed: "contributed pk_scopes [Some w_part] = {w_scope}"
  "contributed pk_platosEndUserIds [Some w_part] = {''b'', [], ''a''}"
  "contributed pk_legacyUserIds [Some w_part] = {}"
  by (auto simp: contributed_Cons w_part_def)

lemma w_slash_free: "slash_free w_scope"
  by (simp add: slash_free_def w_scope_def)

end
