(* ===== verification/ErasureRegister.thy ===== *)
theory ErasureRegister
  imports Table SubjectGraph
begin

text \<open>
  The erased-subject register (\<open>apps/agent/src/privacy/erasure-register.ts\<close>): tombstones
  for every handle a person can be addressed by, consulted by the write paths. The two
  tables, tombstones and identities, are parameters with the interface of \<open>Table\<close>; the
  hash function, the environment variables and the clock are arguments. A date is its time
  value in milliseconds.
\<close>

section \<open>Definitions\<close>

definition DEFAULT_TOMBSTONE_TTL_DAYS :: int where
  "DEFAULT_TOMBSTONE_TTL_DAYS = 30"

text \<open>The optional chaining of \<open>normalizeAlias\<close> admits a missing field.\<close>

record subject_alias =
  al_channel :: "string option"
  al_subject :: "string option"

definition CANONICAL_ALIAS_CHANNEL :: string where
  "CANONICAL_ALIAS_CHANNEL = ''platos:end-user''"

datatype register_error =
    SubjectErasedError string
  | ErasureRegisterUnavailableError db_error
  | SaltRequired
  | StoreError db_error

record tombstone =
  tb_organizationId :: string
  tb_aliasHash :: string
  tb_operationId :: string
  tb_policyVersion :: string
  tb_sealedAt :: int
  tb_expiresAt :: int

definition tombstone_key :: "tombstone \<Rightarrow> string \<times> string" where
  "tombstone_key t = (tb_organizationId t, tb_aliasHash t)"

record end_user_identity =
  idn_organizationId :: string
  idn_endUserId :: string
  idn_issuer :: string
  idn_channel :: string
  idn_subject :: string
  idn_disabledAt :: "int option"

record salt_env =
  env_PLATOS_ERASURE_HASH_SALT :: "string option"
  env_NODE_ENV :: "string option"

definition erasureHashSalt :: "salt_env \<Rightarrow> register_error + string" where
  "erasureHashSalt env =
     (let configured = env_PLATOS_ERASURE_HASH_SALT env;
          falsy = (configured = None \<or> configured = Some [])
      in if falsy \<and> env_NODE_ENV env = Some ''production'' then Inl SaltRequired
         else if falsy then Inr ''platos-erasure-development-only'' else Inr (the configured))"

definition tombstoneTtlDays :: "jsnum \<Rightarrow> int" where
  "tombstoneTtlDays raw =
     (if \<not> is_finite raw \<or> fin_val raw < 1 then DEFAULT_TOMBSTONE_TTL_DAYS else \<lfloor>fin_val raw\<rfloor>)"

definition fold_handle :: "string option \<Rightarrow> string" where
  "fold_handle v = (case v of None \<Rightarrow> [] | Some s \<Rightarrow> to_lower (trim s))"

definition normalizeAlias :: "subject_alias \<Rightarrow> subject_alias option" where
  "normalizeAlias a =
     (let channel = fold_handle (al_channel a); subject = fold_handle (al_subject a)
      in if channel = [] \<or> subject = [] then None
         else Some \<lparr>al_channel = Some channel, al_subject = Some subject\<rparr>)"

text \<open>\<open>Array.join\<close> writes a missing element as the empty string.\<close>

definition aliasKeyHash ::
    "(string \<Rightarrow> string) \<Rightarrow> subject_alias \<Rightarrow> string \<Rightarrow> string \<Rightarrow> string" where
  "aliasKeyHash hasher a org salt =
     hasher (join [char_of (0::nat)] [salt, org, ''alias'',
       case al_channel a of None \<Rightarrow> [] | Some c \<Rightarrow> c, case al_subject a of None \<Rightarrow> [] | Some s \<Rightarrow> s])"

fun alias_set ::
    "(string \<Rightarrow> string) \<Rightarrow> string \<Rightarrow> string \<Rightarrow> subject_alias list \<Rightarrow> string list \<Rightarrow> string list" where
  "alias_set hasher org salt [] out = out"
| "alias_set hasher org salt (raw # rest) out =
     (case normalizeAlias raw of None \<Rightarrow> alias_set hasher org salt rest out
      | Some a \<Rightarrow> alias_set hasher org salt rest (set_add (aliasKeyHash hasher a org salt) out))"

definition aliasHashes ::
    "(string \<Rightarrow> string) \<Rightarrow> subject_alias list \<Rightarrow> string \<Rightarrow> string \<Rightarrow> string list" where
  "aliasHashes hasher aliases org salt = sort (alias_set hasher org salt aliases [])"

definition resolve_salt :: "salt_env \<Rightarrow> string option \<Rightarrow> register_error + string" where
  "resolve_salt env salt = (case salt of Some s \<Rightarrow> Inr s | None \<Rightarrow> erasureHashSalt env)"

definition barrier_where :: "string \<Rightarrow> string list \<Rightarrow> int \<Rightarrow> tombstone \<Rightarrow> bool" where
  "barrier_where org hashes now t \<longleftrightarrow>
     tb_organizationId t = org \<and> tb_aliasHash t \<in> set hashes \<and> now < tb_expiresAt t"

definition assertSubjectNotErased ::
    "(string \<Rightarrow> string) \<Rightarrow> salt_env \<Rightarrow> ('s, tombstone) table \<Rightarrow> string \<Rightarrow> subject_alias list \<Rightarrow>
     string option \<Rightarrow> int \<Rightarrow> 's \<Rightarrow> register_error + unit" where
  "assertSubjectNotErased hasher env T org aliases salt now s =
     (case resolve_salt env salt of Inl e \<Rightarrow> Inl e
      | Inr slt \<Rightarrow>
          let hashes = aliasHashes hasher aliases org slt
          in if hashes = [] then Inr ()
             else case findFirst T (barrier_where org hashes now) s of
                    Inl e \<Rightarrow> Inl (ErasureRegisterUnavailableError e)
                  | Inr (Some hit) \<Rightarrow> Inl (SubjectErasedError org)
                  | Inr None \<Rightarrow> Inr ())"

definition erasedAliasHashes ::
    "(string \<Rightarrow> string) \<Rightarrow> salt_env \<Rightarrow> ('s, tombstone) table \<Rightarrow> string \<Rightarrow> subject_alias list \<Rightarrow>
     string option \<Rightarrow> int \<Rightarrow> 's \<Rightarrow> register_error + string list" where
  "erasedAliasHashes hasher env T org aliases salt now s =
     (case resolve_salt env salt of Inl e \<Rightarrow> Inl e
      | Inr slt \<Rightarrow>
          let hashes = aliasHashes hasher aliases org slt
          in if hashes = [] then Inr []
             else case findMany T (barrier_where org hashes now) s of
                    Inl e \<Rightarrow> Inl (ErasureRegisterUnavailableError e)
                  | Inr rows \<Rightarrow> Inr (nub (map tb_aliasHash rows)))"

definition purgeExpiredTombstones ::
    "('s, tombstone) table \<Rightarrow> int \<Rightarrow> 's \<Rightarrow> (register_error + nat) \<times> 's" where
  "purgeExpiredTombstones T now s =
     (case deleteMany T (\<lambda>t. tb_expiresAt t \<le> now) s of
        Inl e \<Rightarrow> (Inl (StoreError e), s) | Inr (n, s') \<Rightarrow> (Inr n, s'))"

record seal_args =
  sa_organizationId :: string
  sa_operationId :: string
  sa_policyVersion :: string
  sa_platosEndUserIds :: "string list"
  sa_extraAliases :: "subject_alias list"
  sa_salt :: "string option"
  sa_ttlDays :: "int option"

record seal_result =
  sr_aliases :: nat
  sr_sealed :: nat
  sr_purged :: nat

definition identity_alias :: "end_user_identity \<Rightarrow> subject_alias" where
  "identity_alias r = \<lparr>al_channel = Some (idn_channel r), al_subject = Some (idn_subject r)\<rparr>"

definition canonical_alias :: "string \<Rightarrow> subject_alias" where
  "canonical_alias uid = \<lparr>al_channel = Some CANONICAL_ALIAS_CHANNEL, al_subject = Some uid\<rparr>"

definition seal_expiry :: "jsnum \<Rightarrow> seal_args \<Rightarrow> int \<Rightarrow> int" where
  "seal_expiry rawTtl args now =
     now + (case sa_ttlDays args of Some d \<Rightarrow> d | None \<Rightarrow> tombstoneTtlDays rawTtl) * 24 * 60 * 60 * 1000"

definition seal_identities ::
    "('s, end_user_identity) table \<Rightarrow> seal_args \<Rightarrow> 's \<Rightarrow> db_error + end_user_identity list" where
  "seal_identities I args s =
     (if sa_platosEndUserIds args \<noteq> []
      then findMany I (\<lambda>r. idn_organizationId r = sa_organizationId args
             \<and> idn_endUserId r \<in> set (sa_platosEndUserIds args)) s
      else Inr [])"

text \<open>The two writes and the purge. A statement that throws keeps what the earlier ones wrote.\<close>

definition write_tombstones ::
    "('s, tombstone) table \<Rightarrow> seal_args \<Rightarrow> string list \<Rightarrow> int \<Rightarrow> int \<Rightarrow> 's
     \<Rightarrow> (register_error + seal_result) \<times> 's" where
  "write_tombstones T args hashes now expiresAt s =
     (case createManySkip T (map (\<lambda>h. \<lparr>tb_organizationId = sa_organizationId args,
             tb_aliasHash = h, tb_operationId = sa_operationId args,
             tb_policyVersion = sa_policyVersion args, tb_sealedAt = now,
             tb_expiresAt = expiresAt\<rparr>) hashes) s of
        Inl e \<Rightarrow> (Inl (StoreError e), s)
      | Inr (created, s1) \<Rightarrow>
          (case updateMany T (\<lambda>t. tb_organizationId t = sa_organizationId args
                  \<and> tb_aliasHash t \<in> set hashes)
                (\<lambda>t. t\<lparr>tb_expiresAt := expiresAt, tb_operationId := sa_operationId args,
                      tb_policyVersion := sa_policyVersion args\<rparr>) s1 of
             Inl e \<Rightarrow> (Inl (StoreError e), s1)
           | Inr (n, s2) \<Rightarrow>
               (case purgeExpiredTombstones T now s2 of
                  (Inl e, s3) \<Rightarrow> (Inl e, s3)
                | (Inr purged, s3) \<Rightarrow>
                    (Inr \<lparr>sr_aliases = length hashes, sr_sealed = created, sr_purged = purged\<rparr>, s3))))"

definition sealErasedSubject ::
    "(string \<Rightarrow> string) \<Rightarrow> salt_env \<Rightarrow> jsnum \<Rightarrow> ('s, tombstone) table \<Rightarrow> ('s, end_user_identity) table
     \<Rightarrow> seal_args \<Rightarrow> int \<Rightarrow> 's \<Rightarrow> (register_error + seal_result) \<times> 's" where
  "sealErasedSubject hasher env rawTtl T I args now s =
     (case resolve_salt env (sa_salt args) of Inl e \<Rightarrow> (Inl e, s)
      | Inr slt \<Rightarrow>
          (case seal_identities I args s of Inl e \<Rightarrow> (Inl (StoreError e), s)
           | Inr identities \<Rightarrow>
               let aliases = map identity_alias identities @ sa_extraAliases args
                     @ map canonical_alias (sa_platosEndUserIds args);
                   hashes = aliasHashes hasher aliases (sa_organizationId args) slt
               in if hashes = [] then (Inr \<lparr>sr_aliases = 0, sr_sealed = 0, sr_purged = 0\<rparr>, s)
                  else write_tombstones T args hashes now (seal_expiry rawTtl args now) s))"

section \<open>Handles\<close>

definition handle_hashes ::
    "(string \<Rightarrow> string) \<Rightarrow> subject_alias list \<Rightarrow> string \<Rightarrow> string \<Rightarrow> string set" where
  "handle_hashes hasher aliases org salt =
     {aliasKeyHash hasher n org salt | a n. a \<in> set aliases \<and> normalizeAlias a = Some n}"

lemma set_alias_set:
  "set (alias_set hasher org salt as out) = set out \<union> handle_hashes hasher as org salt"
  by (induction hasher org salt as out rule: alias_set.induct)
    (auto simp: handle_hashes_def js_collect split: option.splits)

lemma set_aliasHashes: "set (aliasHashes hasher as org salt) = handle_hashes hasher as org salt"
  by (simp add: aliasHashes_def set_alias_set)

lemma handle_hashesI:
  "a \<in> set as \<Longrightarrow> normalizeAlias a = Some n \<Longrightarrow> aliasKeyHash hasher n org salt \<in> handle_hashes hasher as org salt"
  by (auto simp: handle_hashes_def)

lemma aliasHashes_Nil: "aliasHashes hasher as org salt = [] \<longleftrightarrow> handle_hashes hasher as org salt = {}"
  by (metis set_aliasHashes set_empty)

lemma barrier_where_iff:
  "barrier_where org (aliasHashes hasher as org salt) now t \<longleftrightarrow>
     tb_organizationId t = org \<and> tb_aliasHash t \<in> handle_hashes hasher as org salt \<and> now < tb_expiresAt t"
  by (simp add: barrier_where_def set_aliasHashes)

section \<open>The barrier over any tombstone table\<close>

definition standing :: "tombstone multiset \<Rightarrow> string \<Rightarrow> string \<Rightarrow> int \<Rightarrow> bool" where
  "standing m org h e \<longleftrightarrow>
     (\<exists>t. t \<in># m \<and> tb_organizationId t = org \<and> tb_aliasHash t = h \<and> e \<le> tb_expiresAt t)"

definition barrier_hits :: "tombstone multiset \<Rightarrow> string \<Rightarrow> int \<Rightarrow> string set \<Rightarrow> tombstone set" where
  "barrier_hits m org now hs = {t. t \<in># m \<and> tb_organizationId t = org \<and> now < tb_expiresAt t
     \<and> tb_aliasHash t \<in> hs}"

locale tombstone_store = prisma_table T rows tombstone_key
  for T :: "('s, tombstone) table" and rows :: "'s \<Rightarrow> tombstone multiset"
begin

lemma admitted_only_if_clear:
  assumes "assertSubjectNotErased hasher env T org as salt now s = Inr ()"
    and "resolve_salt env salt = Inr slt"
    and "t \<in># rows s" "tb_organizationId t = org" "now < tb_expiresAt t"
  shows "tb_aliasHash t \<notin> handle_hashes hasher as org slt"
proof (cases "handle_hashes hasher as org slt = {}")
  case False
  then have "findFirst T (barrier_where org (aliasHashes hasher as org slt) now) s = Inr None"
    using assms(1,2)
    by (auto simp: assertSubjectNotErased_def aliasHashes_Nil Let_def split: sum.splits option.splits)
  then show ?thesis using first_none assms(3-5) by (fastforce simp: barrier_where_iff)
qed simp

lemma refused_only_if_sealed:
  assumes "assertSubjectNotErased hasher env T org as salt now s = Inl (SubjectErasedError o')"
    and "resolve_salt env salt = Inr slt"
  shows "o' = org \<and> (\<exists>t. t \<in># rows s \<and> tb_organizationId t = org \<and>
    tb_aliasHash t \<in> handle_hashes hasher as org slt \<and> now < tb_expiresAt t)"
proof -
  obtain t where t: "findFirst T (barrier_where org (aliasHashes hasher as org slt) now) s = Inr (Some t)"
    and o': "o' = org"
    using assms
    by (auto simp: assertSubjectNotErased_def Let_def split: sum.splits option.splits if_splits)
  from first_some [OF t] o' show ?thesis by (auto simp: barrier_where_iff)
qed

lemma batch_hashes:
  assumes "erasedAliasHashes hasher env T org as salt now s = Inr hs"
    and "resolve_salt env salt = Inr slt"
  shows "set hs = {tb_aliasHash t | t. t \<in># rows s \<and> tb_organizationId t = org \<and>
    tb_aliasHash t \<in> handle_hashes hasher as org slt \<and> now < tb_expiresAt t}"
proof (cases "handle_hashes hasher as org slt = {}")
  case True
  with assms show ?thesis by (auto simp: erasedAliasHashes_def aliasHashes_Nil)
next
  case False
  then obtain rs where rs: "findMany T (barrier_where org (aliasHashes hasher as org slt) now) s = Inr rs"
    and hs: "hs = nub (map tb_aliasHash rs)"
    using assms by (auto simp: erasedAliasHashes_def aliasHashes_Nil Let_def split: sum.splits)
  then show ?thesis using many_iff [OF rs] by (force simp: js_collect barrier_where_iff)
qed

lemma standing_refuses:
  assumes "standing (rows s) org h e" "now < e" "h \<in> handle_hashes hasher as org slt"
    and "resolve_salt env salt = Inr slt"
  shows "\<exists>err. assertSubjectNotErased hasher env T org as salt now s = Inl err"
proof (cases "assertSubjectNotErased hasher env T org as salt now s")
  case (Inr u)
  then show ?thesis using admitted_only_if_clear [of hasher env org as salt now s slt] assms
    by (force simp: standing_def)
qed simp

lemma purge_keeps:
  assumes "standing (rows s) org h e" "now < e"
  shows "standing (rows (snd (purgeExpiredTombstones T now s))) org h e"
proof (cases "deleteMany T (\<lambda>t. tb_expiresAt t \<le> now) s")
  case (Inr r)
  then obtain n s' where "deleteMany T (\<lambda>t. tb_expiresAt t \<le> now) s = Inr (n, s')" by (cases r) auto
  then show ?thesis using deleted [of "\<lambda>t. tb_expiresAt t \<le> now" s n s'] assms
    by (force simp: purgeExpiredTombstones_def standing_def)
qed (use assms in \<open>simp add: purgeExpiredTombstones_def\<close>)

lemma create_keeps:
  assumes "standing (rows s) org h e" "createManySkip T xs s = Inr (n, s')"
  shows "standing (rows s') org h e"
  using assms(1) created_many [OF assms(2)] add_new_mono [of "rows s" tombstone_key xs]
  by (auto simp: standing_def dest: mset_subset_eqD)

lemma extend_keeps:
  assumes st: "standing (rows s) org h e" and x: "e \<le> x"
    and u: "updateMany T p (\<lambda>t. t\<lparr>tb_expiresAt := x, tb_operationId := op, tb_policyVersion := v\<rparr>) s = Inr (n, s')"
  shows "standing (rows s') org h e"
proof -
  from st obtain t where t: "t \<in># rows s" "tb_organizationId t = org" "tb_aliasHash t = h" "e \<le> tb_expiresAt t"
    by (auto simp: standing_def)
  show ?thesis
  proof (cases "p t")
    case True
    from updated_hit [OF u t(1) True] t x show ?thesis by (force simp: standing_def)
  next
    case False
    from updated_miss [OF u t(1) False] t show ?thesis by (force simp: standing_def)
  qed
qed

lemma write_keeps:
  assumes st: "standing (rows s) org h e" and now: "now < e" and x: "e \<le> x"
  shows "standing (rows (snd (write_tombstones T args hashes now x s))) org h e"
proof -
  let ?row = "\<lambda>h. \<lparr>tb_organizationId = sa_organizationId args, tb_aliasHash = h,
    tb_operationId = sa_operationId args, tb_policyVersion = sa_policyVersion args,
    tb_sealedAt = now, tb_expiresAt = x\<rparr>"
  let ?p = "\<lambda>t. tb_organizationId t = sa_organizationId args \<and> tb_aliasHash t \<in> set hashes"
  let ?f = "\<lambda>t. t\<lparr>tb_expiresAt := x, tb_operationId := sa_operationId args,
    tb_policyVersion := sa_policyVersion args\<rparr>"
  show ?thesis
  proof (cases "createManySkip T (map ?row hashes) s")
    case (Inl err)
    with st show ?thesis by (simp add: write_tombstones_def)
  next
    case (Inr r)
    then obtain n s1 where c: "createManySkip T (map ?row hashes) s = Inr (n, s1)" by (cases r) auto
    have s1: "standing (rows s1) org h e" by (rule create_keeps [OF st c])
    show ?thesis
    proof (cases "updateMany T ?p ?f s1")
      case (Inl err)
      with c s1 show ?thesis by (simp add: write_tombstones_def)
    next
      case (Inr q)
      then obtain k s2 where u: "updateMany T ?p ?f s1 = Inr (k, s2)" by (cases q) auto
      have "standing (rows (snd (purgeExpiredTombstones T now s2))) org h e"
        by (rule purge_keeps [OF extend_keeps [OF s1 x u] now])
      with c u show ?thesis by (auto simp: write_tombstones_def split: sum.splits prod.splits)
    qed
  qed
qed

lemma seal_keeps:
  assumes "standing (rows s) org h e" "now < e" "e \<le> seal_expiry rawTtl args now"
  shows "standing (rows (snd (sealErasedSubject hasher env rawTtl T I args now s))) org h e"
  using assms write_keeps [OF assms]
  by (auto simp: sealErasedSubject_def Let_def split: sum.splits)

lemma create_standing:
  assumes "createManySkip T (map row hashes) s = Inr (n, s')" "h \<in> set hashes"
    and "\<And>g. tombstone_key (row g) = (org, g)"
  shows "\<exists>t. t \<in># rows s' \<and> tb_organizationId t = org \<and> tb_aliasHash t = h"
proof -
  have "(org, h) \<in> tombstone_key ` set_mset (add_new tombstone_key (rows s) (map row hashes))"
    unfolding add_new_keys using assms(2,3) by (auto simp: image_iff)
  then show ?thesis using created_many [OF assms(1)] by (auto simp: tombstone_key_def)
qed

lemma write_seals:
  assumes w: "write_tombstones T args hashes now x s = (Inr res, s')" and h: "h \<in> set hashes"
    and now: "now < x"
  shows "standing (rows s') (sa_organizationId args) h x"
proof -
  let ?row = "\<lambda>h. \<lparr>tb_organizationId = sa_organizationId args, tb_aliasHash = h,
    tb_operationId = sa_operationId args, tb_policyVersion = sa_policyVersion args,
    tb_sealedAt = now, tb_expiresAt = x\<rparr>"
  let ?p = "\<lambda>t. tb_organizationId t = sa_organizationId args \<and> tb_aliasHash t \<in> set hashes"
  let ?f = "\<lambda>t. t\<lparr>tb_expiresAt := x, tb_operationId := sa_operationId args,
    tb_policyVersion := sa_policyVersion args\<rparr>"
  from w obtain n s1 k s2 where c: "createManySkip T (map ?row hashes) s = Inr (n, s1)"
    and u: "updateMany T ?p ?f s1 = Inr (k, s2)" and s': "s' = snd (purgeExpiredTombstones T now s2)"
    by (auto simp: write_tombstones_def split: sum.splits prod.splits)
  obtain t where t: "t \<in># rows s1" "tb_organizationId t = sa_organizationId args" "tb_aliasHash t = h"
    using create_standing [OF c h, of "sa_organizationId args"] by (auto simp: tombstone_key_def)
  have "?f t \<in># rows s2" by (rule updated_hit [OF u t(1)]) (simp add: t h)
  then have "standing (rows s2) (sa_organizationId args) h x"
    using t by (force simp: standing_def)
  from purge_keeps [OF this now] show ?thesis by (simp add: s')
qed

end

definition seal_handle :: "end_user_identity multiset \<Rightarrow> seal_args \<Rightarrow> subject_alias \<Rightarrow> bool" where
  "seal_handle ids args a \<longleftrightarrow> a \<in> set (sa_extraAliases args)
     \<or> a \<in> canonical_alias ` set (sa_platosEndUserIds args)
     \<or> (\<exists>r. r \<in># ids \<and> idn_organizationId r = sa_organizationId args
          \<and> idn_endUserId r \<in> set (sa_platosEndUserIds args) \<and> a = identity_alias r)"

locale erasure_register = tombstone_store T rows + ids: prisma_table I irows ikey
  for T :: "('s, tombstone) table" and rows and I :: "('s, end_user_identity) table"
    and irows and ikey :: "end_user_identity \<Rightarrow> 'k"
begin

lemma seal_covers:
  assumes sl: "sealErasedSubject hasher env rawTtl T I args now s = (Inr res, s')"
    and slt: "resolve_salt env (sa_salt args) = Inr slt"
    and a: "seal_handle (irows s) args a" "normalizeAlias a = Some n"
    and now: "now < seal_expiry rawTtl args now"
  shows "standing (rows s') (sa_organizationId args)
    (aliasKeyHash hasher n (sa_organizationId args) slt) (seal_expiry rawTtl args now)"
proof -
  from sl slt obtain idrows where ids: "seal_identities I args s = Inr idrows"
    by (auto simp: sealErasedSubject_def split: sum.splits)
  let ?as = "map identity_alias idrows @ sa_extraAliases args @ map canonical_alias (sa_platosEndUserIds args)"
  let ?hs = "aliasHashes hasher ?as (sa_organizationId args) slt"
  have "a \<in> set ?as"
  proof (cases "sa_platosEndUserIds args = []")
    case True
    with a(1) show ?thesis by (auto simp: seal_handle_def)
  next
    case False
    then have m: "findMany I (\<lambda>r. idn_organizationId r = sa_organizationId args
        \<and> idn_endUserId r \<in> set (sa_platosEndUserIds args)) s = Inr idrows"
      using ids by (simp add: seal_identities_def)
    from a(1) show ?thesis using ids.many_iff [OF m] by (auto simp: seal_handle_def)
  qed
  then have h: "aliasKeyHash hasher n (sa_organizationId args) slt \<in> set ?hs"
    using a(2) by (simp add: set_aliasHashes handle_hashesI)
  then have "write_tombstones T args ?hs now (seal_expiry rawTtl args now) s = (Inr res, s')"
    using sl slt ids by (auto simp: sealErasedSubject_def Let_def split: if_splits)
  from write_seals [OF this h now] show ?thesis .
qed

end

section \<open>What happens to the register later\<close>

text \<open>
  The register's life up to the instant \<open>e\<close>: later seals of any subject whose tombstones
  last to \<open>e\<close> at least (the retention window is fixed and clocks move forward), with the
  state they leave when one of their statements throws; purges before \<open>e\<close>; and writes of
  other tables.
\<close>

inductive register_run ::
    "(string \<Rightarrow> string) \<Rightarrow> salt_env \<Rightarrow> jsnum \<Rightarrow> ('s, tombstone) table \<Rightarrow> ('s, end_user_identity) table
     \<Rightarrow> ('s \<Rightarrow> tombstone multiset) \<Rightarrow> int \<Rightarrow> 's \<Rightarrow> 's \<Rightarrow> bool"
  for hasher env rawTtl T I rows e where
  run_refl: "register_run hasher env rawTtl T I rows e s s"
| run_seal: "register_run hasher env rawTtl T I rows e s s1 \<Longrightarrow> now < e \<Longrightarrow>
    e \<le> seal_expiry rawTtl args now \<Longrightarrow>
    register_run hasher env rawTtl T I rows e s (snd (sealErasedSubject hasher env rawTtl T I args now s1))"
| run_purge: "register_run hasher env rawTtl T I rows e s s1 \<Longrightarrow> now < e \<Longrightarrow>
    register_run hasher env rawTtl T I rows e s (snd (purgeExpiredTombstones T now s1))"
| run_other: "register_run hasher env rawTtl T I rows e s s1 \<Longrightarrow> rows s2 = rows s1 \<Longrightarrow>
    register_run hasher env rawTtl T I rows e s s2"

lemma run_keeps:
  assumes "tombstone_store T rows"
  shows "register_run hasher env rawTtl T I rows e s s' \<Longrightarrow> standing (rows s) org h e \<Longrightarrow>
    standing (rows s') org h e"
  by (induction rule: register_run.induct)
    (auto intro: tombstone_store.seal_keeps [OF assms] tombstone_store.purge_keeps [OF assms])

section \<open>The register over the repository's table doubles\<close>

definition identity_key :: "end_user_identity \<Rightarrow> string \<times> string \<times> string \<times> string" where
  "identity_key r = (idn_organizationId r, idn_issuer r, idn_channel r, idn_subject r)"

type_synonym register_db = "tombstone list \<times> end_user_identity list"

definition double_tombstones :: "(register_db, tombstone) table" where
  "double_tombstones = focus fst (\<lambda>ts d. (ts, snd d)) (double_table tombstone_key)"

definition double_identities :: "(register_db, end_user_identity) table" where
  "double_identities = focus snd (\<lambda>is d. (fst d, is)) (double_table identity_key)"

interpretation reg: erasure_register double_tombstones "\<lambda>d. mset (fst d)"
  double_identities "\<lambda>d. mset (snd d)" identity_key
  unfolding erasure_register_def tombstone_store_def double_tombstones_def double_identities_def
  by (intro conjI focus_double) simp_all

section \<open>Properties\<close>


text \<open>
  C21: The barrier is exact and fails closed. A write is admitted only if the table was read
  and no unexpired tombstone of the organisation carries the hash of a presented handle; it
  is refused as erased only if one does; and the batch form returns exactly the hashes of
  those tombstones, so the outbox drain drops the rows the single form would refuse.
\<close>

theorem barrier_exact:
  assumes "tombstone_store T rows" and "resolve_salt env salt = Inr slt"
    and "hits = barrier_hits (rows s) org now (handle_hashes hasher as org slt)"
  shows "(assertSubjectNotErased hasher env T org as salt now s = Inr () \<longrightarrow> hits = {})
    \<and> (assertSubjectNotErased hasher env T org as salt now s = Inl (SubjectErasedError o') \<longrightarrow> hits \<noteq> {})
    \<and> (erasedAliasHashes hasher env T org as salt now s = Inr hs \<longrightarrow> set hs = tb_aliasHash ` hits)"
  unfolding assms(3) barrier_hits_def
proof (intro conjI impI)
  assume "assertSubjectNotErased hasher env T org as salt now s = Inr ()"
  from tombstone_store.admitted_only_if_clear [OF assms(1) this assms(2)]
  show "{t. t \<in># rows s \<and> tb_organizationId t = org \<and> now < tb_expiresAt t
      \<and> tb_aliasHash t \<in> handle_hashes hasher as org slt} = {}"
    by blast
next
  assume "assertSubjectNotErased hasher env T org as salt now s = Inl (SubjectErasedError o')"
  from tombstone_store.refused_only_if_sealed [OF assms(1) this assms(2)]
  show "{t. t \<in># rows s \<and> tb_organizationId t = org \<and> now < tb_expiresAt t
      \<and> tb_aliasHash t \<in> handle_hashes hasher as org slt} \<noteq> {}"
    by blast
next
  assume "erasedAliasHashes hasher env T org as salt now s = Inr hs"
  from tombstone_store.batch_hashes [OF assms(1) this assms(2)]
  show "set hs = tb_aliasHash ` {t. t \<in># rows s \<and> tb_organizationId t = org \<and> now < tb_expiresAt t
      \<and> tb_aliasHash t \<in> handle_hashes hasher as org slt}"
    by (simp add: setcompr_eq_image conj_commute conj_left_commute)
qed

section \<open>Witnesses\<close>

definition w_identity :: end_user_identity where
  "w_identity = \<lparr>idn_organizationId = ''o'', idn_endUserId = ''u1'', idn_issuer = ''slack'',
     idn_channel = ''slack'', idn_subject = ''U08'', idn_disabledAt = None\<rparr>"

definition w_seal :: seal_args where
  "w_seal = \<lparr>sa_organizationId = ''o'', sa_operationId = ''op'', sa_policyVersion = ''1'',
     sa_platosEndUserIds = [''u1''], sa_extraAliases = [], sa_salt = Some ''s'', sa_ttlDays = Some 1\<rparr>"

definition w_env :: salt_env where
  "w_env = \<lparr>env_PLATOS_ERASURE_HASH_SALT = None, env_NODE_ENV = None\<rparr>"

definition w_sealed :: register_db where
  "w_sealed = snd (sealErasedSubject id w_env NaN double_tombstones double_identities w_seal 0 ([], [w_identity]))"

definition w_handle :: subject_alias where
  "w_handle = \<lparr>al_channel = Some '' Slack'', al_subject = Some ''u08 ''\<rparr>"

lemma w_seal_ok: "sealErasedSubject id w_env NaN double_tombstones double_identities w_seal 0 ([], [w_identity])
    = (Inr \<lparr>sr_aliases = 2, sr_sealed = 2, sr_purged = 0\<rparr>, w_sealed)"
  by code_simp

lemma w_handles: "normalizeAlias (identity_alias w_identity) = normalizeAlias w_handle"
  "normalizeAlias w_handle = Some \<lparr>al_channel = Some ''slack'', al_subject = Some ''u08''\<rparr>"
  "seal_expiry NaN w_seal 0 = 86400000"
  by code_simp+


theorem barrier_exact_witness:
  "assertSubjectNotErased id w_env double_tombstones ''o'' [w_handle] None 5 ([], []) = Inr () \<and>
   barrier_hits (mset (fst (([], []) :: register_db))) ''o'' 5
     (handle_hashes id [w_handle] ''o'' ''platos-erasure-development-only'') = {}"
proof -
  have salt: "resolve_salt w_env None = Inr ''platos-erasure-development-only''" by code_simp
  have adm: "assertSubjectNotErased id w_env double_tombstones ''o'' [w_handle] None 5 ([], []) = Inr ()"
    by code_simp
  from barrier_exact [OF reg.tombstone_store_axioms salt refl, where s = "([], [])" and org = "''o''" and now = 5
      and hasher = id and as = "[w_handle]"] adm
  show ?thesis by simp
qed

end
