(* ===== verification/JsValue.thy ===== *)
theory JsValue
  imports Prelude
begin

text \<open>
  Values of the TypeScript type \<open>unknown\<close> where the code inspects them (JSON columns,
  tool arguments, JSON schemas): the constructors of a JavaScript value without
  functions, \<open>typeof\<close>, truthiness, property lookup and \<open>JSON.stringify\<close>. How a finite
  number is printed is a parameter \<open>ns\<close> of the printer.
\<close>

datatype jsval =
    JUndef
  | JNull
  | JBool bool
  | JNum jsnum
  | JStr string
  | JArr "jsval list"
  | JObj "(string \<times> jsval) list"

fun js_typeof :: "jsval \<Rightarrow> string" where
  "js_typeof JUndef = ''undefined''"
| "js_typeof JNull = ''object''"
| "js_typeof (JBool _) = ''boolean''"
| "js_typeof (JNum _) = ''number''"
| "js_typeof (JStr _) = ''string''"
| "js_typeof (JArr _) = ''object''"
| "js_typeof (JObj _) = ''object''"

fun js_truthy :: "jsval \<Rightarrow> bool" where
  "js_truthy JUndef = False"
| "js_truthy JNull = False"
| "js_truthy (JBool b) = b"
| "js_truthy (JNum x) = (case x of NaN \<Rightarrow> False | Fin q \<Rightarrow> q \<noteq> 0 | _ \<Rightarrow> True)"
| "js_truthy (JStr s) = (s \<noteq> [])"
| "js_truthy (JArr _) = True"
| "js_truthy (JObj _) = True"

text \<open>\<open>o[k]\<close> on an object: a missing key reads \<open>undefined\<close>.\<close>

definition js_get :: "(string \<times> jsval) list \<Rightarrow> string \<Rightarrow> jsval" where
  "js_get m k = (case map_of m k of None \<Rightarrow> JUndef | Some v \<Rightarrow> v)"

definition is_str :: "jsval \<Rightarrow> bool" where
  "is_str v = (case v of JStr _ \<Rightarrow> True | _ \<Rightarrow> False)"

definition str_of :: "jsval \<Rightarrow> string" where
  "str_of v = (case v of JStr s \<Rightarrow> s | _ \<Rightarrow> [])"

lemma js_get_hit [simp]: "map_of m k = Some v \<Longrightarrow> js_get m k = v"
  by (simp add: js_get_def)

lemma is_str_iff [simp]: "is_str v \<longleftrightarrow> (\<exists>s. v = JStr s)"
  by (auto simp: is_str_def split: jsval.splits)

lemma str_of_JStr [simp]: "str_of (JStr s) = s"
  by (simp add: str_of_def)

section \<open>JSON.stringify\<close>

definition hex_digit :: "nat \<Rightarrow> char" where
  "hex_digit d = (if d < 10 then char_of (48 + d) else char_of (87 + d))"

definition json_escape_char :: "char \<Rightarrow> string" where
  "json_escape_char c = (let n = of_char c :: nat in
     if n = 34 then [char_of (92::nat), char_of (34::nat)]
     else if n = 92 then [char_of (92::nat), char_of (92::nat)]
     else if n = 8 then char_of (92::nat) # ''b''
     else if n = 9 then char_of (92::nat) # ''t''
     else if n = 10 then char_of (92::nat) # ''n''
     else if n = 12 then char_of (92::nat) # ''f''
     else if n = 13 then char_of (92::nat) # ''r''
     else if n < 32 then char_of (92::nat) # ''u00'' @ [hex_digit (n div 16), hex_digit (n mod 16)]
     else [c])"

definition json_plain :: "char \<Rightarrow> bool" where
  "json_plain c = (let n = of_char c :: nat in 32 \<le> n \<and> n \<noteq> 34 \<and> n \<noteq> 92)"

definition json_quote :: "string \<Rightarrow> string" where
  "json_quote s = CHR 0x22 # concat (map json_escape_char s) @ [CHR 0x22]"

fun stringify :: "(rat \<Rightarrow> string) \<Rightarrow> jsval \<Rightarrow> string option"
  and stringify_items :: "(rat \<Rightarrow> string) \<Rightarrow> jsval list \<Rightarrow> string list"
  and stringify_fields :: "(rat \<Rightarrow> string) \<Rightarrow> (string \<times> jsval) list \<Rightarrow> string list" where
  "stringify ns JUndef = None"
| "stringify ns JNull = Some ''null''"
| "stringify ns (JBool b) = Some (if b then ''true'' else ''false'')"
| "stringify ns (JNum x) = Some (case x of Fin q \<Rightarrow> ns q | _ \<Rightarrow> ''null'')"
| "stringify ns (JStr s) = Some (json_quote s)"
| "stringify ns (JArr xs) = Some (''['' @ join '','' (stringify_items ns xs) @ '']'')"
| "stringify ns (JObj fs) = Some (''{'' @ join '','' (stringify_fields ns fs) @ ''}'')"
| "stringify_items ns [] = []"
| "stringify_items ns (x # xs) =
     (case stringify ns x of None \<Rightarrow> ''null'' | Some t \<Rightarrow> t) # stringify_items ns xs"
| "stringify_fields ns [] = []"
| "stringify_fields ns ((k, v) # fs) =
     (case stringify ns v of None \<Rightarrow> stringify_fields ns fs
      | Some t \<Rightarrow> (json_quote k @ '':'' @ t) # stringify_fields ns fs)"

lemma json_escape_plain: "json_plain c \<Longrightarrow> json_escape_char c = [c]"
  by (auto simp: json_plain_def json_escape_char_def Let_def)

lemma json_escape_plain_string: "list_all json_plain s \<Longrightarrow> concat (map json_escape_char s) = s"
  by (induction s) (auto simp: json_escape_plain)

text \<open>A plain substring of a string survives quoting.\<close>

lemma json_quote_includes:
  assumes "list_all json_plain n" "str_includes s n"
  shows "str_includes (json_quote s) n"
proof -
  from assms(2) obtain a b where s: "s = a @ n @ b" by (auto simp: includes_iff)
  have "json_quote s = (CHR 0x22 # concat (map json_escape_char a)) @ n
      @ (concat (map json_escape_char b) @ [CHR 0x22])"
    by (simp add: json_quote_def s json_escape_plain_string [OF assms(1)])
  then show ?thesis unfolding includes_iff by blast
qed

lemma join_includes: "x \<in> set xs \<Longrightarrow> str_includes x n \<Longrightarrow> str_includes (join sep xs) n"
  by (induction sep xs rule: join.induct)
    (auto intro: includes_append_left includes_append_right)

end
