(* ===== verification/ErasureReceipt.thy ===== *)
theory ErasureReceipt
  imports JsValue SubjectGraph
begin

text \<open>
  \<open>privacy/erasure-receipt.ts\<close>: the receipt of an erasure, the outcome of each store, the
  derivation of the operation status from the outcomes, what a retry re-runs, and the
  guard that keeps the subject's identifiers out of the receipt.
\<close>

datatype erasure_status =
    Pending | Running | BlockedLegalHold | PartialFailure | Completed | VerificationFailed

datatype store_name = Postgres | Redis | Clickhouse | Minio

datatype store_status = SPending | SRunning | SDone | SFailed | SNotProvisioned

datatype verification_status = VNotRun | VPending | VPassed | VFailed | VUnknown | VNotApplicable

record store_outcome =
  so_store :: store_name
  so_status :: store_status
  so_discovered :: int
  so_deleted :: int
  so_anonymized :: int
  so_retained :: int
  so_failures :: int
  so_verification :: verification_status
  so_note :: "string option"

record erasure_receipt =
  er_operationId :: string
  er_subjectKeyHash :: string
  er_requestedAt :: string
  er_startedAt :: "string option"
  er_completedAt :: "string option"
  er_status :: erasure_status
  er_scopes :: "subject_scope list"
  er_stores :: "store_outcome list"
  er_policyVersion :: string
  er_retryCount :: nat
  er_legalHoldPolicyId :: "string option"

definition REQUIRED_STORES :: "store_name list" where
  "REQUIRED_STORES = [Postgres, Redis, Clickhouse, Minio]"

definition isStoreSettled :: "store_outcome \<Rightarrow> bool" where
  "isStoreSettled o1 =
     (if so_status o1 = SNotProvisioned then True
      else so_status o1 = SDone \<and> so_verification o1 = VPassed)"

definition isUnproven :: "store_outcome \<Rightarrow> bool" where
  "isUnproven o1 \<longleftrightarrow> so_status o1 = SDone \<and>
     (so_verification o1 = VUnknown \<or> so_verification o1 = VPending \<or> so_verification o1 = VNotRun)"

definition deriveStatus :: "store_outcome list \<Rightarrow> bool \<Rightarrow> bool \<Rightarrow> erasure_status" where
  "deriveStatus stores legalHold started =
     (if legalHold then BlockedLegalHold
      else if \<not> started then Pending
      else let required = filter (\<lambda>s. List.member REQUIRED_STORES (so_store s)) stores in
        if length required < length REQUIRED_STORES then Running
        else if list_ex (\<lambda>s. so_verification s = VFailed) required then VerificationFailed
        else if list_ex (\<lambda>s. so_status s = SFailed \<or> so_failures s > 0) required then PartialFailure
        else if list_ex isUnproven required then PartialFailure
        else if list_ex (\<lambda>s. so_status s = SPending \<or> so_status s = SRunning) required then Running
        else if list_all isStoreSettled required then Completed
        else Running)"

definition canRetry :: "erasure_receipt \<Rightarrow> bool \<times> string option" where
  "canRetry r =
     (if er_status r = BlockedLegalHold
        then (False, Some ''legal hold in force; retry blocked until released'')
      else if er_status r = Completed
        then (False, Some ''already completed; retry would be a no-op'')
      else (True, None))"

definition by_store :: "store_outcome list \<Rightarrow> (store_name \<times> store_outcome) list" where
  "by_store ss = fold (\<lambda>s m. AList.update (so_store s) s m) ss []"

definition storesNeedingRetry :: "erasure_receipt \<Rightarrow> store_name list" where
  "storesNeedingRetry r =
     filter (\<lambda>n. case map_of (by_store (er_stores r)) n of None \<Rightarrow> True
                 | Some o1 \<Rightarrow> \<not> isStoreSettled o1) REQUIRED_STORES"

definition pendingStore :: "store_name \<Rightarrow> store_outcome" where
  "pendingStore store = \<lparr>so_store = store, so_status = SPending, so_discovered = 0,
     so_deleted = 0, so_anonymized = 0, so_retained = 0, so_failures = 0,
     so_verification = VNotRun, so_note = None\<rparr>"

definition or_empty :: "string option \<Rightarrow> string" where
  "or_empty x = (case x of None \<Rightarrow> [] | Some s \<Rightarrow> s)"

definition receipt_blob :: "erasure_receipt \<Rightarrow> string" where
  "receipt_blob r = (case stringify (\<lambda>_. []) (JObj
      [(''stores'', JArr (map (\<lambda>s. JStr (or_empty (so_note s))) (er_stores r))),
       (''hash'', JStr (er_subjectKeyHash r)),
       (''hold'', JStr (or_empty (er_legalHoldPolicyId r)))]) of
      None \<Rightarrow> [] | Some b \<Rightarrow> b)"

text \<open>\<open>assertContentFree\<close> throws (\<open>Inl\<close>, with the operation named) on the first
  needle found in the serialised receipt.\<close>

definition assertContentFree :: "erasure_receipt \<Rightarrow> string list \<Rightarrow> string + unit" where
  "assertContentFree r forbidden =
     (if list_ex (\<lambda>needle. needle \<noteq> [] \<and> str_includes (receipt_blob r) needle) forbidden
      then Inl (''erasure receipt '' @ er_operationId r @
             '' would leak a subject identifier; refusing to persist'')
      else Inr ())"

section \<open>Lemmas\<close>

lemma required_all: "List.member REQUIRED_STORES s"
  by (cases s) (simp_all add: REQUIRED_STORES_def List.member_iff)

lemma length_required [simp]: "length REQUIRED_STORES = 4"
  by (simp add: REQUIRED_STORES_def)

lemma set_required [simp]: "set REQUIRED_STORES = UNIV"
  using required_all by auto

text \<open>What a reassuring status costs: \<open>completed\<close> exactly when every store settled with
  no failure recorded and no failed verification.\<close>

lemma deriveStatus_completed_iff:
  "deriveStatus stores legalHold started = Completed \<longleftrightarrow>
     \<not> legalHold \<and> started \<and> 4 \<le> length stores \<and>
     (\<forall>s \<in> set stores. isStoreSettled s \<and> so_failures s \<le> 0 \<and> so_verification s \<noteq> VFailed)"
  by (auto simp: deriveStatus_def Let_def list_ex_iff list_all_iff isStoreSettled_def isUnproven_def
      split: if_splits) (force simp: not_le)+

lemma deriveStatus_verification_failed_iff:
  "deriveStatus stores legalHold started = VerificationFailed \<longleftrightarrow>
     \<not> legalHold \<and> started \<and> 4 \<le> length stores \<and> (\<exists>s \<in> set stores. so_verification s = VFailed)"
  by (auto simp: deriveStatus_def Let_def list_ex_iff)

lemma deriveStatus_never_blocked: "deriveStatus stores False True \<noteq> BlockedLegalHold"
  by (simp add: deriveStatus_def Let_def)

lemma deriveStatus_never_pending: "deriveStatus stores False True \<noteq> Pending"
  by (simp add: deriveStatus_def Let_def)

lemma settled_pending [simp]: "\<not> isStoreSettled (pendingStore n)"
  by (simp add: isStoreSettled_def pendingStore_def)

lemma pendingStore_sel [simp]:
  "so_store (pendingStore n) = n" "so_status (pendingStore n) = SPending"
  "so_verification (pendingStore n) = VNotRun" "so_failures (pendingStore n) = 0"
  "so_note (pendingStore n) = None"
  by (simp_all add: pendingStore_def)

lemma map_of_by_store: "map_of (by_store ss) n = find (\<lambda>s. so_store s = n) (rev ss)"
proof -
  have "map_of (fold (\<lambda>s m. AList.update (so_store s) s m) ss acc) n =
      (case find (\<lambda>s. so_store s = n) (rev ss) of None \<Rightarrow> map_of acc n | Some s \<Rightarrow> Some s)" for acc
  proof (induction ss arbitrary: acc)
    case (Cons s ss)
    then show ?case by (auto simp: find_snoc split: option.splits)
  qed simp
  then show ?thesis by (simp add: by_store_def split: option.splits)
qed

lemma storesNeedingRetry_iff:
  "n \<in> set (storesNeedingRetry r) \<longleftrightarrow>
     (\<forall>o1. map_of (by_store (er_stores r)) n = Some o1 \<longrightarrow> \<not> isStoreSettled o1)"
  by (auto simp: storesNeedingRetry_def split: option.splits)

lemma receipt_blob_note:
  assumes "s \<in> set (er_stores r)" "so_note s = Some note" "list_all json_plain n" "str_includes note n"
  shows "str_includes (receipt_blob r) n"
proof -
  let ?vs = "map (\<lambda>s. JStr (or_empty (so_note s))) (er_stores r)"
  have items: "stringify_items ns (map (\<lambda>s. JStr (f s)) xs) = map (\<lambda>s. json_quote (f s)) xs"
    for ns and f :: "'b \<Rightarrow> string" and xs
    by (induction xs) auto
  have "json_quote note \<in> set (stringify_items (\<lambda>_. []) ?vs)"
    using assms(1,2) by (auto simp: items or_empty_def image_iff intro!: bexI [of _ s])
  then have "str_includes (join '','' (stringify_items (\<lambda>_. []) ?vs)) n"
    by (rule join_includes) (rule json_quote_includes [OF assms(3,4)])
  then have "str_includes (''{'' @ json_quote ''stores'' @ '':['' @
      join '','' (stringify_items (\<lambda>_. []) ?vs) @ rest) n" for rest
    by (intro includes_append_left includes_append_right)
  moreover have "\<exists>rest. receipt_blob r = ''{'' @ json_quote ''stores'' @ '':['' @
      join '','' (stringify_items (\<lambda>_. []) ?vs) @ rest"
    by (simp add: receipt_blob_def)
  ultimately show ?thesis by metis
qed

lemma receipt_blob_split:
  "\<exists>a b. receipt_blob r = a @ json_quote (er_subjectKeyHash r) @ b"
  "\<exists>a b. receipt_blob r = a @ json_quote (or_empty (er_legalHoldPolicyId r)) @ b"
proof -
  let ?s = "''{'' @ json_quote ''stores'' @ '':['' @ join '','' (stringify_items (\<lambda>_. [])
    (map (\<lambda>s. JStr (or_empty (so_note s))) (er_stores r))) @ '']'' @ '','' @ json_quote ''hash'' @ '':''"
  let ?h = "'','' @ json_quote ''hold'' @ '':''"
  have "receipt_blob r = ?s @ json_quote (er_subjectKeyHash r) @
      (?h @ json_quote (or_empty (er_legalHoldPolicyId r)) @ ''}'')"
    and "receipt_blob r = (?s @ json_quote (er_subjectKeyHash r) @ ?h) @
      json_quote (or_empty (er_legalHoldPolicyId r)) @ ''}''"
    by (simp_all add: receipt_blob_def)
  then show "\<exists>a b. receipt_blob r = a @ json_quote (er_subjectKeyHash r) @ b"
    and "\<exists>a b. receipt_blob r = a @ json_quote (or_empty (er_legalHoldPolicyId r)) @ b"
    by blast+
qed

lemma receipt_blob_hash:
  assumes "list_all json_plain n" "str_includes (er_subjectKeyHash r) n"
  shows "str_includes (receipt_blob r) n"
  using receipt_blob_split(1) [of r] json_quote_includes [OF assms]
  by (auto intro: includes_mid)

lemma receipt_blob_hold:
  assumes "list_all json_plain n" "er_legalHoldPolicyId r = Some h" "str_includes h n"
  shows "str_includes (receipt_blob r) n"
  using receipt_blob_split(2) [of r] json_quote_includes [OF assms(1,3)] assms(2)
  by (auto simp: or_empty_def intro: includes_mid)

section \<open>Properties\<close>

text \<open>
  The receipt guard catches a leaked identifier. If a forbidden identifier written
  in characters that JSON does not escape occurs in the note of any store outcome, in the
  subject hash or in the hold reference, \<open>assertContentFree\<close> refuses to persist the
  receipt.
\<close>

lemma assertContentFree_catches:
  assumes "needle \<in> set forbidden" "needle \<noteq> []" "list_all json_plain needle"
    and "(\<exists>s \<in> set (er_stores r). \<exists>nt. so_note s = Some nt \<and> str_includes nt needle) \<or>
      str_includes (er_subjectKeyHash r) needle \<or>
      (\<exists>hold. er_legalHoldPolicyId r = Some hold \<and> str_includes hold needle)"
  shows "\<exists>msg. assertContentFree r forbidden = Inl msg"
proof -
  have "str_includes (receipt_blob r) needle"
    using assms(4)
  proof (elim disjE bexE exE conjE)
    fix s nt assume "s \<in> set (er_stores r)" "so_note s = Some nt" "str_includes nt needle"
    then show ?thesis using receipt_blob_note assms(3) by blast
  next
    assume "str_includes (er_subjectKeyHash r) needle"
    then show ?thesis by (rule receipt_blob_hash [OF assms(3)])
  next
    fix hold assume "er_legalHoldPolicyId r = Some hold" "str_includes hold needle"
    then show ?thesis by (rule receipt_blob_hold [OF assms(3)])
  qed
  with assms(1,2) show ?thesis by (auto simp: assertContentFree_def list_ex_iff)
qed

text \<open>The guard looks for the raw identifier in serialised text, so an identifier with a
  character that JSON escapes is not found: a note that is the identifier itself passes.\<close>

definition leak_receipt :: erasure_receipt where
  "leak_receipt = \<lparr>er_operationId = ''op'', er_subjectKeyHash = ''h'', er_requestedAt = ''t0'',
     er_startedAt = None, er_completedAt = None, er_status = Pending, er_scopes = [],
     er_stores = [(pendingStore Redis)\<lparr>so_note := Some (''a'' @ [CHR 0x22] @ ''b'')\<rparr>],
     er_policyVersion = ''1'', er_retryCount = 0, er_legalHoldPolicyId = None\<rparr>"

lemma assertContentFree_misses_escaped:
  "assertContentFree leak_receipt [''a'' @ [CHR 0x22] @ ''b''] = Inr ()"
  by code_simp

end
