(* ===== verification/ErasureQueue.thy ===== *)
theory ErasureQueue
  imports ErasureReceipt
begin

text \<open>
  \<open>privacy/erasure-queue.ts\<close>: the state that makes an unsettled erasure resumable.
  Retry budget and backoff, leases, the persisted resume plan and its reader, and the two
  rules that keep a weaker pass from overwriting stronger evidence. A \<open>Date\<close> is its
  number of milliseconds (\<^typ>\<open>int\<close>). \<open>maxRetries\<close> takes the value \<open>Number(...)\<close> has of
  the environment variable; \<open>toNumber\<close> is the conversion \<open>Number(v)\<close> of an arbitrary
  value.
\<close>

definition DEFAULT_MAX_RETRIES :: int where "DEFAULT_MAX_RETRIES = 8"
definition BASE_BACKOFF_MS :: int where "BASE_BACKOFF_MS = 60000"
definition MAX_BACKOFF_MS :: int where "MAX_BACKOFF_MS = 6 * 60 * 60 * 1000"
definition LEASE_TTL_MS :: int where "LEASE_TTL_MS = 15 * 60 * 1000"

datatype resume_coverage = Full | LocatorsOnly

definition STORES_KEYED_BY_LEGACY_ID :: "store_name list" where
  "STORES_KEYED_BY_LEGACY_ID = [Postgres, Redis, Clickhouse]"

record erasure_resume_plan =
  rp_platosEndUserIds :: "string list"
  rp_threadIds :: "string list"
  rp_scopes :: "subject_scope list"
  rp_attachmentObjects :: jsnum

definition maxRetries :: "jsnum \<Rightarrow> int" where
  "maxRetries raw =
     (if \<not> is_finite raw \<or> fin_val raw < 1 then DEFAULT_MAX_RETRIES else \<lfloor>fin_val raw\<rfloor>)"

definition backoffMs :: "nat \<Rightarrow> int" where
  "backoffMs retryCount =
     (let exponent = nat (max 0 (int retryCount - 1));
          scaled = BASE_BACKOFF_MS * 2 ^ min exponent 32
      in min scaled MAX_BACKOFF_MS)"

definition isExhausted :: "jsnum \<Rightarrow> nat \<Rightarrow> bool" where
  "isExhausted raw retryCount \<longleftrightarrow> int retryCount \<ge> maxRetries raw"

datatype schedule_reason = Settled | Blocked | Exhausted | Scheduled

definition scheduleAfterRetry ::
    "jsnum \<Rightarrow> erasure_receipt \<Rightarrow> int \<Rightarrow> int option \<times> schedule_reason" where
  "scheduleAfterRetry raw receipt now =
     (if er_status receipt = Completed then (None, Settled)
      else if er_status receipt = BlockedLegalHold then (None, Blocked)
      else if isExhausted raw (er_retryCount receipt) then (None, Exhausted)
      else (Some (now + backoffMs (er_retryCount receipt)), Scheduled))"

definition leaseUntil :: "int \<Rightarrow> int" where
  "leaseUntil now = now + LEASE_TTL_MS"

definition isLeaseFree :: "int option \<Rightarrow> int \<Rightarrow> bool" where
  "isLeaseFree leaseExpiresAt now = (case leaseExpiresAt of None \<Rightarrow> True | Some t \<Rightarrow> t \<le> now)"

section \<open>The resume plan\<close>

definition rat_trunc :: "rat \<Rightarrow> int" where
  "rat_trunc q = (if q \<ge> 0 then \<lfloor>q\<rfloor> else \<lceil>q\<rceil>)"

text \<open>\<open>Math.max(0, Math.trunc(x) || 0)\<close>\<close>

definition clamp_count :: "jsnum \<Rightarrow> jsnum" where
  "clamp_count x = (case x of Fin q \<Rightarrow> Fin (of_int (max 0 (rat_trunc q)))
     | PInf \<Rightarrow> PInf | NInf \<Rightarrow> Fin 0 | NaN \<Rightarrow> Fin 0)"

definition buildResumePlan :: "subject_keys \<Rightarrow> string list \<Rightarrow> jsnum \<Rightarrow> erasure_resume_plan" where
  "buildResumePlan subject threadIds attachmentObjects =
     \<lparr>rp_platosEndUserIds = platosEndUserIds subject,
      rp_threadIds = sort (nub (filter (\<lambda>t. t \<noteq> []) threadIds)),
      rp_scopes = scopes subject,
      rp_attachmentObjects = clamp_count attachmentObjects\<rparr>"

definition stringArray :: "jsval \<Rightarrow> string list" where
  "stringArray v = (case v of JArr xs \<Rightarrow> map str_of (filter (\<lambda>x. is_str x \<and> js_truthy x) xs) | _ \<Rightarrow> [])"

definition scope_guard :: "jsval \<Rightarrow> bool" where
  "scope_guard v = (case v of JObj m \<Rightarrow>
       is_str (js_get m ''organizationId'') \<and> is_str (js_get m ''projectId'') \<and>
       is_str (js_get m ''environmentId'') | _ \<Rightarrow> False)"

definition scope_of :: "jsval \<Rightarrow> subject_scope" where
  "scope_of v = (case v of JObj m \<Rightarrow>
       \<lparr>organizationId = str_of (js_get m ''organizationId''),
        projectId = str_of (js_get m ''projectId''),
        environmentId = str_of (js_get m ''environmentId'')\<rparr>
     | _ \<Rightarrow> \<lparr>organizationId = [], projectId = [], environmentId = []\<rparr>)"

definition resumePlanFrom :: "(jsval \<Rightarrow> jsnum) \<Rightarrow> jsval \<Rightarrow> erasure_resume_plan option" where
  "resumePlanFrom toNumber value = (case value of
     JObj raw \<Rightarrow>
       (if js_get raw ''version'' \<noteq> JNum (Fin 1) then None
        else let attachments = toNumber (js_get raw ''attachmentObjects'') in
          Some \<lparr>rp_platosEndUserIds = stringArray (js_get raw ''platosEndUserIds''),
             rp_threadIds = stringArray (js_get raw ''threadIds''),
             rp_scopes = (case js_get raw ''scopes'' of
                 JArr ss \<Rightarrow> map scope_of (filter scope_guard ss) | _ \<Rightarrow> []),
             rp_attachmentObjects =
               (if is_finite attachments then Fin (of_int (max 0 (rat_trunc (fin_val attachments))))
                else Fin 0)\<rparr>)
   | _ \<Rightarrow> None)"

definition subjectFromResumePlan :: "erasure_resume_plan \<Rightarrow> subject_keys" where
  "subjectFromResumePlan plan =
     \<lparr>platosEndUserIds = rp_platosEndUserIds plan, legacyUserIds = [], scopes = rp_scopes plan\<rparr>"

section \<open>Evidence rules\<close>

definition appendNote :: "string option \<Rightarrow> string \<Rightarrow> string" where
  "appendNote existing addition = (case existing of None \<Rightarrow> addition
     | Some e \<Rightarrow> if e = [] then addition else e @ ''; '' @ addition)"

definition demoteForCoverage :: "store_outcome \<Rightarrow> resume_coverage \<Rightarrow> store_outcome" where
  "demoteForCoverage outcome coverage =
     (if coverage = Full then outcome
      else if \<not> List.member STORES_KEYED_BY_LEGACY_ID (so_store outcome) then outcome
      else if so_verification outcome \<noteq> VPassed then outcome
      else outcome\<lparr>so_verification := VUnknown, so_note := Some (appendNote (so_note outcome)
        ''resumed without the subject id; rows keyed by the legacy id were not addressed'')\<rparr>)"

definition preserveVerificationFailure ::
    "store_outcome option \<Rightarrow> store_outcome \<Rightarrow> store_outcome" where
  "preserveVerificationFailure previous next1 =
     (if map_option so_verification previous \<noteq> Some VFailed then next1
      else if so_verification next1 = VFailed \<or> so_verification next1 = VPassed then next1
      else next1\<lparr>so_verification := VFailed, so_note := Some (appendNote (so_note next1)
        ''earlier verification failure not refuted by this pass'')\<rparr>)"

definition objectMapLost :: "erasure_resume_plan option \<Rightarrow> int \<Rightarrow> bool" where
  "objectMapLost plan discoveredNow = (case plan of None \<Rightarrow> False
     | Some p \<Rightarrow> (case rp_attachmentObjects p of Fin q \<Rightarrow> q > 0 | PInf \<Rightarrow> True | _ \<Rightarrow> False)
         \<and> discoveredNow = 0)"

section \<open>Lemmas\<close>

lemma legacy_keyed_iff [simp]: "set STORES_KEYED_BY_LEGACY_ID = {Postgres, Redis, Clickhouse}"
  by (auto simp: STORES_KEYED_BY_LEGACY_ID_def)

lemma demote_store [simp]: "so_store (demoteForCoverage o1 c) = so_store o1"
  by (simp add: demoteForCoverage_def)

lemma demote_status [simp]: "so_status (demoteForCoverage o1 c) = so_status o1"
  by (simp add: demoteForCoverage_def)

lemma demote_failures [simp]: "so_failures (demoteForCoverage o1 c) = so_failures o1"
  by (simp add: demoteForCoverage_def)

lemma demote_Full [simp]: "demoteForCoverage o1 Full = o1"
  by (simp add: demoteForCoverage_def)

lemma demote_passed_iff: "so_verification (demoteForCoverage o1 c) = VPassed \<longleftrightarrow>
    so_verification o1 = VPassed \<and> (c = Full \<or> so_store o1 = Minio)"
  by (cases c; cases "so_store o1") (auto simp: demoteForCoverage_def)

lemma demote_failed_iff [simp]: "so_verification (demoteForCoverage o1 c) = VFailed \<longleftrightarrow>
    so_verification o1 = VFailed"
  by (auto simp: demoteForCoverage_def)

lemma preserve_store [simp]: "so_store (preserveVerificationFailure p o1) = so_store o1"
  by (simp add: preserveVerificationFailure_def)

lemma preserve_status [simp]: "so_status (preserveVerificationFailure p o1) = so_status o1"
  by (simp add: preserveVerificationFailure_def)

lemma preserve_failures [simp]: "so_failures (preserveVerificationFailure p o1) = so_failures o1"
  by (simp add: preserveVerificationFailure_def)

lemma preserve_passed_iff [simp]:
  "so_verification (preserveVerificationFailure p o1) = VPassed \<longleftrightarrow> so_verification o1 = VPassed"
  by (auto simp: preserveVerificationFailure_def)

lemma preserve_failed: "map_option so_verification p = Some VFailed \<Longrightarrow> so_verification o1 \<noteq> VPassed \<Longrightarrow>
    so_verification (preserveVerificationFailure p o1) = VFailed"
  by (auto simp: preserveVerificationFailure_def)

lemma preserve_keeps_failed: "so_verification o1 = VFailed \<Longrightarrow>
    so_verification (preserveVerificationFailure p o1) = VFailed"
  by (auto simp: preserveVerificationFailure_def)

lemma backoff_bounds: "BASE_BACKOFF_MS \<le> backoffMs n \<and> backoffMs n \<le> MAX_BACKOFF_MS"
proof -
  have "(1::int) \<le> 2 ^ k" for k by simp
  then show ?thesis by (auto simp: backoffMs_def Let_def BASE_BACKOFF_MS_def MAX_BACKOFF_MS_def min_def)
qed

lemma backoff_mono: "m \<le> n \<Longrightarrow> backoffMs m \<le> backoffMs n"
proof -
  assume "m \<le> n"
  then have "min (nat (max 0 (int m - 1))) 32 \<le> min (nat (max 0 (int n - 1))) 32" by auto
  then have "(2::int) ^ min (nat (max 0 (int m - 1))) 32 \<le> 2 ^ min (nat (max 0 (int n - 1))) 32"
    by (rule power_increasing) simp
  then have "BASE_BACKOFF_MS * 2 ^ min (nat (max 0 (int m - 1))) 32 \<le>
      BASE_BACKOFF_MS * 2 ^ min (nat (max 0 (int n - 1))) 32"
    by (rule mult_left_mono) (simp add: BASE_BACKOFF_MS_def)
  then show ?thesis unfolding backoffMs_def Let_def by (rule min.mono) simp
qed

lemma maxRetries_pos: "1 \<le> maxRetries raw"
  by (simp add: maxRetries_def DEFAULT_MAX_RETRIES_def)

text \<open>The JSON the plan is stored as, field by field.\<close>

definition scope_json :: "subject_scope \<Rightarrow> jsval" where
  "scope_json s = JObj [(''organizationId'', JStr (organizationId s)),
     (''projectId'', JStr (projectId s)), (''environmentId'', JStr (environmentId s))]"

definition plan_json :: "erasure_resume_plan \<Rightarrow> jsval" where
  "plan_json p = JObj [(''version'', JNum (Fin 1)),
     (''platosEndUserIds'', JArr (map JStr (rp_platosEndUserIds p))),
     (''threadIds'', JArr (map JStr (rp_threadIds p))),
     (''scopes'', JArr (map scope_json (rp_scopes p))),
     (''attachmentObjects'', JNum (rp_attachmentObjects p))]"

lemma stringArray_strings: "[] \<notin> set xs \<Longrightarrow> stringArray (JArr (map JStr xs)) = xs"
  by (induction xs) (auto simp: stringArray_def)

lemma scope_json_roundtrip: "scope_guard (scope_json s) \<and> scope_of (scope_json s) = s"
  by (simp add: scope_guard_def scope_of_def scope_json_def js_get_def)

lemma scopes_json_roundtrip: "map scope_of (filter scope_guard (map scope_json ss)) = ss"
  by (induction ss) (auto simp: scope_json_roundtrip)

lemma clamp_count_fixpoint:
  assumes "is_finite (clamp_count x)"
  shows "Fin (of_int (max 0 (rat_trunc (fin_val (clamp_count x))))) = clamp_count x"
proof (cases x)
  case (Fin q)
  have "rat_trunc (of_int (max 0 n)) = max 0 n" for n :: int by (simp add: rat_trunc_def)
  then show ?thesis by (simp add: Fin clamp_count_def fin_val_def)
qed (use assms in \<open>auto simp: clamp_count_def fin_val_def is_finite_def rat_trunc_def\<close>)

lemma resumePlanFrom_plan_json:
  assumes "\<And>x. toNumber (JNum x) = x" "[] \<notin> set (rp_platosEndUserIds p)" "[] \<notin> set (rp_threadIds p)"
    and "rp_attachmentObjects p = clamp_count n" "is_finite (clamp_count n)"
  shows "resumePlanFrom toNumber (plan_json p) = Some p"
  using assms clamp_count_fixpoint [of n]
  by (simp add: resumePlanFrom_def plan_json_def js_get_def Let_def stringArray_strings
      scopes_json_roundtrip)

lemma backoff_step: "1 \<le> n \<Longrightarrow> backoffMs (Suc n) = min (2 * backoffMs n) MAX_BACKOFF_MS"
proof -
  assume n: "1 \<le> n"
  have e: "nat (max 0 (int (Suc n) - 1)) = n" "nat (max 0 (int n - 1)) = n - 1" using n by auto
  have big: "MAX_BACKOFF_MS \<le> BASE_BACKOFF_MS * 2 ^ 32"
    by (simp add: MAX_BACKOFF_MS_def BASE_BACKOFF_MS_def)
  show ?thesis
  proof (cases "n \<le> 32")
    case True
    then have "(2::int) ^ min n 32 = 2 * 2 ^ min (n - 1) 32" using n
      by (metis One_nat_def Suc_pred less_eq_Suc_le min.absorb1 min.coboundedI1 diff_le_self
          le_trans power_Suc)
    then show ?thesis
      by (simp add: backoffMs_def Let_def e BASE_BACKOFF_MS_def MAX_BACKOFF_MS_def min_def)
  next
    case False
    then have "min n 32 = 32" "min (n - 1) 32 = 32" by auto
    with big show ?thesis
      by (simp add: backoffMs_def Let_def e min_def MAX_BACKOFF_MS_def)
  qed
qed

section \<open>Properties\<close>

text \<open>
  The retry schedule. An operation is scheduled exactly when it is neither completed
  nor blocked by a hold and its pass count is below the budget; the next pass then lies
  between one minute and six hours ahead, the delay starts at one minute and doubles with
  each pass up to the ceiling.
\<close>

lemma retry_schedule:
  "(fst (scheduleAfterRetry raw r now) \<noteq> None \<longleftrightarrow>
      er_status r \<noteq> Completed \<and> er_status r \<noteq> BlockedLegalHold \<and> int (er_retryCount r) < maxRetries raw) \<and>
   (\<forall>t. fst (scheduleAfterRetry raw r now) = Some t \<longrightarrow> now + 60000 \<le> t \<and> t \<le> now + 21600000) \<and>
   backoffMs 1 = 60000 \<and>
   (1 \<le> n \<longrightarrow> backoffMs (Suc n) = min (2 * backoffMs n) 21600000)"
proof -
  have b: "60000 \<le> backoffMs k \<and> backoffMs k \<le> 21600000" for k
    using backoff_bounds [of k] by (simp add: BASE_BACKOFF_MS_def MAX_BACKOFF_MS_def)
  have one: "backoffMs 1 = 60000"
    by (simp add: backoffMs_def BASE_BACKOFF_MS_def MAX_BACKOFF_MS_def)
  have st: "1 \<le> n \<longrightarrow> backoffMs (Suc n) = min (2 * backoffMs n) 21600000"
    using backoff_step [of n] by (simp add: MAX_BACKOFF_MS_def)
  have iff: "fst (scheduleAfterRetry raw r now) \<noteq> None \<longleftrightarrow>
      er_status r \<noteq> Completed \<and> er_status r \<noteq> BlockedLegalHold \<and> int (er_retryCount r) < maxRetries raw"
    by (auto simp: scheduleAfterRetry_def isExhausted_def)
  have "fst (scheduleAfterRetry raw r now) = Some t \<Longrightarrow> t = now + backoffMs (er_retryCount r)" for t
    by (auto simp: scheduleAfterRetry_def split: if_splits)
  with b [of "er_retryCount r"] iff one st show ?thesis by auto
qed

text \<open>
  C19: The resume plan survives its JSON column. Reading back the stored form of a plan
  built for a subject without blank ids gives the plan itself, and the subject it
  addresses has the end-user ids and scopes of the original and no legacy id.
\<close>

theorem resume_plan_roundtrip:
  assumes "\<And>x. toNumber (JNum x) = x" "[] \<notin> set (platosEndUserIds subject)" "is_finite n"
  shows "resumePlanFrom toNumber (plan_json (buildResumePlan subject threads n)) =
      Some (buildResumePlan subject threads n) \<and>
    subjectFromResumePlan (buildResumePlan subject threads n) = subject\<lparr>legacyUserIds := []\<rparr>"
proof
  have fin: "is_finite (clamp_count n)"
    using assms(3) by (cases n) (simp_all add: is_finite_def clamp_count_def)
  show "resumePlanFrom toNumber (plan_json (buildResumePlan subject threads n)) =
      Some (buildResumePlan subject threads n)"
    by (rule resumePlanFrom_plan_json [OF assms(1) _ _ _ fin])
      (use assms(2) in \<open>auto simp: buildResumePlan_def\<close>)
  show "subjectFromResumePlan (buildResumePlan subject threads n) = subject\<lparr>legacyUserIds := []\<rparr>"
    by (simp add: subjectFromResumePlan_def buildResumePlan_def)
qed

section \<open>Witnesses\<close>

theorem resume_plan_roundtrip_witness:
  "resumePlanFrom (\<lambda>v. case v of JNum x \<Rightarrow> x | _ \<Rightarrow> NaN) (plan_json (buildResumePlan
     \<lparr>platosEndUserIds = [''u''], legacyUserIds = [''x''], scopes = []\<rparr> [''t2'', ''t1'', ''t2''] (Fin 3))) =
   Some (buildResumePlan \<lparr>platosEndUserIds = [''u''], legacyUserIds = [''x''], scopes = []\<rparr>
     [''t2'', ''t1'', ''t2''] (Fin 3))"
  by (rule conjunct1 [OF resume_plan_roundtrip]) (simp_all add: is_finite_def)

end
