(* ===== verification/ErasureOrchestrator.thy ===== *)
theory ErasureOrchestrator
  imports ErasureQueue
begin

text \<open>
  \<open>privacy/erasure-orchestrator.ts\<close>: one destructive pass over the stores, and a retry of
  the stores that did not settle. The store executors are injected, as in the source: an
  executor acts on the outside world \<open>'w\<close> and either returns an outcome or throws, with
  the name of the thrown error. \<open>clock k\<close> is the \<open>k\<close>-th reading of \<open>now()\<close>.
\<close>

datatype exec_result = Returned store_outcome | Threw string

type_synonym 'w executor = "subject_keys \<Rightarrow> 'w \<Rightarrow> exec_result \<times> 'w"

type_synonym 'w executors = "store_name \<Rightarrow> 'w executor option"

definition EXECUTION_ORDER :: "store_name list" where
  "EXECUTION_ORDER = [Minio, Redis, Clickhouse, Postgres]"

record run_options =
  ro_only :: "store_name list option"
  ro_legalHold :: "string option"
  ro_coverage :: "resume_coverage option"
  ro_clock :: "nat \<Rightarrow> string"

definition crashedOutcome :: "store_name \<Rightarrow> string \<Rightarrow> store_outcome" where
  "crashedOutcome store name = (pendingStore store)\<lparr>so_status := SFailed, so_failures := 1,
     so_verification := VUnknown, so_note := Some (''executor threw ('' @ name @ '')'')\<rparr>"

definition missingExecutor :: "store_name \<Rightarrow> store_outcome" where
  "missingExecutor store = (pendingStore store)\<lparr>so_status := SFailed, so_failures := 1,
     so_verification := VUnknown, so_note := Some ''no executor configured for this store''\<rparr>"

type_synonym outcome_map = "(store_name \<times> store_outcome) list"

definition run_store :: "subject_keys \<Rightarrow> 'w executors \<Rightarrow> store_name list \<Rightarrow> resume_coverage \<Rightarrow>
    store_name \<Rightarrow> outcome_map \<times> 'w \<Rightarrow> outcome_map \<times> 'w" where
  "run_store subject executors targets coverage store st = (case st of (byStore, w) \<Rightarrow>
     if \<not> List.member targets store then (byStore, w)
     else (case executors store of
         None \<Rightarrow> (AList.update store (missingExecutor store) byStore, w)
       | Some exec \<Rightarrow>
           (let previous = map_of byStore store in
            case exec subject w of
              (Returned outcome, w') \<Rightarrow>
                (AList.update store (preserveVerificationFailure previous
                   (demoteForCoverage outcome coverage)) byStore, w')
            | (Threw err, w') \<Rightarrow>
                (AList.update store (preserveVerificationFailure previous
                   (crashedOutcome store err)) byStore, w'))))"

definition receipt_stores :: "outcome_map \<Rightarrow> store_outcome list" where
  "receipt_stores byStore =
     map (\<lambda>s. case map_of byStore s of None \<Rightarrow> pendingStore s | Some o1 \<Rightarrow> o1) EXECUTION_ORDER"

definition runErasure :: "erasure_receipt \<Rightarrow> subject_keys \<Rightarrow> 'w executors \<Rightarrow> run_options \<Rightarrow> 'w \<Rightarrow>
    erasure_receipt \<times> 'w" where
  "runErasure receipt subject executors opts w =
     (case ro_legalHold opts of
        Some policyId \<Rightarrow>
          (receipt\<lparr>er_status := BlockedLegalHold, er_legalHoldPolicyId := Some policyId,
             er_retryCount := er_retryCount receipt + 1\<rparr>, w)
      | None \<Rightarrow>
          (let startedAt = (case er_startedAt receipt of Some t \<Rightarrow> t | None \<Rightarrow> ro_clock opts 0) in
           if isEmptySubject subject then
             (receipt\<lparr>er_status := VerificationFailed, er_startedAt := Some startedAt,
                er_retryCount := er_retryCount receipt + 1,
                er_stores := (if er_stores receipt \<noteq> [] then er_stores receipt
                              else map pendingStore EXECUTION_ORDER)\<rparr>, w)
           else
             (let targets = (case ro_only opts of Some o1 \<Rightarrow> o1 | None \<Rightarrow> EXECUTION_ORDER);
                  coverage = (case ro_coverage opts of Some c \<Rightarrow> c | None \<Rightarrow> Full);
                  (byStore, w') = fold (run_store subject executors targets coverage)
                    EXECUTION_ORDER (by_store (er_stores receipt), w);
                  stores = receipt_stores byStore;
                  status = deriveStatus stores False True;
                  calls = (case er_startedAt receipt of Some _ \<Rightarrow> 0 | None \<Rightarrow> 1)
              in (receipt\<lparr>er_stores := stores, er_status := status, er_startedAt := Some startedAt,
                    er_completedAt := (if status = Completed then Some (ro_clock opts calls)
                                       else er_completedAt receipt),
                    er_retryCount := er_retryCount receipt + 1\<rparr>, w'))))"

definition retryErasure :: "erasure_receipt \<Rightarrow> subject_keys \<Rightarrow> 'w executors \<Rightarrow> run_options \<Rightarrow> 'w \<Rightarrow>
    erasure_receipt \<times> 'w" where
  "retryErasure receipt subject executors opts w =
     (let only = storesNeedingRetry receipt in
      if only = [] then (receipt, w)
      else runErasure receipt subject executors (opts\<lparr>ro_only := Some only\<rparr>) w)"

section \<open>One store\<close>

text \<open>What a pass leaves recorded for a store it targets, as a function of what the
  executor did.\<close>

definition pass_outcome :: "resume_coverage \<Rightarrow> store_outcome option \<Rightarrow> store_name \<Rightarrow>
    exec_result option \<Rightarrow> store_outcome" where
  "pass_outcome c prev n r = (case r of
     None \<Rightarrow> missingExecutor n
   | Some (Returned o1) \<Rightarrow> preserveVerificationFailure prev (demoteForCoverage o1 c)
   | Some (Threw e) \<Rightarrow> preserveVerificationFailure prev (crashedOutcome n e))"

definition store_result :: "'w executors \<Rightarrow> subject_keys \<Rightarrow> store_name \<Rightarrow> 'w \<Rightarrow> exec_result option \<times> 'w" where
  "store_result ex subject n w = (case ex n of None \<Rightarrow> (None, w)
     | Some e \<Rightarrow> (case e subject w of (r, w') \<Rightarrow> (Some r, w')))"

lemma run_store_eq:
  "run_store subject ex targets c n (m, w) =
     (if n \<notin> set targets then (m, w)
      else (case store_result ex subject n w of
              (r, w') \<Rightarrow> (AList.update n (pass_outcome c (map_of m n) n r) m, w')))"
  by (auto simp: run_store_def store_result_def pass_outcome_def Let_def
      split: option.splits prod.splits exec_result.splits)

lemma crashed_sel [simp]: "so_store (crashedOutcome n e) = n" "so_status (crashedOutcome n e) = SFailed"
  "so_verification (crashedOutcome n e) = VUnknown" "so_failures (crashedOutcome n e) = 1"
  by (simp_all add: crashedOutcome_def)

lemma missing_sel [simp]: "so_store (missingExecutor n) = n" "so_status (missingExecutor n) = SFailed"
  "so_verification (missingExecutor n) = VUnknown" "so_failures (missingExecutor n) = 1"
  by (simp_all add: missingExecutor_def)

text \<open>The world after the stores of a list, and what each of them returned.\<close>

fun sweep :: "'w executors \<Rightarrow> subject_keys \<Rightarrow> store_name list \<Rightarrow> 'w \<Rightarrow>
    (store_name \<times> exec_result option) list \<times> 'w" where
  "sweep ex subject [] w = ([], w)"
| "sweep ex subject (n # ns) w =
     (case store_result ex subject n w of (r, w') \<Rightarrow>
        (case sweep ex subject ns w' of (rs, w'') \<Rightarrow> ((n, r) # rs, w'')))"

lemma sweep_fst: "map fst (fst (sweep ex subject ns w)) = ns"
  by (induction ns arbitrary: w) (auto split: prod.splits, metis fst_conv)

lemma sweep_dom: "map_of (fst (sweep ex subject ns w)) n = None \<longleftrightarrow> n \<notin> set ns"
  by (metis map_of_eq_None_iff set_map sweep_fst)

lemma fold_run_store:
  assumes "distinct ns"
  shows "snd (fold (run_store subject ex targets c) ns (m, w)) =
           snd (sweep ex subject (filter (\<lambda>n. n \<in> set targets) ns) w) \<and>
         map_of (fst (fold (run_store subject ex targets c) ns (m, w))) n =
           (case map_of (fst (sweep ex subject (filter (\<lambda>n. n \<in> set targets) ns) w)) n of
              None \<Rightarrow> map_of m n
            | Some r \<Rightarrow> Some (pass_outcome c (map_of m n) n r))"
  using assms
proof (induction ns arbitrary: m w)
  case (Cons x xs)
  show ?case
  proof (cases "x \<in> set targets")
    case False
    with Cons show ?thesis by (simp add: run_store_eq)
  next
    case True
    obtain r w' where r: "store_result ex subject x w = (r, w')" by fastforce
    have x: "map_of (fst (sweep ex subject (filter (\<lambda>n. n \<in> set targets) xs) w')) x = None"
      using Cons.prems by (simp add: sweep_dom)
    from Cons.IH [of "AList.update x (pass_outcome c (map_of m x) x r) m" w'] Cons.prems True r x
    show ?thesis
      by (auto simp: run_store_eq split: prod.splits option.splits)
  qed
qed simp

lemma distinct_order [simp]: "distinct EXECUTION_ORDER"
  by (simp add: EXECUTION_ORDER_def)

lemma set_order [simp]: "set EXECUTION_ORDER = UNIV"
proof -
  have "x \<in> set EXECUTION_ORDER" for x by (cases x) (simp_all add: EXECUTION_ORDER_def)
  then show ?thesis by auto
qed

section \<open>A pass\<close>

abbreviation targets_of :: "run_options \<Rightarrow> store_name list" where
  "targets_of opts \<equiv> (case ro_only opts of Some o1 \<Rightarrow> o1 | None \<Rightarrow> EXECUTION_ORDER)"

abbreviation coverage_of :: "run_options \<Rightarrow> resume_coverage" where
  "coverage_of opts \<equiv> (case ro_coverage opts of Some c \<Rightarrow> c | None \<Rightarrow> Full)"

definition swept :: "run_options \<Rightarrow> store_name list" where
  "swept opts = filter (\<lambda>n. n \<in> set (targets_of opts)) EXECUTION_ORDER"

definition recorded :: "erasure_receipt \<Rightarrow> store_name \<Rightarrow> store_outcome" where
  "recorded r n = (case map_of (by_store (er_stores r)) n of None \<Rightarrow> pendingStore n | Some o1 \<Rightarrow> o1)"

lemma receipt_stores_recorded:
  assumes "er_stores r = receipt_stores m" "\<And>n o1. map_of m n = Some o1 \<Longrightarrow> so_store o1 = n"
  shows "map_of (by_store (er_stores r)) n = Some (case map_of m n of None \<Rightarrow> pendingStore n | Some o1 \<Rightarrow> o1)"
proof -
  have st: "so_store (case map_of m k of None \<Rightarrow> pendingStore k | Some o1 \<Rightarrow> o1) = k" for k
    using assms(2) [of k] by (auto split: option.splits)
  show ?thesis
    unfolding map_of_by_store assms(1) receipt_stores_def EXECUTION_ORDER_def
    by (cases n) (auto simp: st split: option.splits)
qed

text \<open>A receipt is well formed when every outcome it carries is filed under its own
  store; the executors keep it so when each returns an outcome of its own store.\<close>

definition honest :: "'w executors \<Rightarrow> bool" where
  "honest ex \<longleftrightarrow> (\<forall>n e subject w o1 w'. ex n = Some e \<longrightarrow> e subject w = (Returned o1, w') \<longrightarrow> so_store o1 = n)"

lemma by_store_filed: "map_of (by_store ss) n = Some o1 \<Longrightarrow> so_store o1 = n \<and> o1 \<in> set ss"
  by (auto simp: map_of_by_store find_Some_iff) (metis length_rev nth_mem set_rev)

lemma pass_outcome_store:
  assumes "honest ex" "map_of (fst (sweep ex subject ns w)) n = Some r"
  shows "so_store (pass_outcome c p n r) = n"
  using assms(2)
proof (induction ns arbitrary: w)
  case (Cons x xs)
  obtain r' w' where r': "store_result ex subject x w = (r', w')" by fastforce
  show ?case
  proof (cases "x = n")
    case True
    with Cons.prems r' have "r = r'" by (auto split: prod.splits)
    with r' True assms(1) show ?thesis
      by (auto simp: store_result_def pass_outcome_def honest_def split: option.splits prod.splits exec_result.splits)
        blast
  next
    case False
    with Cons.prems r' have "map_of (fst (sweep ex subject xs w')) n = Some r"
      by (auto split: prod.splits)
    then show ?thesis by (rule Cons.IH)
  qed
qed simp

lemma runErasure_pass:
  assumes "ro_legalHold opts = None" "\<not> isEmptySubject subject" "honest ex"
    and run: "runErasure r subject ex opts w = (r', w')"
  shows "w' = snd (sweep ex subject (swept opts) w)"
    and "recorded r' n = (case map_of (fst (sweep ex subject (swept opts) w)) n of
           None \<Rightarrow> recorded r n
         | Some res \<Rightarrow> pass_outcome (coverage_of opts) (map_of (by_store (er_stores r)) n) n res)"
    and "er_status r' = deriveStatus (map (recorded r') EXECUTION_ORDER) False True"
    and "er_stores r' = map (recorded r') EXECUTION_ORDER"
    and "er_retryCount r' = er_retryCount r + 1"
proof -
  let ?f = "fold (run_store subject ex (targets_of opts) (coverage_of opts)) EXECUTION_ORDER
    (by_store (er_stores r), w)"
  let ?rs = "fst (sweep ex subject (swept opts) w)"
  obtain m v where mv: "?f = (m, v)" by fastforce
  have v: "v = snd (sweep ex subject (swept opts) w)"
    and look: "\<And>k. map_of m k = (case map_of ?rs k of None \<Rightarrow> map_of (by_store (er_stores r)) k
        | Some res \<Rightarrow> Some (pass_outcome (coverage_of opts) (map_of (by_store (er_stores r)) k) k res))"
    using fold_run_store [of EXECUTION_ORDER subject ex "targets_of opts" "coverage_of opts"
        "by_store (er_stores r)" w] mv
    by (auto simp: swept_def)
  have filed: "map_of m k = Some o1 \<Longrightarrow> so_store o1 = k" for k o1
    using look [of k] by_store_filed [of "er_stores r" k o1]
      pass_outcome_store [OF assms(3), of subject "swept opts" w k]
    by (auto split: option.splits)
  from run mv assms(1,2) have st: "er_stores r' = receipt_stores m"
    and w': "w' = v" and rc: "er_retryCount r' = er_retryCount r + 1"
    and status: "er_status r' = deriveStatus (receipt_stores m) False True"
    by (auto simp: runErasure_def Let_def)
  have rec: "recorded r' k = (case map_of m k of None \<Rightarrow> pendingStore k | Some o1 \<Rightarrow> o1)" for k
    using receipt_stores_recorded [OF st filed] by (simp add: recorded_def)
  then have m': "map (recorded r') EXECUTION_ORDER = receipt_stores m"
    by (simp add: receipt_stores_def)
  show "w' = snd (sweep ex subject (swept opts) w)" using w' v by simp
  show "er_status r' = deriveStatus (map (recorded r') EXECUTION_ORDER) False True"
    using m' status by simp
  show "er_stores r' = map (recorded r') EXECUTION_ORDER" using m' st by simp
  show "er_retryCount r' = er_retryCount r + 1" by (rule rc)
  show "recorded r' n = (case map_of ?rs n of None \<Rightarrow> recorded r n
      | Some res \<Rightarrow> pass_outcome (coverage_of opts) (map_of (by_store (er_stores r)) n) n res)"
    unfolding rec [of n] look [of n] recorded_def [of r n]
    by (cases "map_of ?rs n") (simp_all split: option.splits)
qed

lemma runErasure_held:
  "ro_legalHold opts = Some p \<Longrightarrow> runErasure r subject ex opts w =
     (r\<lparr>er_status := BlockedLegalHold, er_legalHoldPolicyId := Some p, er_retryCount := er_retryCount r + 1\<rparr>, w)"
  by (simp add: runErasure_def)

lemma runErasure_empty:
  assumes "ro_legalHold opts = None" "isEmptySubject subject"
  shows "er_status (fst (runErasure r subject ex opts w)) = VerificationFailed \<and>
    snd (runErasure r subject ex opts w) = w"
  using assms by (simp add: runErasure_def Let_def)

section \<open>Consequences\<close>

lemma swept_iff: "n \<in> set (swept opts) \<longleftrightarrow> n \<in> set (targets_of opts)"
  by (simp add: swept_def)

lemma swept_result:
  assumes "n \<in> set (swept opts)"
  obtains res where "map_of (fst (sweep ex subject (swept opts) w)) n = Some res"
  using assms sweep_dom [of ex subject "swept opts" w n] by (cases "map_of (fst (sweep ex subject (swept opts) w)) n") auto

lemma not_swept: "n \<notin> set (swept opts) \<Longrightarrow> map_of (fst (sweep ex subject (swept opts) w)) n = None"
  by (simp add: sweep_dom)

lemma completed_not_held:
  assumes "runErasure r subject ex opts w = (r', w')" "er_status r' = Completed"
  shows "ro_legalHold opts = None" "\<not> isEmptySubject subject"
proof -
  show h: "ro_legalHold opts = None"
    using assms runErasure_held [of opts _ r subject ex w] by (cases "ro_legalHold opts") auto
  show "\<not> isEmptySubject subject"
    using assms runErasure_empty [OF h, of subject r ex w] by auto
qed

lemma pass_outcome_settled:
  assumes "isStoreSettled (pass_outcome c p n res)" "so_failures (pass_outcome c p n res) \<le> 0"
  obtains o1 where "res = Some (Returned o1)" "so_failures o1 \<le> 0"
    "so_status o1 = SNotProvisioned \<or>
     (so_status o1 = SDone \<and> so_verification o1 = VPassed \<and> (c = Full \<or> so_store o1 = Minio))"
  using assms
  by (auto simp: pass_outcome_def isStoreSettled_def demote_passed_iff
      split: option.splits exec_result.splits if_splits)

lemma pass_outcome_failed:
  assumes "map_option so_verification p = Some VFailed"
    and "\<And>o1. res = Some (Returned o1) \<Longrightarrow> so_verification o1 \<noteq> VPassed \<or> (c = LocatorsOnly \<and> so_store o1 \<noteq> Minio)"
    and "res \<noteq> None"
  shows "so_verification (pass_outcome c p n res) = VFailed"
proof -
  from assms(3) obtain r where r: "res = Some r" by auto
  show ?thesis
  proof (cases r)
    case (Returned o1)
    with assms(2) r have "so_verification (demoteForCoverage o1 c) \<noteq> VPassed"
      by (auto simp: demote_passed_iff)
    then show ?thesis
      using assms(1) by (simp add: pass_outcome_def r Returned preserve_failed)
  next
    case (Threw e)
    then show ?thesis using assms(1) by (simp add: pass_outcome_def r preserve_failed)
  qed
qed

lemma retryErasure_unfold:
  "retryErasure r subject ex opts w = (if storesNeedingRetry r = [] then (r, w)
     else runErasure r subject ex (opts\<lparr>ro_only := Some (storesNeedingRetry r)\<rparr>) w)"
  by (simp add: retryErasure_def Let_def)

lemma recorded_settled_iff:
  "n \<notin> set (storesNeedingRetry r) \<longleftrightarrow> isStoreSettled (recorded r n)"
  by (auto simp: storesNeedingRetry_iff recorded_def split: option.splits)

text \<open>Executors over a log that record the name of their store, whatever they then do.\<close>

definition logging :: "store_name list executors \<Rightarrow> bool" where
  "logging ex \<longleftrightarrow> (\<forall>n e s l. ex n = Some e \<longrightarrow> snd (e s l) = l @ [n])"

lemma log_sweep:
  assumes "logging ex"
  shows "snd (sweep ex subject ns w) = w @ filter (\<lambda>n. ex n \<noteq> None) ns"
proof (induction ns arbitrary: w)
  case (Cons n ns)
  have "snd (store_result ex subject n w) = w @ (if ex n \<noteq> None then [n] else [])"
    using assms by (auto simp: store_result_def logging_def split: option.splits prod.splits)
      (metis snd_conv)
  moreover obtain r w' where "store_result ex subject n w = (r, w')" by fastforce
  moreover obtain l w2 where "sweep ex subject ns w' = (l, w2)" by fastforce
  ultimately show ?case using Cons [of w'] by simp
qed simp

lemma sweep_returned:
  assumes "honest ex" "map_of (fst (sweep ex subject ns w)) n = Some (Some (Returned o1))"
  obtains e v v' where "ex n = Some e" "e subject v = (Returned o1, v')" "so_store o1 = n"
  using assms(2)
proof (induction ns arbitrary: w thesis)
  case (Cons m ns)
  obtain res w' where sr: "store_result ex subject m w = (res, w')" by fastforce
  show ?case
  proof (cases "m = n")
    case True
    with Cons.prems(2) sr have "res = Some (Returned o1)" by (auto split: prod.splits)
    with sr True obtain e where "ex n = Some e" "e subject w = (Returned o1, w')"
      by (auto simp: store_result_def split: option.splits prod.splits)
    then show ?thesis using assms(1) Cons.prems(1) unfolding honest_def by blast
  next
    case False
    with Cons.prems(2) sr have "map_of (fst (sweep ex subject ns w')) n = Some (Some (Returned o1))"
      by (auto split: prod.splits)
    with Cons.IH Cons.prems(1) show ?thesis by blast
  qed
qed simp

lemma sweep_wired:
  assumes "\<forall>m. ex m \<noteq> None"
  shows "map_of (fst (sweep ex subject ns v)) n \<noteq> Some None"
proof (induction ns arbitrary: v)
  case (Cons m ns)
  obtain res v' where "store_result ex subject m v = (Some res, v')"
    using assms by (cases "ex m"; cases "the (ex m) subject v") (auto simp: store_result_def)
  with Cons.IH [of v'] show ?case by (auto split: prod.splits)
qed simp

section \<open>Properties\<close>

text \<open>
  C14: A pass reports \<open>completed\<close> only on evidence. If \<open>runErasure\<close> returns a completed
  receipt then no legal hold was in force, the subject was not empty, every store recorded
  in the receipt is settled with no failures, and every store this pass was to sweep was
  really executed and returned an outcome that is either not provisioned or done and
  verified, where a pass without the subject's id is believed for the object store only.
\<close>

theorem completed_only_on_evidence:
  assumes "honest ex" and run: "runErasure r subject ex opts w = (r', w')"
    and fin: "er_status r' = Completed"
  shows "ro_legalHold opts = None \<and> \<not> isEmptySubject subject \<and>
    (\<forall>n. isStoreSettled (recorded r' n) \<and> so_failures (recorded r' n) \<le> 0) \<and>
    (\<forall>n \<in> set (swept opts). \<exists>o1.
       map_of (fst (sweep ex subject (swept opts) w)) n = Some (Some (Returned o1)) \<and> so_failures o1 \<le> 0 \<and>
       (so_status o1 = SNotProvisioned \<or> so_status o1 = SDone \<and> so_verification o1 = VPassed \<and>
          (coverage_of opts = Full \<or> so_store o1 = Minio)))"
proof -
  note hold = completed_not_held [OF run fin]
  note pass = runErasure_pass [OF hold assms(1) run]
  have all: "isStoreSettled (recorded r' n) \<and> so_failures (recorded r' n) \<le> 0" for n
  proof -
    have "recorded r' n \<in> set (map (recorded r') EXECUTION_ORDER)" by simp
    with fin pass(3) show ?thesis by (metis deriveStatus_completed_iff)
  qed
  moreover have "\<exists>o1. map_of (fst (sweep ex subject (swept opts) w)) n = Some (Some (Returned o1)) \<and>
      so_failures o1 \<le> 0 \<and> (so_status o1 = SNotProvisioned \<or> so_status o1 = SDone \<and>
        so_verification o1 = VPassed \<and> (coverage_of opts = Full \<or> so_store o1 = Minio))"
    if n: "n \<in> set (swept opts)" for n
  proof -
    obtain res where res: "map_of (fst (sweep ex subject (swept opts) w)) n = Some res"
      using swept_result [OF n] by metis
    then have "recorded r' n = pass_outcome (coverage_of opts) (map_of (by_store (er_stores r)) n) n res"
      using pass(2) [of n] by simp
    with all [of n] res show ?thesis by (metis pass_outcome_settled)
  qed
  ultimately show ?thesis using hold by blast
qed

text \<open>
  C17: The stores run in the destructive order, and one store cannot abort another. For
  executors that log their store's name, whether they then return or throw, the log grows
  by exactly the wired target stores in the order object store, Redis, ClickHouse,
  Postgres: every target runs once, after a crash too, and Postgres, which holds the map
  to everything else, is last.
\<close>

theorem sweep_order_and_isolation:
  assumes "honest ex" "ro_legalHold opts = None" "\<not> isEmptySubject subject"
    and "logging ex"
  shows "snd (runErasure r subject ex opts l) =
    l @ filter (\<lambda>n. n \<in> set (targets_of opts) \<and> ex n \<noteq> None) [Minio, Redis, Clickhouse, Postgres]"
proof -
  obtain r' w' where run: "runErasure r subject ex opts l = (r', w')" by fastforce
  have "w' = l @ filter (\<lambda>n. ex n \<noteq> None) (swept opts)"
    using runErasure_pass(1) [OF assms(2,3,1) run] log_sweep [OF assms(4)] by simp
  then show ?thesis by (simp add: run swept_def EXECUTION_ORDER_def filter_filter conj_commute)
qed


text \<open>
  C18: A retry leaves settled stores alone: the outcome recorded for a settled store is
  the same after the retry, and the retry's sweep contains only stores that were not
  settled. A completed receipt is returned as it is, with nothing executed.
\<close>

theorem retry_only_unsettled:
  assumes "honest ex" "ro_legalHold opts = None" "\<not> isEmptySubject subject"
    and retry: "retryErasure r subject ex opts w = (r', w')"
  shows "(\<forall>n. isStoreSettled (recorded r n) \<longrightarrow> recorded r' n = recorded r n) \<and>
    w' = snd (sweep ex subject (filter (\<lambda>n. \<not> isStoreSettled (recorded r n)) EXECUTION_ORDER) w) \<and>
    ((\<forall>n. isStoreSettled (recorded r n)) \<longrightarrow> r' = r \<and> w' = w)"
proof (cases "storesNeedingRetry r = []")
  case True
  then have "\<And>n. isStoreSettled (recorded r n)" using recorded_settled_iff by fastforce
  with True retry show ?thesis by (simp add: retryErasure_unfold)
next
  case False
  let ?o = "opts\<lparr>ro_only := Some (storesNeedingRetry r)\<rparr>"
  from False retry have run: "runErasure r subject ex ?o w = (r', w')"
    by (simp add: retryErasure_unfold)
  have sw: "swept ?o = filter (\<lambda>n. \<not> isStoreSettled (recorded r n)) EXECUTION_ORDER"
    by (simp add: swept_def recorded_settled_iff [symmetric])
  have h: "ro_legalHold ?o = None" using assms(2) by simp
  note pass = runErasure_pass [OF h assms(3,1) run]
  have "recorded r' n = recorded r n" if "isStoreSettled (recorded r n)" for n
    using pass(2) [of n] that not_swept [of n ?o ex subject w] by (simp add: sw)
  moreover have "\<exists>n. \<not> isStoreSettled (recorded r n)"
    using False recorded_settled_iff [of _ r] by (metis list.set_intros(1) neq_Nil_conv)
  ultimately show ?thesis using pass(1) sw by auto
qed

text \<open>
  Nothing is destroyed for a held or an unresolved subject. Under a legal hold the
  receipt is blocked and names the policy; with an empty subject it is
  \<open>verification_failed\<close>, never \<open>completed\<close>; in both cases the outside world is as it was.
\<close>

lemma no_destruction_when_refused:
  "(case ro_legalHold opts of Some p \<Rightarrow> True | None \<Rightarrow> isEmptySubject subject) \<Longrightarrow>
   snd (runErasure r subject ex opts w) = w \<and>
   er_status (fst (runErasure r subject ex opts w)) =
     (if ro_legalHold opts = None then VerificationFailed else BlockedLegalHold)"
  using runErasure_held [of opts _ r subject ex w] runErasure_empty [of opts subject r ex w]
  by (auto split: option.splits)

section \<open>Sample executors\<close>

definition w_subject :: subject_keys where
  "w_subject = \<lparr>platosEndUserIds = [''u1''], legacyUserIds = [''ext''], scopes = []\<rparr>"

definition w_receipt :: erasure_receipt where
  "w_receipt = \<lparr>er_operationId = ''op'', er_subjectKeyHash = ''h'', er_requestedAt = ''t0'',
     er_startedAt = None, er_completedAt = None, er_status = Pending, er_scopes = [], er_stores = [],
     er_policyVersion = ''1'', er_retryCount = 0, er_legalHoldPolicyId = None\<rparr>"

definition w_opts :: run_options where
  "w_opts = \<lparr>ro_only = None, ro_legalHold = None, ro_coverage = None, ro_clock = (\<lambda>_. ''t'')\<rparr>"

definition w_outcome :: "store_name \<Rightarrow> verification_status \<Rightarrow> store_outcome" where
  "w_outcome n v = (pendingStore n)\<lparr>so_status := SDone, so_verification := v\<rparr>"

definition w_exec :: "(store_name \<Rightarrow> verification_status) \<Rightarrow> store_name list executors" where
  "w_exec v n = Some (\<lambda>_ l. (Returned (w_outcome n (v n)), l @ [n]))"

lemma w_honest: "honest (w_exec v)"
  by (simp add: honest_def w_exec_def w_outcome_def)

lemmas w_defs = w_subject_def w_receipt_def w_opts_def w_outcome_def w_exec_def EXECUTION_ORDER_def
  isEmptySubject_def runErasure_def run_store_eq store_result_def pass_outcome_def receipt_stores_def
  by_store_def deriveStatus_def isStoreSettled_def isUnproven_def REQUIRED_STORES_def pendingStore_def
  preserveVerificationFailure_def demoteForCoverage_def swept_def

section \<open>Sequences of automatic passes\<close>

text \<open>The queue re-drives an operation from the persisted plan alone: a sequence of
  retries, each with locators-only coverage.\<close>

inductive queue_passes :: "'w executors \<Rightarrow> subject_keys \<Rightarrow> erasure_receipt \<times> 'w \<Rightarrow> erasure_receipt \<times> 'w \<Rightarrow> bool"
  for ex subject x where
  start: "queue_passes ex subject x x"
| pass: "queue_passes ex subject x (r, w) \<Longrightarrow> ro_coverage opts = Some LocatorsOnly \<Longrightarrow>
    ro_legalHold opts = None \<Longrightarrow> retryErasure r subject ex opts w = (r', w') \<Longrightarrow>
    queue_passes ex subject x (r', w')"

definition provisioned :: "'w executors \<Rightarrow> subject_keys \<Rightarrow> store_name \<Rightarrow> bool" where
  "provisioned ex subject n \<longleftrightarrow> (\<forall>e w o1 w'. ex n = Some e \<longrightarrow> e subject w = (Returned o1, w') \<longrightarrow>
     so_status o1 \<noteq> SNotProvisioned)"

lemma locators_pass_keeps_unsettled:
  assumes "honest ex" "\<not> isEmptySubject subject" "n \<noteq> Minio"
    and prov: "provisioned ex subject n"
    and opts: "ro_coverage opts = Some LocatorsOnly" "ro_legalHold opts = None"
    and unset: "\<not> isStoreSettled (recorded r n)" and retry: "retryErasure r subject ex opts w = (r', w')"
  shows "\<not> isStoreSettled (recorded r' n) \<and> er_status r' \<noteq> Completed"
proof -
  let ?o = "opts\<lparr>ro_only := Some (storesNeedingRetry r)\<rparr>"
  have n: "n \<in> set (storesNeedingRetry r)" using unset recorded_settled_iff by blast
  then have "storesNeedingRetry r \<noteq> []" by auto
  with retry have run: "runErasure r subject ex ?o w = (r', w')" by (simp add: retryErasure_unfold)
  have h: "ro_legalHold ?o = None" using opts by simp
  note pass = runErasure_pass [OF h assms(2,1) run]
  have sw: "n \<in> set (swept ?o)" using n by (simp add: swept_iff)
  then obtain res where res: "map_of (fst (sweep ex subject (swept ?o) w)) n = Some res"
    using swept_result by metis
  have returned: "so_store o1 = n \<and> so_status o1 \<noteq> SNotProvisioned" if "res = Some (Returned o1)" for o1
    using sweep_returned [OF assms(1), of subject "swept ?o" w n o1] res that prov
    unfolding provisioned_def by metis
  have "\<not> isStoreSettled (pass_outcome LocatorsOnly p n res)" for p
    using returned assms(3)
    by (auto simp: pass_outcome_def isStoreSettled_def demote_passed_iff split: option.splits exec_result.splits)
  then have u: "\<not> isStoreSettled (recorded r' n)" using pass(2) [of n] res opts by simp
  moreover have "recorded r' n \<in> set (map (recorded r') EXECUTION_ORDER)" by simp
  ultimately have "er_status r' \<noteq> Completed" using pass(3) deriveStatus_completed_iff by metis
  with u show ?thesis by simp
qed

text \<open>
  C15: The queue never certifies what it cannot address. Take an operation in which a
  store keyed by the legacy id (Postgres, Redis or ClickHouse) is not settled and is
  provisioned. However many automatic passes run from the persisted plan, and whatever
  the executors report, that store stays unsettled and the operation is not completed:
  only an operator supplying the subject's id can finish it.
\<close>

theorem queue_never_certifies:
  assumes "honest ex" "\<not> isEmptySubject subject" "n \<in> set STORES_KEYED_BY_LEGACY_ID"
    and "provisioned ex subject n"
    and "queue_passes ex subject (r, w) (r', w')"
    and "\<not> isStoreSettled (recorded r n)" "er_status r \<noteq> Completed"
  shows "\<not> isStoreSettled (recorded r' n) \<and> er_status r' \<noteq> Completed"
  using assms(5)
proof (induction "(r', w')" arbitrary: r' w' rule: queue_passes.induct)
  case start
  then show ?case using assms(6,7) by simp
next
  case (pass r1 w1 opts r2 w2)
  have "n \<noteq> Minio" using assms(3) by auto
  with pass show ?case
    by (intro locators_pass_keeps_unsettled [OF assms(1,2) _ assms(4)]) auto
qed

section \<open>Witnesses\<close>

theorem queue_never_certifies_witness:
  "\<not> isStoreSettled (recorded (fst (retryErasure w_receipt w_subject (w_exec (\<lambda>_. VPassed))
      (w_opts\<lparr>ro_coverage := Some LocatorsOnly\<rparr>) [])) Redis)"
proof -
  let ?o = "w_opts\<lparr>ro_coverage := Some LocatorsOnly\<rparr>"
  let ?x = "retryErasure w_receipt w_subject (w_exec (\<lambda>_. VPassed)) ?o []"
  have p: "queue_passes (w_exec (\<lambda>_. VPassed)) w_subject (w_receipt, []) (fst ?x, snd ?x)"
    by (rule queue_passes.pass [OF queue_passes.start, where opts = ?o]) (simp_all add: w_opts_def)
  have a: "\<not> isEmptySubject w_subject" "Redis \<in> set STORES_KEYED_BY_LEGACY_ID"
    "\<not> isStoreSettled (recorded w_receipt Redis)" "er_status w_receipt \<noteq> Completed"
    by (simp_all add: w_defs recorded_def)
  have np: "provisioned (w_exec (\<lambda>_. VPassed)) w_subject Redis"
    by (auto simp: provisioned_def w_exec_def w_outcome_def)
  show ?thesis
    using queue_never_certifies [OF w_honest a(1,2) np p a(3,4)] by simp
qed

theorem completed_only_on_evidence_witness:
  "er_status (fst (runErasure w_receipt w_subject (w_exec (\<lambda>_. VPassed)) w_opts [])) = Completed \<and>
   isStoreSettled (recorded (fst (runErasure w_receipt w_subject (w_exec (\<lambda>_. VPassed)) w_opts [])) Redis)"
proof -
  let ?x = "runErasure w_receipt w_subject (w_exec (\<lambda>_. VPassed)) w_opts []"
  have c: "er_status (fst ?x) = Completed" by (simp add: w_defs)
  show ?thesis
    using completed_only_on_evidence [OF w_honest, of _ _ _ _ _ "fst ?x" "snd ?x"] c by auto
qed

theorem sweep_order_and_isolation_witness:
  "snd (runErasure w_receipt w_subject (w_exec (\<lambda>_. VPassed)) w_opts []) =
     [Minio, Redis, Clickhouse, Postgres]"
proof -
  have h: "ro_legalHold w_opts = None" "\<not> isEmptySubject w_subject"
    by (simp_all add: w_opts_def w_subject_def isEmptySubject_def)
  have log: "logging (w_exec (\<lambda>_. VPassed))"
    by (auto simp: w_exec_def logging_def)
  have t: "targets_of w_opts = EXECUTION_ORDER" by (simp add: w_opts_def)
  show ?thesis
    using sweep_order_and_isolation [OF w_honest h log, of w_receipt "[]"]
    unfolding t by (simp add: w_exec_def)
qed


theorem retry_only_unsettled_witness:
  "isStoreSettled (recorded (w_receipt\<lparr>er_stores := [w_outcome Minio VPassed]\<rparr>) Minio) \<and>
   snd (retryErasure (w_receipt\<lparr>er_stores := [w_outcome Minio VPassed]\<rparr>) w_subject
     (w_exec (\<lambda>_. VPassed)) w_opts []) = [Redis, Clickhouse, Postgres]"
proof -
  let ?r = "w_receipt\<lparr>er_stores := [w_outcome Minio VPassed]\<rparr>"
  have a: "ro_legalHold w_opts = None" "\<not> isEmptySubject w_subject"
    by (simp_all add: w_opts_def w_subject_def isEmptySubject_def)
  have s: "isStoreSettled (recorded ?r n) \<longleftrightarrow> n = Minio" for n
    by (cases n) (simp_all add: w_defs recorded_def)
  show ?thesis
    using retry_only_unsettled [OF w_honest a prod.collapse [symmetric], of ?r "\<lambda>_. VPassed" "[]"] s
    by (simp add: EXECUTION_ORDER_def w_exec_def store_result_def)
qed

end
