(* ===== verification/PostgresStore.thy ===== *)
theory PostgresStore
  imports JsValue Table ErasureOrchestrator
begin

text \<open>
  The Postgres executor of \<open>apps/agent/src/privacy/erasure.service.ts\<close>: one transaction that
  deletes the subject's rows table by table, anonymises the tool-call audits, deletes the
  identity last, and then counts what is left. The database client is a table per model and
  a commit; a transaction that throws leaves the state of its begin. A row carries the
  columns the executor's filters read, with the organisation of its environment.
\<close>

section \<open>Rows and filters\<close>

datatype model = MessageRating | MessageAttachment | MemoryRelationship | MemoryEntity | Memory
  | SafetyEvent | Thread | ToolCallAudit | EndUserIdentity | EndUser

record db_row =
  row_id :: string
  row_endUserId :: "string option"
  row_organizationId :: string
  row_arguments :: jsval
  row_result :: jsval
  row_error :: "string option"
  row_metadata :: jsval

record 's pg_client =
  pg_table :: "model \<Rightarrow> ('s, db_row) table"
  pg_commit :: "'s \<Rightarrow> db_error option"

definition CONTENT_FREE_AUDIT_ARGUMENTS :: jsval where
  "CONTENT_FREE_AUDIT_ARGUMENTS = JObj [(''__platosAudit'',
     JObj [(''userId'', JNull), (''mcpUserId'', JNull), (''endUserId'', JNull)])]"

definition isContentFreeAudit :: "db_row \<Rightarrow> bool" where
  "isContentFreeAudit row = (case row_arguments row of
     JObj argumentEntries \<Rightarrow>
       (case js_get argumentEntries ''__platosAudit'' of
          JObj metadataObject \<Rightarrow>
            row_endUserId row = None \<and> row_result row = JNull \<and> row_error row = None
            \<and> length argumentEntries = 1 \<and> map fst (take 1 argumentEntries) = [''__platosAudit'']
            \<and> join '','' (sort (map fst metadataObject)) = ''endUserId,mcpUserId,userId''
            \<and> js_get metadataObject ''userId'' = JNull
            \<and> js_get metadataObject ''mcpUserId'' = JNull
            \<and> js_get metadataObject ''endUserId'' = JNull
        | _ \<Rightarrow> False)
   | _ \<Rightarrow> False)"

definition subjectWhere :: "string list \<Rightarrow> db_row \<Rightarrow> bool" where
  "subjectWhere eu r = (case row_endUserId r of None \<Rightarrow> False | Some u \<Rightarrow> u \<in> set eu)"

fun json_path :: "jsval \<Rightarrow> string list \<Rightarrow> jsval" where
  "json_path v [] = v"
| "json_path v (k # ks) = (case v of JObj fs \<Rightarrow> json_path (js_get fs k) ks | _ \<Rightarrow> JUndef)"

definition auditAdapterFields :: "string list" where
  "auditAdapterFields = [''userId'', ''mcpUserId'', ''endUserId'']"

definition auditSubjectWhere :: "string \<Rightarrow> string list \<Rightarrow> string list \<Rightarrow> db_row \<Rightarrow> bool" where
  "auditSubjectWhere org eu lu r \<longleftrightarrow> row_organizationId r = org \<and> (subjectWhere eu r
     \<or> list_ex (\<lambda>userId. list_ex (\<lambda>field.
          json_path (row_arguments r) [''__platosAudit'', field] = JStr userId) auditAdapterFields) lu)"

definition safetySubjectWhere :: "string \<Rightarrow> string list \<Rightarrow> string list \<Rightarrow> db_row \<Rightarrow> bool" where
  "safetySubjectWhere org eu lu r \<longleftrightarrow> row_organizationId r = org \<and> (subjectWhere eu r
     \<or> list_ex (\<lambda>userId. json_path (row_metadata r) [''__platosSafety'', ''userId''] = JStr userId) lu)"

section \<open>The transaction\<close>

text \<open>The closure state of the executor: the outcome it counts in, the audit ids it kept and
  the database. A thrown statement carries the closure state at that moment.\<close>

type_synonym 's tx_state = "store_outcome \<times> string list \<times> 's"
type_synonym 's tx_result = "(db_error \<times> 's tx_state) + 's tx_state"

definition tx_bind :: "'s tx_result \<Rightarrow> ('s tx_state \<Rightarrow> 's tx_result) \<Rightarrow> 's tx_result" where
  "tx_bind r k = (case r of Inl e \<Rightarrow> Inl e | Inr st \<Rightarrow> k st)"

definition tx_delete :: "'s pg_client \<Rightarrow> model \<times> (db_row \<Rightarrow> bool) \<Rightarrow> 's tx_state \<Rightarrow> 's tx_result" where
  "tx_delete P stmt st = (case stmt of (m, w) \<Rightarrow> (case st of (out, ids, s) \<Rightarrow>
     (case deleteMany (pg_table P m) w s of
        Inl e \<Rightarrow> Inl (e, st)
      | Inr (n, s') \<Rightarrow> Inr (out\<lparr>so_deleted := so_deleted out + int n\<rparr>, ids, s'))))"

fun tx_deletes :: "'s pg_client \<Rightarrow> (model \<times> (db_row \<Rightarrow> bool)) list \<Rightarrow> 's tx_state \<Rightarrow> 's tx_result" where
  "tx_deletes P [] st = Inr st"
| "tx_deletes P (d # ds) st = tx_bind (tx_delete P d st) (tx_deletes P ds)"

definition anonymized :: "db_row \<Rightarrow> db_row" where
  "anonymized r = r\<lparr>row_endUserId := None, row_arguments := CONTENT_FREE_AUDIT_ARGUMENTS,
     row_result := JNull, row_error := None\<rparr>"

text \<open>\<open>update\<close> by id throws when there is no such row.\<close>

fun tx_anonymize :: "'s pg_client \<Rightarrow> string list \<Rightarrow> 's tx_state \<Rightarrow> 's tx_result" where
  "tx_anonymize P [] st = Inr st"
| "tx_anonymize P (i # is) (out, ids, s) =
     (let ids = ids @ [i] in
      case updateMany (pg_table P ToolCallAudit) (\<lambda>r. row_id r = i) anonymized s of
        Inl e \<Rightarrow> Inl (e, (out, ids, s))
      | Inr (n, s') \<Rightarrow> if n = 0 then Inl (Rejected, (out, ids, s))
          else tx_anonymize P is (out\<lparr>so_anonymized := so_anonymized out + 1\<rparr>, ids, s'))"

definition tx_audits :: "'s pg_client \<Rightarrow> (db_row \<Rightarrow> bool) \<Rightarrow> 's tx_state \<Rightarrow> 's tx_result" where
  "tx_audits P w st = (case st of (out, ids, s) \<Rightarrow>
     (case findMany (pg_table P ToolCallAudit) w s of
        Inl e \<Rightarrow> Inl (e, st) | Inr rows \<Rightarrow> tx_anonymize P (map row_id rows) st))"

definition subject_deletes :: "string \<Rightarrow> string list \<Rightarrow> string list \<Rightarrow> (model \<times> (db_row \<Rightarrow> bool)) list" where
  "subject_deletes org eu lu = [(MessageRating, subjectWhere eu), (MessageAttachment, subjectWhere eu),
     (MemoryRelationship, subjectWhere eu), (MemoryEntity, subjectWhere eu), (Memory, subjectWhere eu),
     (SafetyEvent, safetySubjectWhere org eu lu), (Thread, subjectWhere eu)]"

definition identity_deletes :: "string list \<Rightarrow> (model \<times> (db_row \<Rightarrow> bool)) list" where
  "identity_deletes eu = (if eu = [] then []
     else [(EndUserIdentity, subjectWhere eu), (EndUser, \<lambda>r. row_id r \<in> set eu)])"

definition subject_transaction ::
    "'s pg_client \<Rightarrow> string \<Rightarrow> string list \<Rightarrow> string list \<Rightarrow> 's tx_state \<Rightarrow> 's tx_result" where
  "subject_transaction P org eu lu st =
     tx_bind (tx_bind (tx_bind (tx_deletes P (subject_deletes org eu lu) st)
       (tx_audits P (auditSubjectWhere org eu lu))) (tx_deletes P (identity_deletes eu)))
       (\<lambda>(out, ids, s). case pg_commit P s of Some e \<Rightarrow> Inl (e, (out, ids, s)) | None \<Rightarrow> Inr (out, ids, s))"

section \<open>The executor\<close>

definition count_rows :: "'s pg_client \<Rightarrow> model \<Rightarrow> (db_row \<Rightarrow> bool) \<Rightarrow> 's \<Rightarrow> db_error + nat" where
  "count_rows P m w s = map_res length (findMany (pg_table P m) w s)"

definition show_int :: "int \<Rightarrow> string" where
  "show_int i = (if i < 0 then ''-'' @ show_nat (nat (- i)) else show_nat (nat i))"

definition retained_content_free :: "'s pg_client \<Rightarrow> string \<Rightarrow> string list \<Rightarrow> 's \<Rightarrow> db_error + nat" where
  "retained_content_free P org ids s = (if ids = [] then Inr 0
     else map_res (\<lambda>rows. length (filter isContentFreeAudit rows))
       (findMany (pg_table P ToolCallAudit) (\<lambda>r. row_id r \<in> set ids \<and> row_organizationId r = org) s))"

definition res_bind :: "'e + 'a \<Rightarrow> ('a \<Rightarrow> 'e + 'b) \<Rightarrow> 'e + 'b" where
  "res_bind r f = (case r of Inl e \<Rightarrow> Inl e | Inr x \<Rightarrow> f x)"

record pg_counts =
  ct_threads :: int
  ct_memories :: int
  ct_audits :: int
  ct_safetyEvents :: int
  ct_endUsers :: int

definition negative_counts ::
    "'s pg_client \<Rightarrow> string \<Rightarrow> string list \<Rightarrow> string list \<Rightarrow> string list \<Rightarrow> 's \<Rightarrow> db_error + pg_counts" where
  "negative_counts P org eu lu ids s =
     res_bind (count_rows P Thread (subjectWhere eu) s) (\<lambda>t.
     res_bind (count_rows P Memory (subjectWhere eu) s) (\<lambda>m.
     res_bind (count_rows P ToolCallAudit (auditSubjectWhere org eu lu) s) (\<lambda>auditSubjectSurvivors.
     res_bind (retained_content_free P org ids s) (\<lambda>contentFree.
     res_bind (count_rows P SafetyEvent (safetySubjectWhere org eu lu) s) (\<lambda>sv.
     res_bind (if eu \<noteq> [] then count_rows P EndUser (\<lambda>r. row_id r \<in> set eu) s else Inr 0) (\<lambda>e.
       Inr \<lparr>ct_threads = int t, ct_memories = int m,
         ct_audits = int auditSubjectSurvivors + (int (length ids) - int contentFree),
         ct_safetyEvents = int sv, ct_endUsers = int e\<rparr>))))))"

definition postgresExecutor :: "(db_error \<Rightarrow> string) \<Rightarrow> 's pg_client \<Rightarrow> string \<Rightarrow> 's executor" where
  "postgresExecutor errName P org subject s =
     (let eu = platosEndUserIds subject; lu = legacyUserIds subject in
      case subject_transaction P org eu lu (pendingStore Postgres, [], s) of
        Inl (e, (out, ids, s')) \<Rightarrow>
          (Returned (out\<lparr>so_status := SFailed, so_failures := 1, so_verification := VUnknown,
             so_note := Some (''transaction failed ('' @ errName e @ '')'')\<rparr>), s)
      | Inr (out, ids, s') \<Rightarrow>
          (case negative_counts P org eu lu ids s' of
             Inl e \<Rightarrow> (Threw (errName e), s')
           | Inr c \<Rightarrow>
               let survivors = ct_threads c + ct_memories c + ct_audits c + ct_safetyEvents c + ct_endUsers c
               in (Returned (out\<lparr>so_verification := (if survivors = 0 then VPassed else VFailed),
                     so_status := SDone, so_retained := 0,
                     so_note := Some (''verification: threads='' @ show_int (ct_threads c)
                       @ '' memories='' @ show_int (ct_memories c) @ '' audits='' @ show_int (ct_audits c)
                       @ '' safetyEvents='' @ show_int (ct_safetyEvents c)
                       @ '' endUsers='' @ show_int (ct_endUsers c))\<rparr>), s')))"

section \<open>The database contract\<close>

lemma res_bind_Inr: "res_bind r f = Inr x \<longleftrightarrow> (\<exists>y. r = Inr y \<and> f y = Inr x)"
  by (cases r) (auto simp: res_bind_def)

lemma tx_bind_Inr: "tx_bind r k = Inr x \<longleftrightarrow> (\<exists>out ids s. r = Inr (out, ids, s) \<and> k (out, ids, s) = Inr x)"
  by (cases r) (auto simp: tx_bind_def)

definition unique_ids :: "db_row multiset \<Rightarrow> bool" where
  "unique_ids rs \<longleftrightarrow> (\<forall>r r'. r \<in># rs \<longrightarrow> r' \<in># rs \<longrightarrow> row_id r = row_id r' \<longrightarrow> r = r')"

locale tenancy_database =
  fixes P :: "'s pg_client" and rows :: "model \<Rightarrow> 's \<Rightarrow> db_row multiset"
  assumes tables: "prisma_table (pg_table P m) (rows m) row_id"
    and update_frame: "updateMany (pg_table P m) p f s = Inr (n, s') \<Longrightarrow> m' \<noteq> m \<Longrightarrow> rows m' s' = rows m' s"
    and delete_frame: "deleteMany (pg_table P m) p s = Inr (n, s') \<Longrightarrow> m' \<noteq> m \<Longrightarrow> rows m' s' = rows m' s"
begin

lemmas deleted = prisma_table.deleted [OF tables]
lemmas updated = prisma_table.updated [OF tables]
lemmas many_iff = prisma_table.many_iff [OF tables]

lemma tx_delete_rows:
  assumes "tx_delete P (m, w) (out, ids, s) = Inr (out', ids', s')"
  shows "rows m' s' = (if m' = m then filter_mset (\<lambda>r. \<not> w r) (rows m s) else rows m' s)" "ids' = ids"
proof -
  from assms obtain n where d: "deleteMany (pg_table P m) w s = Inr (n, s')" and "ids' = ids"
    by (auto simp: tx_delete_def split: sum.splits)
  then show "ids' = ids" by simp
  show "rows m' s' = (if m' = m then filter_mset (\<lambda>r. \<not> w r) (rows m s) else rows m' s)"
    using deleted [OF d] delete_frame [OF d] by simp
qed

lemma tx_deletes_rows:
  assumes "tx_deletes P ds (out, ids, s) = Inr (out', ids', s')" "distinct (map fst ds)"
  shows "ids' = ids \<and> rows m s' = (case map_of ds m of None \<Rightarrow> rows m s
    | Some w \<Rightarrow> filter_mset (\<lambda>r. \<not> w r) (rows m s))"
  using assms
proof (induction ds arbitrary: out ids s)
  case (Cons d ds)
  obtain m1 w1 where d: "d = (m1, w1)" by fastforce
  from Cons.prems(1) obtain o2 i2 s2 where st: "tx_delete P (m1, w1) (out, ids, s) = Inr (o2, i2, s2)"
    and rest: "tx_deletes P ds (o2, i2, s2) = Inr (out', ids', s')"
    by (auto simp: tx_bind_Inr d)
  have "map_of ds m1 = None" using Cons.prems(2) d by (simp add: map_of_eq_None_iff)
  then show ?case using Cons.IH [OF rest] Cons.prems(2) tx_delete_rows [OF st] d by (auto split: option.splits)
qed simp

lemma tx_anonymize_rows:
  assumes "tx_anonymize P is (out, ids, s) = Inr (out', ids', s')"
  shows "ids' = ids @ is \<and> rows m s' = (if m = ToolCallAudit
    then image_mset (\<lambda>r. if row_id r \<in> set is then anonymized r else r) (rows m s) else rows m s)"
  using assms
proof (induction "is" arbitrary: out ids s)
  case (Cons i js)
  from Cons.prems obtain n s1 where u: "updateMany (pg_table P ToolCallAudit) (\<lambda>r. row_id r = i) anonymized s = Inr (n, s1)"
    and rest: "tx_anonymize P js (out\<lparr>so_anonymized := so_anonymized out + 1\<rparr>, ids @ [i], s1) = Inr (out', ids', s')"
    by (auto simp: Let_def split: sum.splits if_splits)
  have "(\<lambda>r. if row_id r \<in> set js then anonymized r else r) \<circ> (\<lambda>r. if row_id r = i then anonymized r else r)
    = (\<lambda>r. if row_id r \<in> set (i # js) then anonymized r else r)"
    by (rule ext) (auto simp: anonymized_def)
  then show ?case using Cons.IH [OF rest] updated [OF u] update_frame [OF u]
    by (auto simp: image_mset.compositionality)
qed simp

lemma tx_audits_rows:
  assumes "tx_audits P w (out, ids, s) = Inr (out', ids', s')"
    and "unique_ids (rows ToolCallAudit s)"
  shows "rows m s' = (if m = ToolCallAudit then image_mset (\<lambda>r. if w r then anonymized r else r) (rows m s)
    else rows m s)"
    and "\<exists>rs. ids' = ids @ map row_id rs \<and> mset rs = filter_mset w (rows ToolCallAudit s)"
proof -
  from assms(1) obtain rs where f: "findMany (pg_table P ToolCallAudit) w s = Inr rs"
    and a: "tx_anonymize P (map row_id rs) (out, ids, s) = Inr (out', ids', s')"
    by (auto simp: tx_audits_def split: sum.splits)
  have hit: "row_id r \<in> set (map row_id rs) \<longleftrightarrow> w r" if "r \<in># rows ToolCallAudit s" for r
  proof
    assume "row_id r \<in> set (map row_id rs)"
    then obtain r' where r': "r' \<in> set rs" "row_id r' = row_id r" by auto
    with many_iff [OF f] have "r' \<in># rows ToolCallAudit s" "w r'" by blast+
    with r'(2) that assms(2) show "w r" unfolding unique_ids_def by metis
  next
    assume "w r"
    with that many_iff [OF f] show "row_id r \<in> set (map row_id rs)" by auto
  qed
  then have "image_mset (\<lambda>r. if row_id r \<in> set (map row_id rs) then anonymized r else r) (rows ToolCallAudit s)
      = image_mset (\<lambda>r. if w r then anonymized r else r) (rows ToolCallAudit s)"
    by (intro image_mset_cong) simp
  then show "rows m s' = (if m = ToolCallAudit then image_mset (\<lambda>r. if w r then anonymized r else r) (rows m s)
    else rows m s)" using tx_anonymize_rows [OF a, of m] by simp
  show "\<exists>rs. ids' = ids @ map row_id rs \<and> mset rs = filter_mset w (rows ToolCallAudit s)"
    using tx_anonymize_rows [OF a] prisma_table.many [OF tables f] by blast
qed

end

section \<open>What a committed pass leaves\<close>

text \<open>The reference: every table of the subject filtered, the audits anonymised in place.\<close>

definition erased_rows :: "string \<Rightarrow> string list \<Rightarrow> string list \<Rightarrow> model \<Rightarrow> db_row multiset \<Rightarrow> db_row multiset" where
  "erased_rows org eu lu m rs = (case m of
     ToolCallAudit \<Rightarrow> image_mset (\<lambda>r. if auditSubjectWhere org eu lu r then anonymized r else r) rs
   | SafetyEvent \<Rightarrow> filter_mset (\<lambda>r. \<not> safetySubjectWhere org eu lu r) rs
   | EndUser \<Rightarrow> filter_mset (\<lambda>r. row_id r \<notin> set eu) rs
   | _ \<Rightarrow> filter_mset (\<lambda>r. \<not> subjectWhere eu r) rs)"

lemma subjectWhere_Nil [simp]: "\<not> subjectWhere [] r"
  by (simp add: subjectWhere_def split: option.splits)

lemma anonymized_clean: "\<not> auditSubjectWhere org eu lu (anonymized r)" "isContentFreeAudit (anonymized r)"
proof -
  show "\<not> auditSubjectWhere org eu lu (anonymized r)"
    by (auto simp: auditSubjectWhere_def anonymized_def subjectWhere_def CONTENT_FREE_AUDIT_ARGUMENTS_def
        auditAdapterFields_def js_get_def list_ex_iff)
  have "join '','' (sort [''userId'', ''mcpUserId'', ''endUserId'']) = ''endUserId,mcpUserId,userId''"
    by code_simp
  then show "isContentFreeAudit (anonymized r)"
    by (simp add: isContentFreeAudit_def anonymized_def CONTENT_FREE_AUDIT_ARGUMENTS_def js_get_def)
qed

lemma anonymized_sel [simp]: "row_id (anonymized r) = row_id r" "row_organizationId (anonymized r) = row_organizationId r"
  by (simp_all add: anonymized_def)

lemma erased_rows_stages:
  "(case map_of (identity_deletes eu) m of None \<Rightarrow>
      (if m = ToolCallAudit then image_mset (\<lambda>r. if auditSubjectWhere org eu lu r then anonymized r else r)
         (case map_of (subject_deletes org eu lu) m of None \<Rightarrow> rs | Some w \<Rightarrow> filter_mset (\<lambda>r. \<not> w r) rs)
       else (case map_of (subject_deletes org eu lu) m of None \<Rightarrow> rs | Some w \<Rightarrow> filter_mset (\<lambda>r. \<not> w r) rs))
    | Some w \<Rightarrow> filter_mset (\<lambda>r. \<not> w r)
      (if m = ToolCallAudit then image_mset (\<lambda>r. if auditSubjectWhere org eu lu r then anonymized r else r)
         (case map_of (subject_deletes org eu lu) m of None \<Rightarrow> rs | Some w \<Rightarrow> filter_mset (\<lambda>r. \<not> w r) rs)
       else (case map_of (subject_deletes org eu lu) m of None \<Rightarrow> rs | Some w \<Rightarrow> filter_mset (\<lambda>r. \<not> w r) rs)))
   = erased_rows org eu lu m rs"
  by (cases m; cases "eu = []") (simp_all add: erased_rows_def subject_deletes_def identity_deletes_def)

context tenancy_database
begin

lemma transaction_rows:
  assumes "subject_transaction P org eu lu (out, [], s) = Inr (out', ids, s')"
    and "unique_ids (rows ToolCallAudit s)"
  shows "rows m s' = erased_rows org eu lu m (rows m s)"
    and "\<exists>rs. ids = map row_id rs \<and> mset rs = filter_mset (auditSubjectWhere org eu lu) (rows ToolCallAudit s)"
proof -
  from assms(1) obtain o1 i1 s1 o2 i2 s2 where
    d: "tx_deletes P (subject_deletes org eu lu) (out, [], s) = Inr (o1, i1, s1)"
    and a: "tx_audits P (auditSubjectWhere org eu lu) (o1, i1, s1) = Inr (o2, i2, s2)"
    and e: "tx_deletes P (identity_deletes eu) (o2, i2, s2) = Inr (out', ids, s')"
    unfolding subject_transaction_def tx_bind_Inr by (auto split: option.splits)
  note d' = tx_deletes_rows [OF d]
  have dd: "distinct (map fst (subject_deletes org eu lu))" "distinct (map fst (identity_deletes eu))"
    by (simp_all add: subject_deletes_def identity_deletes_def)
  have audits1: "rows ToolCallAudit s1 = rows ToolCallAudit s"
    using d' [OF dd(1), of ToolCallAudit] by (simp add: subject_deletes_def)
  then have u: "unique_ids (rows ToolCallAudit s1)" using assms(2) by simp
  note a' = tx_audits_rows [OF a u]
  note e' = tx_deletes_rows [OF e dd(2)]
  show "rows m s' = erased_rows org eu lu m (rows m s)"
    unfolding conjunct2 [OF e' [of m]] a'(1) [of m] conjunct2 [OF d' [OF dd(1), of m]]
    by (rule erased_rows_stages)
  show "\<exists>rs. ids = map row_id rs \<and> mset rs = filter_mset (auditSubjectWhere org eu lu) (rows ToolCallAudit s)"
    using a'(2) e' d' [OF dd(1), of ToolCallAudit] audits1 by auto
qed

lemma count_zero:
  assumes "count_rows P m w s = Inr n" "\<forall>r. r \<in># rows m s \<longrightarrow> \<not> w r"
  shows "n = 0"
proof -
  from assms(1) obtain rs where rs: "findMany (pg_table P m) w s = Inr rs" "n = length rs"
    by (auto simp: count_rows_def map_res_Inr)
  then show ?thesis using many_iff [OF rs(1)] assms(2) by (metis last_in_set list.size(3))
qed

lemma no_audit_left:
  assumes "rows ToolCallAudit s' = erased_rows org eu lu ToolCallAudit m0"
  shows "\<forall>r. r \<in># rows ToolCallAudit s' \<longrightarrow> \<not> auditSubjectWhere org eu lu r"
  using assms by (auto simp: erased_rows_def anonymized_clean split: if_splits)

text \<open>Every retained audit is found again and found content-free.\<close>

lemma retained_all_clean:
  assumes rs: "mset rs = filter_mset (auditSubjectWhere org eu lu) m0" "unique_ids m0"
    and rows: "rows ToolCallAudit s' = erased_rows org eu lu ToolCallAudit m0"
    and c: "retained_content_free P org (map row_id rs) s' = Inr n"
  shows "n = length rs"
proof (cases "rs = []")
  case True
  with c show ?thesis by (simp add: retained_content_free_def)
next
  case False
  let ?w = "\<lambda>r. row_id r \<in> set (map row_id rs) \<and> row_organizationId r = org"
  let ?h = "\<lambda>r. if auditSubjectWhere org eu lu r then anonymized r else r"
  from c False obtain fs where fs: "findMany (pg_table P ToolCallAudit) ?w s' = Inr fs"
    and n: "n = length (filter isContentFreeAudit fs)"
    by (auto simp: retained_content_free_def map_res_Inr)
  have w: "?w (?h r) \<longleftrightarrow> auditSubjectWhere org eu lu r" if "r \<in># m0" for r
  proof -
    have "set rs = {r \<in> set_mset m0. auditSubjectWhere org eu lu r}"
      using arg_cong [OF rs(1), of set_mset] by simp
    moreover have "auditSubjectWhere org eu lu r \<Longrightarrow> row_organizationId r = org"
      by (simp add: auditSubjectWhere_def)
    moreover have "r' = r" if "r' \<in># m0" "row_id r' = row_id r" for r'
      using rs(2) \<open>r \<in># m0\<close> that unfolding unique_ids_def by metis
    ultimately show ?thesis using that by (auto split: if_splits)
  qed
  have "mset fs = filter_mset ?w (image_mset ?h m0)"
    using prisma_table.many [OF tables fs] rows by (simp add: erased_rows_def)
  also have "\<dots> = image_mset ?h (filter_mset (\<lambda>r. ?w (?h r)) m0)"
    by (simp add: filter_mset_image_mset comp_def)
  also have "filter_mset (\<lambda>r. ?w (?h r)) m0 = filter_mset (auditSubjectWhere org eu lu) m0"
    using w by (intro filter_mset_cong) auto
  finally have m: "mset fs = image_mset ?h (mset rs)" using rs(1) by simp
  have "set rs = {r \<in> set_mset m0. auditSubjectWhere org eu lu r}" "set fs = ?h ` set rs"
    using arg_cong [OF rs(1), of set_mset] arg_cong [OF m, of set_mset] by simp_all
  then have "\<forall>f \<in> set fs. isContentFreeAudit f" by (auto simp: anonymized_clean)
  then have "filter isContentFreeAudit fs = fs" by simp
  moreover have "length fs = length rs" using arg_cong [OF m, of size] by simp
  ultimately show ?thesis using n by simp
qed

lemma counts_zero:
  assumes c: "negative_counts P org eu lu (map row_id rs) s' = Inr c"
    and rows: "\<And>m. rows m s' = erased_rows org eu lu m (rows m s)"
    and rs: "mset rs = filter_mset (auditSubjectWhere org eu lu) (rows ToolCallAudit s)"
    and u: "unique_ids (rows ToolCallAudit s)"
  shows "ct_threads c + ct_memories c + ct_audits c + ct_safetyEvents c + ct_endUsers c = 0"
proof -
  from c obtain t m a k v e where
    t: "count_rows P Thread (subjectWhere eu) s' = Inr t" and m: "count_rows P Memory (subjectWhere eu) s' = Inr m"
    and a: "count_rows P ToolCallAudit (auditSubjectWhere org eu lu) s' = Inr a"
    and k: "retained_content_free P org (map row_id rs) s' = Inr k"
    and v: "count_rows P SafetyEvent (safetySubjectWhere org eu lu) s' = Inr v"
    and e: "(if eu \<noteq> [] then count_rows P EndUser (\<lambda>r. row_id r \<in> set eu) s' else Inr 0) = Inr e"
    and cc: "c = \<lparr>ct_threads = int t, ct_memories = int m, ct_audits = int a + (int (length rs) - int k),
         ct_safetyEvents = int v, ct_endUsers = int e\<rparr>"
    unfolding negative_counts_def res_bind_Inr by auto
  have "t = 0" "m = 0" "v = 0"
    using rows [of Thread] rows [of Memory] rows [of SafetyEvent]
    by (auto intro!: count_zero [OF t] count_zero [OF m] count_zero [OF v] simp: erased_rows_def)
  moreover have "e = 0"
  proof (cases "eu = []")
    case False
    with e have "count_rows P EndUser (\<lambda>r. row_id r \<in> set eu) s' = Inr e" by simp
    then show ?thesis by (rule count_zero) (simp add: rows erased_rows_def)
  qed (use e in simp)
  moreover have "a = 0" by (rule count_zero [OF a no_audit_left [OF rows]])
  moreover have "k = length rs" by (rule retained_all_clean [OF rs u rows k])
  ultimately show ?thesis by (simp add: cc)
qed

end

section \<open>The repository's database double\<close>

type_synonym tenancy_db = "model \<Rightarrow> db_row list"

definition double_pg :: "(tenancy_db \<Rightarrow> db_error option) \<Rightarrow> tenancy_db pg_client" where
  "double_pg commit = \<lparr>pg_table = (\<lambda>m. focus (\<lambda>d. d m) (\<lambda>rs d. d(m := rs)) (double_table row_id)),
     pg_commit = commit\<rparr>"

interpretation pg: tenancy_database "double_pg commit" "\<lambda>m d. mset (d m)"
proof (unfold tenancy_database_def, intro conjI allI impI)
  show "prisma_table (pg_table (double_pg commit) m) (\<lambda>d. mset (d m)) row_id" for m
    by (simp add: double_pg_def focus_double)
qed (auto simp: double_pg_def focus_def map_res_Inr)

section \<open>Properties\<close>


text \<open>The counters are kept when the transaction is rolled back: a failed outcome can report
  deletions that did not happen.\<close>

definition w_row :: db_row where
  "w_row = \<lparr>row_id = ''r1'', row_endUserId = Some ''u1'', row_organizationId = ''o'',
     row_arguments = JObj [(''__platosAudit'', JObj [(''userId'', JStr ''ada'')])], row_result = JStr ''x'',
     row_error = None, row_metadata = JNull\<rparr>"

definition w_db :: tenancy_db where
  "w_db m = (if m = ToolCallAudit then [w_row, w_row\<lparr>row_id := ''r2'', row_endUserId := Some ''u2'',
     row_arguments := JObj []\<rparr>] else if m = Thread then [w_row] else [])"

definition w_erased :: subject_keys where
  "w_erased = \<lparr>platosEndUserIds = [''u1''], legacyUserIds = [''ada''], scopes = []\<rparr>"

lemma rolled_back_counts_reported:
  "case postgresExecutor (\<lambda>_. ''E'') (double_pg (\<lambda>_. Some Rejected)) ''o'' w_erased w_db of
     (Returned o1, d) \<Rightarrow> so_deleted o1 = 1 \<and> so_status o1 = SFailed \<and> length (d Thread) = 1 | _ \<Rightarrow> False"
  by code_simp

section \<open>Witnesses\<close>


end
