(* ===== verification/ErasureAudit.thy ===== *)
theory ErasureAudit
  imports ErasureQueue
begin

text \<open>
  The admin-audit records of an erasure (\<open>apps/agent/src/privacy/erasure-audit.ts\<close>): who asked,
  what was refused, what each store did; and the guard that scans the serialised record for
  the subject's identifiers. Payloads are JSON values, \<open>ns\<close> prints a number.
\<close>

section \<open>Records\<close>

definition ERASURE_AUDIT_SUBJECT_TYPE :: string where
  "ERASURE_AUDIT_SUBJECT_TYPE = ''privacy.erasure_subject''"

datatype audit_action = Requested | Finished | Refused | Inventoried

definition action_text :: "audit_action \<Rightarrow> string" where
  "action_text a = (case a of Requested \<Rightarrow> ''privacy.erasure.requested'' | Finished \<Rightarrow> ''privacy.erasure.finished''
     | Refused \<Rightarrow> ''privacy.erasure.refused'' | Inventoried \<Rightarrow> ''privacy.erasure.inventoried'')"

datatype erasure_cause = CauseRequest | CauseOperatorRetry | CauseQueueResume

definition cause_text :: "erasure_cause \<Rightarrow> string" where
  "cause_text c = (case c of CauseRequest \<Rightarrow> ''request'' | CauseOperatorRetry \<Rightarrow> ''operator-retry''
     | CauseQueueResume \<Rightarrow> ''queue-resume'')"

definition coverage_text :: "resume_coverage \<Rightarrow> string" where
  "coverage_text c = (case c of Full \<Rightarrow> ''full'' | LocatorsOnly \<Rightarrow> ''locators_only'')"

definition status_text :: "erasure_status \<Rightarrow> string" where
  "status_text s = (case s of Pending \<Rightarrow> ''pending'' | Running \<Rightarrow> ''running'' | BlockedLegalHold \<Rightarrow> ''blocked_legal_hold''
     | PartialFailure \<Rightarrow> ''partial_failure'' | Completed \<Rightarrow> ''completed'' | VerificationFailed \<Rightarrow> ''verification_failed'')"

definition store_text :: "store_name \<Rightarrow> string" where
  "store_text s = (case s of Postgres \<Rightarrow> ''postgres'' | Redis \<Rightarrow> ''redis'' | Clickhouse \<Rightarrow> ''clickhouse'' | Minio \<Rightarrow> ''minio'')"

definition store_status_text :: "store_status \<Rightarrow> string" where
  "store_status_text s = (case s of SPending \<Rightarrow> ''pending'' | SRunning \<Rightarrow> ''running'' | SDone \<Rightarrow> ''done''
     | SFailed \<Rightarrow> ''failed'' | SNotProvisioned \<Rightarrow> ''not_provisioned'')"

definition verification_text :: "verification_status \<Rightarrow> string" where
  "verification_text v = (case v of VNotRun \<Rightarrow> ''not_run'' | VPending \<Rightarrow> ''pending'' | VPassed \<Rightarrow> ''passed''
     | VFailed \<Rightarrow> ''failed'' | VUnknown \<Rightarrow> ''unknown'' | VNotApplicable \<Rightarrow> ''not_applicable'')"

record audit_actor =
  ac_credentialId :: string
  ac_userId :: "string option"
  ac_environmentId :: string
  ac_projectId :: string

record audit_entry =
  ae_action :: audit_action
  ae_subjectId :: string
  ae_reason :: string
  ae_payload :: jsval

definition js_int :: "int \<Rightarrow> jsval" where
  "js_int n = JNum (Fin (of_int n))"

definition or_null :: "string option \<Rightarrow> jsval" where
  "or_null v = (case v of None \<Rightarrow> JNull | Some s \<Rightarrow> JStr s)"

definition storeAuditSummary :: "store_outcome list \<Rightarrow> jsval list" where
  "storeAuditSummary stores = map (\<lambda>s. JObj [(''store'', JStr (store_text (so_store s))),
     (''status'', JStr (store_status_text (so_status s))), (''verification'', JStr (verification_text (so_verification s))),
     (''discovered'', js_int (so_discovered s)), (''deleted'', js_int (so_deleted s)),
     (''anonymized'', js_int (so_anonymized s)), (''retained'', js_int (so_retained s)),
     (''failures'', js_int (so_failures s)), (''note'', or_null (so_note s))]) stores"

definition auditEnvironments :: "subject_scope list \<Rightarrow> string option \<Rightarrow> string list" where
  "auditEnvironments scs fallback =
     (let ids = nub (filter (\<lambda>e. e \<noteq> []) (map environmentId scs)) in
      sort (if ids = [] then (case fallback of Some f \<Rightarrow> if f \<noteq> [] then [f] else [] | None \<Rightarrow> []) else ids))"

definition retentionSummary :: "int \<Rightarrow> int \<Rightarrow> jsval" where
  "retentionSummary anonymized retained = JObj [(''class'', JStr ''erasure-evidence''),
     (''retainedIndefinitely'', JBool True), (''barrierClass'', JStr ''erasure-barrier''),
     (''anonymizedRecords'', js_int anonymized), (''retainedAggregates'', js_int retained)]"

definition contentFreeInventory :: "(string \<times> jsval) list \<Rightarrow> jsval" where
  "contentFreeInventory inventory =
     JObj (filter (\<lambda>(k, v). case v of JNum x \<Rightarrow> is_finite x | _ \<Rightarrow> False) inventory)"

definition actor_json :: "audit_actor \<Rightarrow> jsval" where
  "actor_json a = JObj [(''credentialId'', JStr (ac_credentialId a)), (''userId'', or_null (ac_userId a))]"

definition requestedAudit :: "string \<Rightarrow> string \<Rightarrow> string \<Rightarrow> erasure_cause \<Rightarrow> resume_coverage \<Rightarrow> audit_actor
    \<Rightarrow> (string \<times> jsval) list \<Rightarrow> store_name list \<Rightarrow> nat \<Rightarrow> audit_entry" where
  "requestedAudit operationId keyHash policyVersion cause coverage actor inventory stores retryCount =
     \<lparr>ae_action = Requested, ae_subjectId = keyHash,
      ae_reason = cause_text cause @ '' (pass '' @ show_nat (retryCount + 1) @ '')'',
      ae_payload = JObj [(''operationId'', JStr operationId), (''policyVersion'', JStr policyVersion),
        (''cause'', JStr (cause_text cause)), (''coverage'', JStr (coverage_text coverage)),
        (''targetStores'', JArr (map (\<lambda>s. JStr (store_text s)) stores)),
        (''pass'', js_int (int retryCount + 1)), (''actor'', actor_json actor),
        (''inventory'', contentFreeInventory inventory), (''retention'', retentionSummary 0 0)]\<rparr>"

definition finishedAudit :: "erasure_receipt \<Rightarrow> erasure_cause \<Rightarrow> resume_coverage \<Rightarrow> audit_actor \<Rightarrow> string option
    \<Rightarrow> audit_entry" where
  "finishedAudit receipt cause coverage actor nextRetryAt =
     \<lparr>ae_action = Finished, ae_subjectId = er_subjectKeyHash receipt,
      ae_reason = cause_text cause @ '': '' @ status_text (er_status receipt),
      ae_payload = JObj [(''operationId'', JStr (er_operationId receipt)),
        (''policyVersion'', JStr (er_policyVersion receipt)), (''status'', JStr (status_text (er_status receipt))),
        (''cause'', JStr (cause_text cause)), (''coverage'', JStr (coverage_text coverage)),
        (''pass'', js_int (int (er_retryCount receipt))), (''requestedAt'', JStr (er_requestedAt receipt)),
        (''startedAt'', or_null (er_startedAt receipt)), (''completedAt'', or_null (er_completedAt receipt)),
        (''nextRetryAt'', or_null nextRetryAt), (''legalHoldPolicyId'', or_null (er_legalHoldPolicyId receipt)),
        (''actor'', actor_json actor), (''stores'', JArr (storeAuditSummary (er_stores receipt))),
        (''retention'', retentionSummary (sum_list (map so_anonymized (er_stores receipt)))
           (sum_list (map so_retained (er_stores receipt))))]\<rparr>"

definition refusedAudit :: "string \<Rightarrow> string \<Rightarrow> audit_actor \<Rightarrow> string option \<Rightarrow> string option \<Rightarrow> string option
    \<Rightarrow> audit_entry" where
  "refusedAudit keyHash reason actor operationId policyVersion legalHoldPolicyId =
     \<lparr>ae_action = Refused, ae_subjectId = keyHash, ae_reason = reason,
      ae_payload = JObj [(''operationId'', or_null operationId), (''policyVersion'', or_null policyVersion),
        (''refusal'', JStr reason), (''legalHoldPolicyId'', or_null legalHoldPolicyId),
        (''actor'', actor_json actor), (''retention'', retentionSummary 0 0)]\<rparr>"

definition inventoriedAudit :: "string \<Rightarrow> string \<Rightarrow> audit_actor \<Rightarrow> (string \<times> jsval) list \<Rightarrow> nat \<Rightarrow> audit_entry" where
  "inventoriedAudit keyHash policyVersion actor inventory resolvedEndUsers =
     \<lparr>ae_action = Inventoried, ae_subjectId = keyHash, ae_reason = ''subject inventory read'',
      ae_payload = JObj [(''policyVersion'', JStr policyVersion), (''resolvedEndUsers'', js_int (int resolvedEndUsers)),
        (''inventory'', contentFreeInventory inventory), (''actor'', actor_json actor),
        (''retention'', retentionSummary 0 0)]\<rparr>"

definition entry_json :: "audit_entry \<Rightarrow> jsval" where
  "entry_json e = JObj [(''action'', JStr (action_text (ae_action e))), (''subjectType'', JStr ERASURE_AUDIT_SUBJECT_TYPE),
     (''subjectId'', JStr (ae_subjectId e)), (''source'', JStr ''api''), (''reason'', JStr (ae_reason e)),
     (''payload'', ae_payload e)]"

definition entry_blob :: "(rat \<Rightarrow> string) \<Rightarrow> audit_entry \<Rightarrow> string" where
  "entry_blob ns e = (case stringify ns (entry_json e) of None \<Rightarrow> [] | Some b \<Rightarrow> b)"

definition assertAuditContentFree :: "(rat \<Rightarrow> string) \<Rightarrow> audit_entry \<Rightarrow> string list \<Rightarrow> string + unit" where
  "assertAuditContentFree ns e forbidden =
     (if list_ex (\<lambda>needle. needle \<noteq> [] \<and> str_includes (entry_blob ns e) needle) forbidden
      then Inl (''erasure audit '' @ action_text (ae_action e)
             @ '' would leak a subject identifier; refusing to record'')
      else Inr ())"

section \<open>Every string of a value is in its text\<close>

fun js_strings :: "jsval \<Rightarrow> string list" and items_strings :: "jsval list \<Rightarrow> string list"
  and fields_strings :: "(string \<times> jsval) list \<Rightarrow> string list" where
  "js_strings (JStr s) = [s]"
| "js_strings (JArr xs) = items_strings xs"
| "js_strings (JObj fs) = fields_strings fs"
| "js_strings v = []"
| "items_strings [] = []"
| "items_strings (x # xs) = js_strings x @ items_strings xs"
| "fields_strings [] = []"
| "fields_strings ((k, v) # fs) = js_strings v @ fields_strings fs"

lemma includes_after: "str_includes x n \<Longrightarrow> str_includes (a @ c # x) n"
  using includes_append_left [of x n "a @ [c]"] by simp

lemma strings_stringified:
  assumes "list_all json_plain n"
  shows "s \<in> set (js_strings v) \<Longrightarrow> str_includes s n \<Longrightarrow> \<exists>t. stringify ns v = Some t \<and> str_includes t n"
    and "s \<in> set (items_strings xs) \<Longrightarrow> str_includes s n \<Longrightarrow> \<exists>t \<in> set (stringify_items ns xs). str_includes t n"
    and "s \<in> set (fields_strings fs) \<Longrightarrow> str_includes s n \<Longrightarrow> \<exists>t \<in> set (stringify_fields ns fs). str_includes t n"
proof (induction v and xs and fs rule: js_strings_items_strings_fields_strings.induct)
  case (1 s')
  then show ?case using json_quote_includes [OF assms, of s'] by simp
next
  case (2 xs)
  then obtain t where "t \<in> set (stringify_items ns xs)" "str_includes t n" by auto
  then have "str_includes (join '','' (stringify_items ns xs)) n" by (rule join_includes)
  then show ?case
    using includes_append_right [of "''['' @ join '','' (stringify_items ns xs)" n "'']''"]
      includes_append_left [of "join '','' (stringify_items ns xs)" n "''[''"]
    by simp
next
  case (3 fs)
  then obtain t where "t \<in> set (stringify_fields ns fs)" "str_includes t n" by auto
  then have "str_includes (join '','' (stringify_fields ns fs)) n" by (rule join_includes)
  then show ?case
    using includes_append_right [of "''{'' @ join '','' (stringify_fields ns fs)" n "''}''"]
      includes_append_left [of "join '','' (stringify_fields ns fs)" n "''{''"]
    by simp
qed (auto split: option.splits intro: includes_after)

section \<open>Properties\<close>

lemma audit_guard_strings:
  assumes "needle \<in> set forbidden" "needle \<noteq> []" "list_all json_plain needle"
    and "s \<in> set (js_strings (entry_json e))" "str_includes s needle"
  shows "\<exists>msg. assertAuditContentFree ns e forbidden = Inl msg"
proof -
  from strings_stringified(1) [OF assms(3,4,5)] have "str_includes (entry_blob ns e) needle"
    unfolding entry_blob_def by (metis option.simps(5))
  with assms(1,2) show ?thesis by (auto simp: assertAuditContentFree_def list_ex_iff)
qed

text \<open>
  Nothing the audit trail records names the subject. If a forbidden identifier, written
  in characters JSON does not escape, occurs in any string of an audit record, whether its
  reason, its subject handle or any string anywhere in the payload, the guard refuses the
  record; so whatever is written contains none of the identifiers.
\<close>

lemma audit_guard_catches:
  assumes "assertAuditContentFree ns e forbidden = Inr ()"
    and "needle \<in> set forbidden" "needle \<noteq> []" "list_all json_plain needle"
  shows "\<forall>s \<in> set (js_strings (entry_json e)). \<not> str_includes s needle"
proof (intro ballI notI)
  fix s assume "s \<in> set (js_strings (entry_json e))" "str_includes s needle"
  from audit_guard_strings [OF assms(2-4) this, of ns] assms(1) show False by simp
qed

definition w_actor :: audit_actor where
  "w_actor = \<lparr>ac_credentialId = ''cred'', ac_userId = None, ac_environmentId = ''env'', ac_projectId = ''prj''\<rparr>"

end
