(* ===== verification/RedisKeys.thy ===== *)
theory RedisKeys
  imports SubjectGraph Table
begin

text \<open>
  The subject's Redis surface (\<open>apps/agent/src/privacy/redis-keys.ts\<close>): which patterns are
  scanned, which keys are deleted and which aggregates are kept. The client prefixes key
  arguments but neither patterns nor replies, so a scanned key has to be stripped before it
  is deleted and a pattern prefixed before it is scanned.

  The Redis client is not part of the repository. Its interface is the record
  \<open>redis_client\<close> with the locale \<open>ioredis\<close>: what a scan returns, what an existence probe
  means and what a deletion may at most remove. \<open>redis_double\<close> models the client the
  repository tests with and satisfies it.
\<close>

section \<open>Keys and patterns\<close>

definition REDIS_KEY_PREFIX :: string where
  "REDIS_KEY_PREFIX = ''platos:''"

definition toDeletableKey :: "string \<Rightarrow> string" where
  "toDeletableKey scannedKey =
     (if starts_with REDIS_KEY_PREFIX scannedKey then drop (length REDIS_KEY_PREFIX) scannedKey
      else scannedKey)"

definition toWireKey :: "string \<Rightarrow> string" where
  "toWireKey logicalKey =
     (if starts_with REDIS_KEY_PREFIX logicalKey then logicalKey else REDIS_KEY_PREFIX @ logicalKey)"

record redis_subject_refs =
  rr_threadIds :: "string list"
  rr_legacyUserIds :: "string list"
  rr_platosEndUserIds :: "string list"
  rr_scopes :: "subject_scope list"

definition redis_scope :: "subject_scope \<Rightarrow> string" where
  "redis_scope s = organizationId s @ '':'' @ projectId s @ '':'' @ environmentId s"

definition thread_patterns :: "string \<Rightarrow> string list" where
  "thread_patterns t = (if t = [] then [] else
     [''trace:thread:'' @ t, ''cost:thread:'' @ t, ''wm:'' @ t @ '':*'', ''chatsess:cursor:*:'' @ t])"

definition user_patterns :: "subject_scope \<Rightarrow> string \<Rightarrow> string list" where
  "user_patterns s u = (if u = [] then [] else
     [''cost:user:'' @ redis_scope s @ '':'' @ u @ '':*'', ''rl:day:'' @ redis_scope s @ '':'' @ u @ '':*''])"

definition subjectKeyPatterns :: "redis_subject_refs \<Rightarrow> string list" where
  "subjectKeyPatterns refs = sort (nub (concat (map thread_patterns (rr_threadIds refs))
     @ concat (map (\<lambda>s. concat (map (user_patterns s) (rr_legacyUserIds refs))) (rr_scopes refs))))"

definition wireScanPatterns :: "redis_subject_refs \<Rightarrow> string list" where
  "wireScanPatterns refs = map toWireKey (subjectKeyPatterns refs)"

definition retainedAggregatePatterns :: "redis_subject_refs \<Rightarrow> string list" where
  "retainedAggregatePatterns refs = sort (nub (concat (map (\<lambda>s.
     [''cost:scope:'' @ redis_scope s @ '':*'', ''cost:agent:'' @ redis_scope s @ '':*'']) (rr_scopes refs))))"

definition isRetainedAggregateKey :: "string \<Rightarrow> bool" where
  "isRetainedAggregateKey key =
     (let k = toDeletableKey key in starts_with ''cost:scope:'' k \<or> starts_with ''cost:agent:'' k)"

definition planDeletions :: "string list \<Rightarrow> string list \<times> string list" where
  "planDeletions scannedKeys =
     (let kept = filter (\<lambda>raw. raw \<noteq> []) scannedKeys in
      (sort (nub (map toDeletableKey (filter (\<lambda>raw. \<not> isRetainedAggregateKey raw) kept))),
       sort (nub (map toDeletableKey (filter isRetainedAggregateKey kept)))))"

section \<open>The client\<close>

record 's redis_client =
  redis_keys :: "string \<Rightarrow> 's \<Rightarrow> unit + string list"
  redis_del :: "string \<Rightarrow> 's \<Rightarrow> (unit + nat) \<times> 's"
  redis_exists :: "string \<Rightarrow> 's \<Rightarrow> unit + nat"

text \<open>Matching of a pattern whose only wildcard is the star.\<close>

fun star_match :: "string \<Rightarrow> string \<Rightarrow> bool" where
  "star_match [] k = (k = [])"
| "star_match (p # ps) [] = (p = CHR ''*'' \<and> star_match ps [])"
| "star_match (p # ps) (c # cs) =
     (if p = CHR ''*'' then star_match ps (c # cs) \<or> star_match (p # ps) cs
      else c = p \<and> star_match ps cs)"

definition glob_meta :: "char set" where
  "glob_meta = {CHR ''?'', CHR ''['', CHR 0x5C}"

definition star_only :: "string \<Rightarrow> bool" where
  "star_only p \<longleftrightarrow> set p \<inter> glob_meta = {}"

locale ioredis =
  fixes C :: "'s redis_client" and wire :: "'s \<Rightarrow> string set" and glob :: "string \<Rightarrow> string \<Rightarrow> bool"
  assumes glob_star: "star_only p \<Longrightarrow> glob p k = star_match p k"
    and scanned: "redis_keys C p s = Inr ks \<Longrightarrow> set ks = {k \<in> wire s. glob p k}"
    and probed: "redis_exists C k s = Inr n \<Longrightarrow> 0 < n \<longleftrightarrow> REDIS_KEY_PREFIX @ k \<in> wire s"
    and removed: "redis_del C k s = (r, s') \<Longrightarrow> wire s' \<subseteq> wire s \<and> wire s - wire s' \<subseteq> {REDIS_KEY_PREFIX @ k}"

section \<open>Lemmas\<close>

lemma star_match_literal:
  "CHR ''*'' \<notin> set l \<Longrightarrow> star_match (l @ ps) k \<longleftrightarrow> (\<exists>k'. k = l @ k' \<and> star_match ps k')"
proof (induction l arbitrary: k)
  case (Cons c l)
  then show ?case by (cases k) auto
qed simp

lemma star_match_star [simp]: "star_match ''*'' k"
  by (induction k) auto

lemma star_match_prefix: "star_match (p # ps) k \<Longrightarrow> p \<noteq> CHR ''*'' \<Longrightarrow> \<exists>k'. k = p # k' \<and> star_match ps k'"
  by (cases k) auto

lemma toDeletableKey_wire: "toDeletableKey (REDIS_KEY_PREFIX @ k) = k"
  by (simp add: toDeletableKey_def starts_with_def)

lemma toWireKey_prefixed: "\<exists>k. toWireKey p = REDIS_KEY_PREFIX @ k"
  by (auto simp: toWireKey_def starts_with_iff)

lemma set_planDeletions:
  "set (fst (planDeletions ks)) = toDeletableKey ` {k \<in> set ks. k \<noteq> [] \<and> \<not> isRetainedAggregateKey k}"
  "set (snd (planDeletions ks)) = toDeletableKey ` {k \<in> set ks. k \<noteq> [] \<and> isRetainedAggregateKey k}"
  by (auto simp: planDeletions_def js_collect)

lemma distinct_planDeletions: "distinct (fst (planDeletions ks))"
  by (simp add: planDeletions_def js_collect)

end
