(* ===== verification/ErasureStores.thy ===== *)
theory ErasureStores
  imports RedisKeys ErasureOrchestrator
begin

text \<open>
  The store executors of \<open>apps/agent/src/privacy/erasure.service.ts\<close> for object storage and
  Redis: delete, then probe, then report. Every call of a client may fail; an executor
  counts the failures of the calls it guards with \<open>try\<close> and throws on the others.
\<close>

section \<open>Object storage\<close>

record 'w object_client =
  obj_available :: bool
  obj_delete :: "string \<Rightarrow> 'w \<Rightarrow> (unit + unit) \<times> 'w"
  obj_exists :: "string \<Rightarrow> 'w \<Rightarrow> unit + bool"

text \<open>The reads of the tenancy database the executors need: attachment keys and thread ids of
  a set of end users.\<close>

record 'w subject_reads =
  read_attachments :: "string list \<Rightarrow> 'w \<Rightarrow> string + string list"
  read_threads :: "string list \<Rightarrow> 'w \<Rightarrow> string + string list"

fun delete_objects :: "'w object_client \<Rightarrow> string list \<Rightarrow> store_outcome \<Rightarrow> 'w \<Rightarrow> store_outcome \<times> 'w" where
  "delete_objects A [] out w = (out, w)"
| "delete_objects A (k # ks) out w = (case obj_delete A k w of
     (Inr _, w') \<Rightarrow> delete_objects A ks (out\<lparr>so_deleted := so_deleted out + 1\<rparr>) w'
   | (Inl _, w') \<Rightarrow> delete_objects A ks (out\<lparr>so_failures := so_failures out + 1\<rparr>) w')"

fun object_survivors :: "'w object_client \<Rightarrow> string list \<Rightarrow> 'w \<Rightarrow> nat" where
  "object_survivors A [] w = 0"
| "object_survivors A (k # ks) w = (case obj_exists A k w of
     Inr present \<Rightarrow> (if present then 1 else 0) | Inl _ \<Rightarrow> 1) + object_survivors A ks w"

definition show_jsnum :: "jsnum \<Rightarrow> string" where
  "show_jsnum x = (case x of Fin q \<Rightarrow> show_nat (nat \<lfloor>q\<rfloor>) | PInf \<Rightarrow> ''Infinity'' | NInf \<Rightarrow> ''-Infinity'' | NaN \<Rightarrow> ''NaN'')"

definition minioExecutor ::
    "'w object_client option \<Rightarrow> 'w subject_reads \<Rightarrow> erasure_resume_plan option \<Rightarrow> 'w executor" where
  "minioExecutor attachments R plan subject w =
     (let out = pendingStore Minio in
      case attachments of
        None \<Rightarrow> (Returned (out\<lparr>so_status := SNotProvisioned, so_note := Some ''no object-store client wired''\<rparr>), w)
      | Some A \<Rightarrow>
        if \<not> obj_available A
        then (Returned (out\<lparr>so_status := SNotProvisioned, so_note := Some ''no object-store client wired''\<rparr>), w)
        else case read_attachments R (platosEndUserIds subject) w of
          Inl e \<Rightarrow> (Threw e, w)
        | Inr rows \<Rightarrow>
          let out = out\<lparr>so_discovered := int (length rows)\<rparr> in
          if objectMapLost plan (int (length rows))
          then (Returned (out\<lparr>so_status := SFailed, so_failures := 1, so_verification := VUnknown,
                 so_note := Some (show_jsnum (rp_attachmentObjects (the plan))
                   @ '' objects seen before the sweep are no longer addressable; attachment key map deleted'')\<rparr>), w)
          else let (out, w) = delete_objects A rows out w;
                   survivors = object_survivors A rows w
               in (Returned (out\<lparr>so_verification := (if survivors = 0 then VPassed else VFailed),
                     so_note := Some (''verified '' @ show_nat (length rows - survivors) @ ''/''
                       @ show_nat (length rows) @ '' objects absent''),
                     so_status := (if so_failures out > 0 then SFailed else SDone)\<rparr>), w))"

section \<open>Redis\<close>

definition addressableThreadIds ::
    "'w subject_reads \<Rightarrow> subject_keys \<Rightarrow> erasure_resume_plan option \<Rightarrow> 'w \<Rightarrow> string + string list" where
  "addressableThreadIds R subject plan w =
     (case (if platosEndUserIds subject = [] then Inr [] else read_threads R (platosEndUserIds subject) w) of
        Inl e \<Rightarrow> Inl e
      | Inr discovered \<Rightarrow>
          Inr (sort (nub (discovered @ (case plan of None \<Rightarrow> [] | Some p \<Rightarrow> rp_threadIds p)))))"

fun scan_patterns :: "'w redis_client \<Rightarrow> string list \<Rightarrow> 'w \<Rightarrow> string list \<times> nat" where
  "scan_patterns C [] w = ([], 0)"
| "scan_patterns C (p # ps) w = (let (scanned, unscanned) = scan_patterns C ps w in
     case redis_keys C p w of Inr found \<Rightarrow> (found @ scanned, unscanned) | Inl _ \<Rightarrow> (scanned, Suc unscanned))"

fun delete_keys :: "'w redis_client \<Rightarrow> string list \<Rightarrow> store_outcome \<Rightarrow> 'w \<Rightarrow> store_outcome \<times> 'w" where
  "delete_keys C [] out w = (out, w)"
| "delete_keys C (k # ks) out w = (case redis_del C k w of
     (Inr _, w') \<Rightarrow> delete_keys C ks (out\<lparr>so_deleted := so_deleted out + 1\<rparr>) w'
   | (Inl _, w') \<Rightarrow> delete_keys C ks (out\<lparr>so_failures := so_failures out + 1\<rparr>) w')"

fun key_survivors :: "'w redis_client \<Rightarrow> string list \<Rightarrow> 'w \<Rightarrow> nat" where
  "key_survivors C [] w = 0"
| "key_survivors C (k # ks) w = (case redis_exists C k w of
     Inr n \<Rightarrow> (if 0 < n then 1 else 0) | Inl _ \<Rightarrow> 1) + key_survivors C ks w"

definition redis_refs :: "subject_keys \<Rightarrow> string list \<Rightarrow> redis_subject_refs" where
  "redis_refs subject threadIds = \<lparr>rr_threadIds = threadIds, rr_legacyUserIds = legacyUserIds subject,
     rr_platosEndUserIds = platosEndUserIds subject, rr_scopes = scopes subject\<rparr>"

definition redis_report :: "redis_subject_refs \<Rightarrow> nat \<Rightarrow> nat \<Rightarrow> store_outcome \<Rightarrow> store_outcome" where
  "redis_report refs survivors unscanned out =
     (let summary = show_nat (nat (so_deleted out)) @ '' deleted, '' @ show_nat (nat (so_retained out))
            @ '' aggregate keys retained ('' @ show_nat (length (retainedAggregatePatterns refs))
            @ '' patterns); '' @ show_nat survivors @ '' survivors''
      in out\<lparr>so_verification := (if survivors > 0 then VFailed else if unscanned > 0 then VUnknown else VPassed),
           so_status := (if so_failures out > 0 then SFailed else SDone),
           so_note := Some (if unscanned > 0
             then appendNote (Some summary) (show_nat unscanned @ '' patterns could not be scanned'')
             else summary)\<rparr>)"

definition redisExecutor ::
    "'w redis_client \<Rightarrow> 'w subject_reads \<Rightarrow> erasure_resume_plan option \<Rightarrow> 'w executor" where
  "redisExecutor C R plan subject w =
     (case addressableThreadIds R subject plan w of
        Inl e \<Rightarrow> (Threw e, w)
      | Inr threadIds \<Rightarrow>
          let refs = redis_refs subject threadIds;
              (scanned, unscanned) = scan_patterns C (wireScanPatterns refs) w;
              (deletable, retained) = planDeletions scanned;
              out = (pendingStore Redis)\<lparr>so_failures := int unscanned,
                so_discovered := int (length deletable + length retained),
                so_retained := int (length retained)\<rparr>;
              (out, w) = delete_keys C deletable out w
          in (Returned (redis_report refs (key_survivors C deletable w) unscanned out), w))"

section \<open>What a passed verification means\<close>

locale object_store =
  fixes A :: "'w object_client" and objects :: "'w \<Rightarrow> string set"
  assumes probe_sound: "obj_exists A k w = Inr False \<Longrightarrow> k \<notin> objects w"
    and delete_only: "obj_delete A k w = (r, w') \<Longrightarrow> objects w' \<subseteq> objects w \<and> objects w - objects w' \<subseteq> {k}"
begin

lemma no_survivors: "object_survivors A ks w = 0 \<Longrightarrow> k \<in> set ks \<Longrightarrow> k \<notin> objects w"
  by (induction ks) (auto split: sum.splits if_splits dest: probe_sound)

lemma delete_objects_only:
  "delete_objects A ks out w = (out', w') \<Longrightarrow> objects w' \<subseteq> objects w \<and> objects w - objects w' \<subseteq> set ks"
proof (induction ks arbitrary: out w)
  case (Cons k ks)
  obtain r w1 where d: "obj_delete A k w = (r, w1)" by fastforce
  then obtain out1 where "delete_objects A ks out1 w1 = (out', w')"
    using Cons.prems by (auto split: sum.splits)
  from Cons.IH [OF this] delete_only [OF d] show ?case by auto
qed simp

end

context ioredis
begin

lemma survivors_gone: "key_survivors C ks w = 0 \<Longrightarrow> k \<in> set ks \<Longrightarrow> REDIS_KEY_PREFIX @ k \<notin> wire w"
proof (induction ks)
  case (Cons a ks)
  show ?case
  proof (cases "redis_exists C a w")
    case (Inr n)
    then show ?thesis using Cons probed [OF Inr] by (auto split: if_splits)
  qed (use Cons in simp)
qed simp

lemma delete_keys_only:
  "delete_keys C ks out w = (out', w') \<Longrightarrow>
     wire w' \<subseteq> wire w \<and> wire w - wire w' \<subseteq> (\<lambda>k. REDIS_KEY_PREFIX @ k) ` set ks"
proof (induction ks arbitrary: out w)
  case (Cons k ks)
  obtain r w1 where d: "redis_del C k w = (r, w1)" by fastforce
  then obtain out1 where "delete_keys C ks out1 w1 = (out', w')"
    using Cons.prems by (auto split: sum.splits)
  from Cons.IH [OF this] removed [OF d] show ?case by auto
qed simp

lemma scan_sound: "scan_patterns C ps w = (ks, n) \<Longrightarrow> k \<in> set ks \<Longrightarrow> k \<in> wire w \<and> (\<exists>p\<in>set ps. glob p k)"
proof (induction ps arbitrary: ks n)
  case (Cons p ps)
  obtain ks1 n1 where r: "scan_patterns C ps w = (ks1, n1)" by fastforce
  show ?case
  proof (cases "redis_keys C p w")
    case (Inr found)
    then show ?thesis using Cons scanned [OF Inr] r by auto
  qed (use Cons r in auto)
qed simp

lemma scan_complete:
  "scan_patterns C ps w = (ks, 0) \<Longrightarrow> k \<in> wire w \<Longrightarrow> p \<in> set ps \<Longrightarrow> glob p k \<Longrightarrow> k \<in> set ks"
proof (induction ps arbitrary: ks)
  case (Cons q ps)
  obtain ks1 n1 where r: "scan_patterns C ps w = (ks1, n1)" by fastforce
  show ?case
  proof (cases "redis_keys C q w")
    case (Inr found)
    with Cons.prems r have "n1 = 0" "ks = found @ ks1" by auto
    then show ?thesis using Cons scanned [OF Inr] r by auto
  qed (use Cons r in auto)
qed simp

end

section \<open>The subject's patterns\<close>

lemma subject_patterns_cases:
  assumes "p \<in> set (subjectKeyPatterns refs)"
  obtains t where "t \<in> set (rr_threadIds refs)" "t \<noteq> []" "p = ''trace:thread:'' @ t"
  | t where "t \<in> set (rr_threadIds refs)" "t \<noteq> []" "p = ''cost:thread:'' @ t"
  | t where "t \<in> set (rr_threadIds refs)" "t \<noteq> []" "p = ''wm:'' @ t @ '':*''"
  | t where "t \<in> set (rr_threadIds refs)" "t \<noteq> []" "p = ''chatsess:cursor:*:'' @ t"
  | s u where "s \<in> set (rr_scopes refs)" "u \<in> set (rr_legacyUserIds refs)" "u \<noteq> []"
      "p = ''cost:user:'' @ redis_scope s @ '':'' @ u @ '':*''"
  | s u where "s \<in> set (rr_scopes refs)" "u \<in> set (rr_legacyUserIds refs)" "u \<noteq> []"
      "p = ''rl:day:'' @ redis_scope s @ '':'' @ u @ '':*''"
  using assms
  by (auto simp: subjectKeyPatterns_def js_collect thread_patterns_def user_patterns_def split: if_splits)

lemma toWireKey_pattern:
  assumes "p \<in> set (subjectKeyPatterns refs)"
  shows "toWireKey p = REDIS_KEY_PREFIX @ p"
  using assms by (cases rule: subject_patterns_cases)
    (simp_all add: toWireKey_def starts_with_def REDIS_KEY_PREFIX_def)

lemma set_wireScanPatterns:
  "set (wireScanPatterns refs) = (\<lambda>p. REDIS_KEY_PREFIX @ p) ` set (subjectKeyPatterns refs)"
  by (auto simp: wireScanPatterns_def toWireKey_pattern)

lemma wire_match:
  "star_match (REDIS_KEY_PREFIX @ p) k \<longleftrightarrow> (\<exists>k'. k = REDIS_KEY_PREFIX @ k' \<and> star_match p k')"
  by (rule star_match_literal) (simp add: REDIS_KEY_PREFIX_def)

lemma star_match_Cons: "c \<noteq> CHR ''*'' \<Longrightarrow> star_match (c # ps) k \<longleftrightarrow> (\<exists>k'. k = c # k' \<and> star_match ps k')"
  by (cases k) auto

lemma pattern_not_aggregate:
  assumes "p \<in> set (subjectKeyPatterns refs)" "star_match p k"
  shows "\<not> starts_with ''cost:scope:'' k \<and> \<not> starts_with ''cost:agent:'' k"
  using assms by (cases rule: subject_patterns_cases)
    (auto simp: star_match_Cons starts_with_def)

definition plain_refs :: "redis_subject_refs \<Rightarrow> bool" where
  "plain_refs refs \<longleftrightarrow> (\<forall>t \<in> set (rr_threadIds refs) \<union> set (rr_legacyUserIds refs). star_only t)
     \<and> (\<forall>s \<in> set (rr_scopes refs). star_only (redis_scope s))"

lemma plain_pattern:
  assumes "plain_refs refs" "p \<in> set (subjectKeyPatterns refs)"
  shows "star_only (REDIS_KEY_PREFIX @ p)"
  using assms(2,1) by (cases rule: subject_patterns_cases)
    (auto simp: plain_refs_def star_only_def glob_meta_def REDIS_KEY_PREFIX_def)

text \<open>The keys of the wire keyspace that one of the subject's patterns selects.\<close>

definition subject_keyspace :: "redis_subject_refs \<Rightarrow> string set" where
  "subject_keyspace refs = {k. \<exists>p \<in> set (subjectKeyPatterns refs). star_match (REDIS_KEY_PREFIX @ p) k}"

lemma keyspace_shape:
  assumes "k \<in> subject_keyspace refs"
  obtains k' where "k = REDIS_KEY_PREFIX @ k'" "\<not> isRetainedAggregateKey k"
proof -
  from assms obtain p k' where "p \<in> set (subjectKeyPatterns refs)" "k = REDIS_KEY_PREFIX @ k'" "star_match p k'"
    by (auto simp: subject_keyspace_def wire_match)
  with pattern_not_aggregate [of p refs k'] that show ?thesis
    by (simp add: isRetainedAggregateKey_def toDeletableKey_wire)
qed

context ioredis
begin

lemma scan_keyspace:
  assumes "plain_refs refs" "scan_patterns C (wireScanPatterns refs) w = (ks, n)"
  shows "set ks \<subseteq> wire w \<inter> subject_keyspace refs" "n = 0 \<Longrightarrow> wire w \<inter> subject_keyspace refs \<subseteq> set ks"
  using scan_sound [OF assms(2)] scan_complete [of "wireScanPatterns refs" w ks] assms
  by (fastforce simp: set_wireScanPatterns subject_keyspace_def glob_star [OF plain_pattern])+

lemma deletable_keyspace:
  assumes "set ks \<subseteq> subject_keyspace refs"
  shows "(\<lambda>k. REDIS_KEY_PREFIX @ k) ` set (fst (planDeletions ks)) = set ks"
proof -
  have "k \<noteq> [] \<and> \<not> isRetainedAggregateKey k \<and> REDIS_KEY_PREFIX @ toDeletableKey k = k" if "k \<in> set ks" for k
  proof -
    from assms that have "k \<in> subject_keyspace refs" by auto
    then obtain k' where "k = REDIS_KEY_PREFIX @ k'" "\<not> isRetainedAggregateKey k" by (rule keyspace_shape)
    then show ?thesis by (auto simp: toDeletableKey_wire REDIS_KEY_PREFIX_def [symmetric])
      (simp add: REDIS_KEY_PREFIX_def)
  qed
  then show ?thesis by (force simp: set_planDeletions image_image)
qed

lemma redis_executor_split:
  assumes "redisExecutor C R plan subject w = (Returned o1, w')"
  obtains ts ks n out out' where "addressableThreadIds R subject plan w = Inr ts"
    "scan_patterns C (wireScanPatterns (redis_refs subject ts)) w = (ks, n)"
    "delete_keys C (fst (planDeletions ks)) out w = (out', w')"
    "o1 = redis_report (redis_refs subject ts) (key_survivors C (fst (planDeletions ks)) w') n out'"
  using assms
  by (auto simp: redisExecutor_def Let_def split: sum.splits prod.splits)

lemma redis_removes_only_subject:
  assumes "redisExecutor C R plan subject w = (Returned o1, w')"
    and "addressableThreadIds R subject plan w = Inr ts" "plain_refs (redis_refs subject ts)"
  shows "wire w' \<subseteq> wire w" "wire w - wire w' \<subseteq> subject_keyspace (redis_refs subject ts)"
proof -
  from assms(1) obtain ks n out out' where
    sc: "scan_patterns C (wireScanPatterns (redis_refs subject ts)) w = (ks, n)"
    and dl: "delete_keys C (fst (planDeletions ks)) out w = (out', w')"
    using assms(2) by (auto elim!: redis_executor_split)
  note ks = scan_keyspace(1) [OF assms(3) sc]
  have "(\<lambda>k. REDIS_KEY_PREFIX @ k) ` set (fst (planDeletions ks)) = set ks"
    using ks by (intro deletable_keyspace) auto
  with delete_keys_only [OF dl] ks
  show "wire w' \<subseteq> wire w" "wire w - wire w' \<subseteq> subject_keyspace (redis_refs subject ts)" by auto
qed

lemma redis_passed_gone:
  assumes "redisExecutor C R plan subject w = (Returned o1, w')" "so_verification o1 = VPassed"
    and "addressableThreadIds R subject plan w = Inr ts" "plain_refs (redis_refs subject ts)"
  shows "wire w' \<inter> subject_keyspace (redis_refs subject ts) = {}"
proof -
  let ?refs = "redis_refs subject ts"
  from assms(1) obtain ks n out out' where
    sc: "scan_patterns C (wireScanPatterns ?refs) w = (ks, n)"
    and dl: "delete_keys C (fst (planDeletions ks)) out w = (out', w')"
    and o1: "o1 = redis_report ?refs (key_survivors C (fst (planDeletions ks)) w') n out'"
    using assms(3) by (auto elim!: redis_executor_split)
  from assms(2) o1 have z: "key_survivors C (fst (planDeletions ks)) w' = 0" "n = 0"
    by (auto simp: redis_report_def Let_def split: if_splits)
  note ks = scan_keyspace [OF assms(4) sc]
  have "set ks = wire w \<inter> subject_keyspace ?refs" using ks z(2) by blast
  moreover have "(\<lambda>k. REDIS_KEY_PREFIX @ k) ` set (fst (planDeletions ks)) = set ks"
    using ks(1) by (intro deletable_keyspace) auto
  moreover have "k \<notin> wire w'" if "k \<in> (\<lambda>k. REDIS_KEY_PREFIX @ k) ` set (fst (planDeletions ks))" for k
    using that survivors_gone [OF z(1)] by auto
  moreover have "wire w' \<subseteq> wire w" using delete_keys_only [OF dl] by simp
  ultimately show ?thesis by blast
qed

end

section \<open>The repository's client doubles\<close>

definition redis_double :: "string set \<Rightarrow> string set \<Rightarrow> string set \<Rightarrow> string list redis_client" where
  "redis_double unscannable undeletable silentlyIgnores = \<lparr>
     redis_keys = (\<lambda>p ks. if p \<in> unscannable then Inl () else Inr (filter (star_match p) ks)),
     redis_del = (\<lambda>k ks. if k \<in> undeletable then (Inl (), ks) else if k \<in> silentlyIgnores then (Inr 0, ks)
       else if REDIS_KEY_PREFIX @ k \<in> set ks then (Inr 1, removeAll (REDIS_KEY_PREFIX @ k) ks) else (Inr 0, ks)),
     redis_exists = (\<lambda>k ks. Inr (if REDIS_KEY_PREFIX @ k \<in> set ks then 1 else 0))\<rparr>"

interpretation rd: ioredis "redis_double us ud si" set star_match
  by unfold_locales (auto simp: redis_double_def split: if_splits)

definition bucket_double :: "string set \<Rightarrow> string set \<Rightarrow> string list object_client" where
  "bucket_double deleteFails inconclusive = \<lparr>obj_available = True,
     obj_delete = (\<lambda>k os. if k \<in> deleteFails then (Inl (), os) else (Inr (), removeAll k os)),
     obj_exists = (\<lambda>k os. Inr (k \<in> inconclusive \<or> k \<in> set os))\<rparr>"

interpretation bd: object_store "bucket_double df inc" set
  by unfold_locales (auto simp: bucket_double_def split: if_splits)

section \<open>Properties\<close>


text \<open>
  Object storage is verified by absence. If the executor reports \<open>passed\<close>, every object
  the subject's attachment rows name is absent, it removed no other object, and the key map
  was not lost to an earlier Postgres pass.
\<close>

lemma minio_passed_means_gone:
  assumes "object_store A objects" "obj_available A"
    and "minioExecutor (Some A) R plan subject w = (Returned o1, w')"
    and "read_attachments R (platosEndUserIds subject) w = Inr keys"
    and "so_verification o1 = VPassed"
  shows "objects w' \<inter> set keys = {} \<and> objects w - objects w' \<subseteq> set keys
    \<and> \<not> objectMapLost plan (int (length keys))"
proof -
  have nl: "\<not> objectMapLost plan (int (length keys))"
    using assms(2-5) by (auto simp: minioExecutor_def Let_def)
  obtain out out' where d: "delete_objects A keys out w = (out', w')"
    and sv: "object_survivors A keys w' = 0"
    using assms(2-5) nl
    by (auto simp: minioExecutor_def Let_def split: prod.splits if_splits)
  from object_store.delete_objects_only [OF assms(1) d] object_store.no_survivors [OF assms(1) sv] nl
  show ?thesis by blast
qed

text \<open>Identifiers without a colon or a glob character, as the ids the program mints.\<close>

definition atomic_id :: "string \<Rightarrow> bool" where
  "atomic_id s \<longleftrightarrow> CHR '':'' \<notin> set s \<and> CHR ''*'' \<notin> set s \<and> star_only s"

definition atomic_scope :: "subject_scope \<Rightarrow> bool" where
  "atomic_scope s \<longleftrightarrow> atomic_id (organizationId s) \<and> atomic_id (projectId s) \<and> atomic_id (environmentId s)"

definition user_counter :: "subject_scope \<Rightarrow> string \<Rightarrow> string \<Rightarrow> string" where
  "user_counter s u day = REDIS_KEY_PREFIX @ ''cost:user:'' @ redis_scope s @ '':'' @ u @ '':'' @ day"

lemma colon_split: "CHR '':'' \<notin> set x \<Longrightarrow> CHR '':'' \<notin> set y \<Longrightarrow> x @ CHR '':'' # a = y @ CHR '':'' # b \<Longrightarrow> x = y \<and> a = b"
proof (induction x arbitrary: y)
  case Nil
  then show ?case by (cases y) auto
next
  case (Cons c x)
  then show ?case by (cases y) auto
qed

lemma counter_of_other_user:
  assumes "atomic_scope s" "atomic_id u" "atomic_scope s'" "atomic_id v"
    and "star_match (''cost:user:'' @ redis_scope s @ '':'' @ u @ '':*'')
           (''cost:user:'' @ redis_scope s' @ '':'' @ v @ '':'' @ day)"
  shows "s = s' \<and> u = v"
proof -
  let ?l = "redis_scope s @ '':'' @ u @ '':''"
  have "CHR ''*'' \<notin> set ?l" using assms(1,2) by (auto simp: atomic_scope_def atomic_id_def redis_scope_def)
  from star_match_literal [OF this, of "''*''"] assms(5)
  obtain k where "redis_scope s @ CHR '':'' # u @ CHR '':'' # k = redis_scope s' @ CHR '':'' # v @ CHR '':'' # day"
    by auto
  then have e: "organizationId s @ CHR '':'' # projectId s @ CHR '':'' # environmentId s @ CHR '':'' # u @ CHR '':'' # k
    = organizationId s' @ CHR '':'' # projectId s' @ CHR '':'' # environmentId s' @ CHR '':'' # v @ CHR '':'' # day"
    by (simp add: redis_scope_def)
  have free: "CHR '':'' \<notin> set x" if "x \<in> {organizationId s, organizationId s', projectId s, projectId s',
      environmentId s, environmentId s', u, v}" for x
    using assms(1-4) that unfolding atomic_scope_def atomic_id_def by blast
  note e1 = colon_split [OF free free e, simplified]
  note e2 = colon_split [OF free free conjunct2 [OF e1], simplified]
  note e3 = colon_split [OF free free conjunct2 [OF e2], simplified]
  note e4 = colon_split [OF free free conjunct2 [OF e3], simplified]
  from e1 e2 e3 e4 show ?thesis by simp
qed

text \<open>
  Erasing one person leaves everybody else's counters. When identifiers contain neither
  colons nor glob characters, the daily cost counter of any user that is not among the
  subject's legacy ids, or of any scope the subject does not appear in, survives the sweep.
\<close>

lemma redis_other_users_kept:
  assumes "ioredis C wire glob"
    and "redisExecutor C R plan subject w = (Returned o1, w')"
    and "addressableThreadIds R subject plan w = Inr threadIds"
    and "plain_refs (redis_refs subject threadIds)"
    and "\<forall>s \<in> set (scopes subject). atomic_scope s" "\<forall>u \<in> set (legacyUserIds subject). atomic_id u"
    and "atomic_scope s'" "atomic_id v" "v \<notin> set (legacyUserIds subject) \<or> s' \<notin> set (scopes subject)"
    and "user_counter s' v day \<in> wire w"
  shows "user_counter s' v day \<in> wire w'"
proof (rule ccontr)
  assume "user_counter s' v day \<notin> wire w'"
  then have "user_counter s' v day \<in> subject_keyspace (redis_refs subject threadIds)"
    using ioredis.redis_removes_only_subject(2) [OF assms(1-4)] assms(10) by blast
  then obtain p where p: "p \<in> set (subjectKeyPatterns (redis_refs subject threadIds))"
    and m: "star_match p (''cost:user:'' @ redis_scope s' @ '':'' @ v @ '':'' @ day)"
    by (auto simp: subject_keyspace_def user_counter_def wire_match)
  from p m show False
  proof (cases rule: subject_patterns_cases)
    case (5 s u)
    then show False using counter_of_other_user [of s u s' v day] m assms(5-9) by (auto simp: redis_refs_def)
  qed (auto simp: star_match_Cons)
qed

text \<open>
  The identifiers are not escaped in the patterns. A subject whose external id is a star
  selects the counters of every user of the scope, so its erasure deletes another person's.
\<close>

lemma unescaped_id_selects_others:
  "user_counter \<lparr>organizationId = ''o'', projectId = ''p'', environmentId = ''e''\<rparr> ''bob'' ''2026-01-01''
     \<in> subject_keyspace \<lparr>rr_threadIds = [], rr_legacyUserIds = [''*''], rr_platosEndUserIds = [''u''],
          rr_scopes = [\<lparr>organizationId = ''o'', projectId = ''p'', environmentId = ''e''\<rparr>]\<rparr>"
  unfolding subject_keyspace_def mem_Collect_eq Bex_set by code_simp

section \<open>Witnesses\<close>

definition w_reads :: "'w subject_reads" where
  "w_reads = \<lparr>read_attachments = (\<lambda>eu w. Inr [''a/1'']), read_threads = (\<lambda>eu w. Inr [''t1''])\<rparr>"

definition w_person :: subject_keys where
  "w_person = \<lparr>platosEndUserIds = [''u1''], legacyUserIds = [''ada''], scopes = [w_scope]\<rparr>"

definition w_keys :: "string list" where
  "w_keys = [''platos:trace:thread:t1'', ''platos:cost:user:o:p:e:ada:d'', ''platos:cost:user:o:p:e:bob:d'',
     ''platos:cost:scope:o:p:e:d'']"

abbreviation "w_redis \<equiv> redis_double {} {} {}"

lemma w_redis_run: "snd (redisExecutor w_redis w_reads None w_person w_keys)
    = [''platos:cost:user:o:p:e:bob:d'', ''platos:cost:scope:o:p:e:d'']"
  "addressableThreadIds w_reads w_person None w_keys = Inr [''t1'']"
  by code_simp+

lemma w_redis_pass: "\<exists>o1. redisExecutor w_redis w_reads None w_person w_keys
    = (Returned o1, [''platos:cost:user:o:p:e:bob:d'', ''platos:cost:scope:o:p:e:d''])
    \<and> so_verification o1 = VPassed"
proof -
  obtain r w' where e: "redisExecutor w_redis w_reads None w_person w_keys = (r, w')" by fastforce
  have "(case redisExecutor w_redis w_reads None w_person w_keys of
     (Returned o1, w') \<Rightarrow> so_verification o1 = VPassed | _ \<Rightarrow> False)" by code_simp
  with e w_redis_run(1) show ?thesis by (auto split: exec_result.splits)
qed

lemma w_plain: "plain_refs (redis_refs w_person [''t1''])" "atomic_scope w_scope" "atomic_id ''ada'' \<and> atomic_id ''bob''"
  by (auto simp: plain_refs_def redis_refs_def w_person_def w_scope_def redis_scope_def star_only_def
      glob_meta_def atomic_scope_def atomic_id_def)


end
