(* ===== verification/ErasureService.thy ===== *)
theory ErasureService
  imports ErasureRegister PostgresStore ErasureAudit ErasureStores
begin

text \<open>
  \<open>apps/agent/src/privacy/erasure.service.ts\<close>: the erasure service itself. Requests, operator
  retries and the queue drain find or create an operation row, check holds, take the lease,
  record the intent, seal the subject, run the orchestrator and persist the receipt. The
  service's collaborators (the tables, the executors, the audit sink, the hash, the
  environment) are the fields of \<open>erasure_service\<close>. An operation is a function of the state
  that returns a value or throws; what a statement wrote before a throw stays written.
  Operation ids and lease tokens, random in the source, are arguments.
\<close>

section \<open>Actions\<close>

datatype service_error = DbError db_error | RegisterError register_error | ErasureIdempotencyConflictError
  | AuditLeak string | AuditSinkError | ReceiptLeak string

type_synonym ('s, 'a) act = "'s \<Rightarrow> (service_error + 'a) \<times> 's"

definition ret :: "'a \<Rightarrow> ('s, 'a) act" where
  "ret x s = (Inr x, s)"

definition throw :: "service_error \<Rightarrow> ('s, 'a) act" where
  "throw e s = (Inl e, s)"

definition bnd :: "('s, 'a) act \<Rightarrow> ('a \<Rightarrow> ('s, 'b) act) \<Rightarrow> ('s, 'b) act" where
  "bnd m k s = (case m s of (Inl e, s') \<Rightarrow> (Inl e, s') | (Inr x, s') \<Rightarrow> k x s')"

definition attempt :: "('s, 'a) act \<Rightarrow> ('s, service_error + 'a) act" where
  "attempt m s = (case m s of (r, s') \<Rightarrow> (Inr r, s'))"

definition query :: "('s \<Rightarrow> db_error + 'a) \<Rightarrow> ('s, 'a) act" where
  "query f s = (case f s of Inl e \<Rightarrow> (Inl (DbError e), s) | Inr x \<Rightarrow> (Inr x, s))"

definition command :: "('s \<Rightarrow> db_error + (nat \<times> 's)) \<Rightarrow> ('s, nat) act" where
  "command f s = (case f s of Inl e \<Rightarrow> (Inl (DbError e), s) | Inr (n, s') \<Rightarrow> (Inr n, s'))"

text \<open>\<open>update\<close> of a single row throws when it is not there.\<close>

definition update_one :: "('s, 'r) table \<Rightarrow> ('r \<Rightarrow> bool) \<Rightarrow> ('r \<Rightarrow> 'r) \<Rightarrow> ('s, unit) act" where
  "update_one T p f = bnd (command (updateMany T p f)) (\<lambda>n. if n = 0 then throw (DbError Rejected) else ret ())"

section \<open>Rows and collaborators\<close>

definition ERASURE_POLICY_VERSION :: string where
  "ERASURE_POLICY_VERSION = ''2026-08-11.1''"

datatype operation_status = OpPENDING | OpACTIVE | OpSUCCEEDED | OpFAILED | OpCANCELLED

record operation_row =
  op_id :: string
  op_idempotencyKey :: string
  op_subjectKeyHash :: string
  op_organizationId :: string
  op_status :: operation_status
  op_scopes :: "subject_scope list"
  op_stores :: "store_outcome list"
  op_resumePlan :: jsval
  op_policyVersion :: string
  op_legalHoldPolicyId :: "string option"
  op_retryCount :: nat
  op_nextRetryAt :: "int option"
  op_leaseToken :: "string option"
  op_leaseExpiresAt :: "int option"
  op_requestedAt :: int
  op_startedAt :: "int option"
  op_completedAt :: "int option"

record admin_record =
  ar_organizationId :: string
  ar_projectId :: string
  ar_environmentId :: string
  ar_userId :: "string option"
  ar_entry :: audit_entry

record 's erasure_service =
  sv_operations :: "('s, operation_row) table"
  sv_tombstones :: "('s, tombstone) table"
  sv_identities :: "('s, end_user_identity) table"
  sv_environments :: "string \<Rightarrow> string list \<Rightarrow> 's \<Rightarrow> db_error + (string \<times> string) list"
  sv_pg :: "'s pg_client"
  sv_executors :: "string \<Rightarrow> string \<Rightarrow> erasure_resume_plan option \<Rightarrow> 's executors"
  sv_auditSink :: "(admin_record \<Rightarrow> 's \<Rightarrow> (unit + unit) \<times> 's) option"
  sv_hasher :: "string \<Rightarrow> string"
  sv_salt :: string
  sv_saltEnv :: salt_env
  sv_legalHoldUserIds :: "string option"
  sv_maxRetries :: jsnum
  sv_ttlDays :: jsnum
  sv_iso :: "int \<Rightarrow> string"
  sv_time :: "string \<Rightarrow> int"
  sv_clock :: "nat \<Rightarrow> string"
  sv_toNumber :: "jsval \<Rightarrow> jsnum"
  sv_showNumber :: "rat \<Rightarrow> string"
  sv_localeLe :: "string \<Rightarrow> string \<Rightarrow> bool"

fun toDatabaseStatus :: "erasure_status \<Rightarrow> operation_status" where
  "toDatabaseStatus Pending = OpPENDING"
| "toDatabaseStatus Running = OpACTIVE"
| "toDatabaseStatus Completed = OpSUCCEEDED"
| "toDatabaseStatus BlockedLegalHold = OpCANCELLED"
| "toDatabaseStatus PartialFailure = OpFAILED"
| "toDatabaseStatus VerificationFailed = OpFAILED"

definition truthy :: "string option \<Rightarrow> bool" where
  "truthy v = (case v of None \<Rightarrow> False | Some s \<Rightarrow> s \<noteq> [])"

definition toReceipt :: "'s erasure_service \<Rightarrow> operation_row \<Rightarrow> erasure_receipt" where
  "toReceipt sv row = \<lparr>er_operationId = op_id row, er_subjectKeyHash = op_subjectKeyHash row,
     er_requestedAt = sv_iso sv (op_requestedAt row), er_startedAt = map_option (sv_iso sv) (op_startedAt row),
     er_completedAt = map_option (sv_iso sv) (op_completedAt row),
     er_status = (if truthy (op_legalHoldPolicyId row) then BlockedLegalHold
        else case op_status row of OpSUCCEEDED \<Rightarrow> Completed | OpACTIVE \<Rightarrow> Running
          | OpFAILED \<Rightarrow> deriveStatus (op_stores row) False True | _ \<Rightarrow> Pending),
     er_scopes = op_scopes row, er_stores = op_stores row, er_policyVersion = op_policyVersion row,
     er_retryCount = op_retryCount row, er_legalHoldPolicyId = op_legalHoldPolicyId row\<rparr>"

definition hashMatches :: "string \<Rightarrow> string \<Rightarrow> bool" where
  "hashMatches left right = (hex_bytes left = hex_bytes right)"

definition sv_hash :: "'s erasure_service \<Rightarrow> string \<Rightarrow> string \<Rightarrow> string" where
  "sv_hash sv externalUserId org = subjectKeyHash externalUserId org (sv_salt sv) (sv_hasher sv)"

definition existingReceiptForSubject :: "'s erasure_service \<Rightarrow> operation_row \<Rightarrow> string \<Rightarrow> ('s, erasure_receipt) act" where
  "existingReceiptForSubject sv row subjectHash =
     (if \<not> hashMatches (op_subjectKeyHash row) subjectHash then throw ErasureIdempotencyConflictError
      else ret (toReceipt sv row))"

section \<open>Discovery and holds\<close>

definition discoverSubject :: "'s erasure_service \<Rightarrow> string \<Rightarrow> string \<Rightarrow> ('s, subject_keys) act" where
  "discoverSubject sv externalUserId org =
     bnd (query (findFirst (sv_identities sv) (\<lambda>r. idn_organizationId r = org \<and> idn_issuer r = ''platos:external''
            \<and> idn_channel r = ''external'' \<and> idn_subject r = externalUserId \<and> idn_disabledAt r = None)))
       (\<lambda>externalIdentity.
          let endUserIds = (case externalIdentity of None \<Rightarrow> [] | Some i \<Rightarrow> [idn_endUserId i]) in
          bnd (if endUserIds \<noteq> [] then query (sv_environments sv org endUserIds) else ret [])
            (\<lambda>environments. ret (mergeSubjectKeys (sv_localeLe sv) [Some \<lparr>pk_platosEndUserIds = Some endUserIds,
               pk_legacyUserIds = Some (if endUserIds \<noteq> [] then [externalUserId] else []),
               pk_scopes = Some (map (\<lambda>(i, p). \<lparr>organizationId = org, projectId = p, environmentId = i\<rparr>)
                 environments)\<rparr>])))"

definition subjectAliases :: "'s erasure_service \<Rightarrow> subject_keys \<Rightarrow> string \<Rightarrow> ('s, string list) act" where
  "subjectAliases sv subject org =
     (if platosEndUserIds subject = [] then ret []
      else bnd (query (findMany (sv_identities sv) (\<lambda>r. idn_organizationId r = org
              \<and> idn_endUserId r \<in> set (platosEndUserIds subject))))
           (\<lambda>rows. ret (filter (\<lambda>a. length a > 0)
              (concat (map (\<lambda>r. [idn_subject r, idn_channel r @ '':'' @ idn_subject r]) rows)))))"

definition holdCheck :: "'s erasure_service \<Rightarrow> subject_keys \<Rightarrow> string \<Rightarrow> string option \<Rightarrow> ('s, string list \<times> string option) act" where
  "holdCheck sv subject org externalUserId =
     (let register = parseLegalHoldList (sv_legalHoldUserIds sv) in
      if register = [] then ret ([], None)
      else bnd (subjectAliases sv subject org) (\<lambda>aliases.
        ret (aliases, map_option (\<lambda>m. legalHoldReference m (sv_hash sv (hold_value m) org))
          (findLegalHold (subject\<lparr>legacyUserIds := legacyUserIds subject @ aliases\<rparr>)
             (or_empty externalUserId) register))))"

definition inventory :: "'s pg_client \<Rightarrow> subject_keys \<Rightarrow> string \<Rightarrow> ('s, (string \<times> jsval) list) act" where
  "inventory P subject org =
     (if isEmptySubject subject then ret [(''resolved'', js_int 0)]
      else let eu = platosEndUserIds subject; lu = legacyUserIds subject;
               count = (\<lambda>m w. query (count_rows P m w)) in
        bnd (count Thread (subjectWhere eu)) (\<lambda>threads.
        bnd (count Memory (subjectWhere eu)) (\<lambda>memories.
        bnd (count MessageRating (subjectWhere eu)) (\<lambda>ratings.
        bnd (count MessageAttachment (subjectWhere eu)) (\<lambda>attachments.
        bnd (count ToolCallAudit (auditSubjectWhere org eu lu)) (\<lambda>audits.
        bnd (count SafetyEvent (safetySubjectWhere org eu lu)) (\<lambda>safetyEvents.
          ret [(''resolved'', js_int (int (length eu + length lu))),
            (''scopes'', JArr (map scope_json (scopes subject))), (''threads'', js_int (int threads)),
            (''memories'', js_int (int memories)), (''ratings'', js_int (int ratings)),
            (''attachments'', js_int (int attachments)), (''toolCallAudits'', js_int (int audits)),
            (''safetyEvents'', js_int (int safetyEvents))])))))))"

definition subjectThreadIds :: "'s pg_client \<Rightarrow> subject_keys \<Rightarrow> ('s, string list) act" where
  "subjectThreadIds P subject =
     (if platosEndUserIds subject = [] then ret []
      else bnd (query (findMany (pg_table P Thread) (subjectWhere (platosEndUserIds subject))))
        (\<lambda>rows. ret (map row_id rows)))"

section \<open>Sealing, leases and audit\<close>

definition seal_request :: "'s erasure_service \<Rightarrow> subject_keys \<Rightarrow> string \<Rightarrow> string \<Rightarrow> string option \<Rightarrow> seal_args" where
  "seal_request sv subject operationId org externalUserId = \<lparr>sa_organizationId = org, sa_operationId = operationId,
     sa_policyVersion = ERASURE_POLICY_VERSION, sa_platosEndUserIds = platosEndUserIds subject,
     sa_extraAliases = concat (map (\<lambda>i. [\<lparr>al_channel = Some ''external'', al_subject = Some i\<rparr>,
         \<lparr>al_channel = Some ''session'', al_subject = Some i\<rparr>])
       (filter (\<lambda>i. length i > 0) ((case externalUserId of None \<Rightarrow> [] | Some e \<Rightarrow> [e]) @ legacyUserIds subject))),
     sa_salt = Some (sv_salt sv), sa_ttlDays = None\<rparr>"

definition seal :: "'s erasure_service \<Rightarrow> subject_keys \<Rightarrow> string \<Rightarrow> string \<Rightarrow> string option \<Rightarrow> int \<Rightarrow> ('s, unit) act" where
  "seal sv subject operationId org externalUserId now s =
     (case sealErasedSubject (sv_hasher sv) (sv_saltEnv sv) (sv_ttlDays sv) (sv_tombstones sv) (sv_identities sv)
         (seal_request sv subject operationId org externalUserId) now s of
        (Inl e, s') \<Rightarrow> (Inl (RegisterError e), s') | (Inr _, s') \<Rightarrow> (Inr (), s'))"

definition claimLease :: "'s erasure_service \<Rightarrow> string \<Rightarrow> string \<Rightarrow> int \<Rightarrow> ('s, bool) act" where
  "claimLease sv operationId token now =
     bnd (command (updateMany (sv_operations sv)
            (\<lambda>r. op_id r = operationId \<and> (case op_leaseExpiresAt r of None \<Rightarrow> True | Some t \<Rightarrow> t \<le> now))
            (\<lambda>r. r\<lparr>op_leaseToken := Some token, op_leaseExpiresAt := Some (leaseUntil now)\<rparr>)))
       (\<lambda>n. ret (n = 1))"

definition releaseLease :: "'s erasure_service \<Rightarrow> string \<Rightarrow> string \<Rightarrow> bool \<Rightarrow> ('s, unit) act" where
  "releaseLease sv operationId token clearSchedule =
     bnd (command (updateMany (sv_operations sv) (\<lambda>r. op_id r = operationId \<and> op_leaseToken r = Some token)
            (\<lambda>r. (if clearSchedule then r\<lparr>op_nextRetryAt := None\<rparr> else r)
               \<lparr>op_leaseToken := None, op_leaseExpiresAt := None\<rparr>)))
       (\<lambda>_. ret ())"

definition abandonPass :: "'s erasure_service \<Rightarrow> erasure_receipt \<Rightarrow> string \<Rightarrow> int \<Rightarrow> ('s, unit) act" where
  "abandonPass sv receipt token now =
     (let retryCount = er_retryCount receipt + 1;
          schedule = scheduleAfterRetry (sv_maxRetries sv) (receipt\<lparr>er_retryCount := retryCount\<rparr>) now
      in bnd (command (updateMany (sv_operations sv)
            (\<lambda>r. op_id r = er_operationId receipt \<and> op_leaseToken r = Some token)
            (\<lambda>r. r\<lparr>op_retryCount := retryCount, op_nextRetryAt := fst schedule,
               op_leaseToken := None, op_leaseExpiresAt := None\<rparr>)))
       (\<lambda>_. ret ()))"

record audit_scope =
  as_organizationId :: string
  as_scopes :: "subject_scope list"
  as_actor :: "audit_actor option"
  as_forbidden :: "string list"

fun record_all :: "(admin_record \<Rightarrow> 's \<Rightarrow> (unit + unit) \<times> 's) \<Rightarrow> admin_record list \<Rightarrow> ('s, unit) act" where
  "record_all sink [] = ret ()"
| "record_all sink (r # rs) = bnd (\<lambda>s. case sink r s of (Inl _, s') \<Rightarrow> (Inl AuditSinkError, s') | (Inr _, s') \<Rightarrow> (Inr (), s'))
     (\<lambda>_. record_all sink rs)"

definition audit :: "'s erasure_service \<Rightarrow> audit_scope \<Rightarrow> (audit_actor \<Rightarrow> audit_entry) \<Rightarrow> ('s, unit) act" where
  "audit sv args build = (case as_actor args of None \<Rightarrow> ret ()
     | Some actor \<Rightarrow>
         let entry = build actor in
         (case assertAuditContentFree (sv_showNumber sv) entry (as_forbidden args) of
            Inl msg \<Rightarrow> throw (AuditLeak msg)
          | Inr _ \<Rightarrow> (case sv_auditSink sv of None \<Rightarrow> ret ()
              | Some sink \<Rightarrow>
                  let byEnvironment = map_of (rev (map (\<lambda>sc. (environmentId sc, sc)) (as_scopes args))) in
                  record_all sink (map (\<lambda>env. \<lparr>ar_organizationId = as_organizationId args,
                      ar_projectId = (case byEnvironment env of Some sc \<Rightarrow> projectId sc | None \<Rightarrow> ac_projectId actor),
                      ar_environmentId = env, ar_userId = ac_userId actor, ar_entry = entry\<rparr>)
                    (auditEnvironments (as_scopes args) (Some (ac_environmentId actor)))))))"

definition auditBestEffort :: "'s erasure_service \<Rightarrow> audit_scope \<Rightarrow> (audit_actor \<Rightarrow> audit_entry) \<Rightarrow> ('s, unit) act" where
  "auditBestEffort sv args build = bnd (attempt (audit sv args build)) (\<lambda>_. ret ())"

section \<open>Closing a pass\<close>

definition persisted :: "'s erasure_service \<Rightarrow> erasure_receipt \<Rightarrow> int option \<Rightarrow> operation_row \<Rightarrow> operation_row" where
  "persisted sv r nextRetryAt row = row\<lparr>op_status := toDatabaseStatus (er_status r), op_stores := er_stores r,
     op_retryCount := er_retryCount r,
     op_startedAt := (if truthy (er_startedAt r) then map_option (sv_time sv) (er_startedAt r) else None),
     op_completedAt := (if truthy (er_completedAt r) then map_option (sv_time sv) (er_completedAt r) else None),
     op_legalHoldPolicyId := er_legalHoldPolicyId r, op_nextRetryAt := nextRetryAt\<rparr>"

definition persist :: "'s erasure_service \<Rightarrow> erasure_receipt \<Rightarrow> string list \<Rightarrow> int option \<Rightarrow> ('s, unit) act" where
  "persist sv r forbidden nextRetryAt = (case assertContentFree r forbidden of
     Inl msg \<Rightarrow> throw (ReceiptLeak msg)
   | Inr _ \<Rightarrow> update_one (sv_operations sv) (\<lambda>row. op_id row = er_operationId r) (persisted sv r nextRetryAt))"

definition finish :: "'s erasure_service \<Rightarrow> erasure_receipt \<Rightarrow> audit_scope \<Rightarrow> erasure_cause \<Rightarrow> resume_coverage
    \<Rightarrow> string \<Rightarrow> int \<Rightarrow> ('s, erasure_receipt) act" where
  "finish sv r args cause coverage token now =
     (let schedule = scheduleAfterRetry (sv_maxRetries sv) r now in
      bnd (persist sv r (as_forbidden args) (fst schedule)) (\<lambda>_.
      bnd (if token \<noteq> [] then releaseLease sv (er_operationId r) token False else ret ()) (\<lambda>_.
      bnd (auditBestEffort sv args (\<lambda>actor. finishedAudit r cause coverage actor (map_option (sv_iso sv) (fst schedule)))) (\<lambda>_.
      ret r))))"

definition run_sweep :: "(erasure_receipt \<Rightarrow> subject_keys \<Rightarrow> 's executors \<Rightarrow> run_options \<Rightarrow> 's \<Rightarrow> erasure_receipt \<times> 's)
    \<Rightarrow> erasure_receipt \<Rightarrow> subject_keys \<Rightarrow> 's executors \<Rightarrow> run_options \<Rightarrow> ('s, erasure_receipt) act" where
  "run_sweep f receipt subject ex opts s = (case f receipt subject ex opts s of (r, s') \<Rightarrow> (Inr r, s'))"

section \<open>Requests\<close>

definition number_or_zero :: "jsval \<Rightarrow> jsnum" where
  "number_or_zero v = (case v of JNum x \<Rightarrow> x | _ \<Rightarrow> Fin 0)"

definition new_operation :: "'s erasure_service \<Rightarrow> string \<Rightarrow> string \<Rightarrow> string \<Rightarrow> string \<Rightarrow> subject_keys
    \<Rightarrow> erasure_resume_plan option \<Rightarrow> string option \<Rightarrow> string \<Rightarrow> int \<Rightarrow> operation_row" where
  "new_operation sv operationId idempotencyKey hash org subject plan heldBy token now =
     (let held = truthy heldBy in
      \<lparr>op_id = operationId, op_idempotencyKey = idempotencyKey, op_subjectKeyHash = hash, op_organizationId = org,
       op_status = (if held then OpCANCELLED else OpPENDING), op_scopes = scopes subject, op_stores = [],
       op_resumePlan = (case plan of None \<Rightarrow> JNull | Some p \<Rightarrow> plan_json p),
       op_policyVersion = ERASURE_POLICY_VERSION, op_legalHoldPolicyId = heldBy, op_retryCount = 0,
       op_nextRetryAt = (if held then None else Some now), op_leaseToken = (if held then None else Some token),
       op_leaseExpiresAt = (if held then None else Some (leaseUntil now)),
       op_requestedAt = now, op_startedAt = None, op_completedAt = None\<rparr>)"

definition default_options :: "'s erasure_service \<Rightarrow> string option \<Rightarrow> resume_coverage \<Rightarrow> run_options" where
  "default_options sv hold coverage = \<lparr>ro_only = None, ro_legalHold = hold, ro_coverage = Some coverage,
     ro_clock = sv_clock sv\<rparr>"

text \<open>From the created row on: the intent, the seal, the sweep and the close.\<close>

definition run_request :: "'s erasure_service \<Rightarrow> string \<Rightarrow> string \<Rightarrow> string option \<Rightarrow> audit_actor option \<Rightarrow> string
    \<Rightarrow> int \<Rightarrow> operation_row \<Rightarrow> subject_keys \<Rightarrow> (string \<times> jsval) list \<Rightarrow> erasure_resume_plan option \<Rightarrow> string list
    \<Rightarrow> ('s, erasure_receipt) act" where
  "run_request sv externalUserId org legalHoldPolicyId actor token now row subject invt plan subjectForbidden =
     (let hash = sv_hash sv externalUserId org;
          sc = \<lparr>as_organizationId = org, as_scopes = scopes subject, as_actor = actor, as_forbidden = subjectForbidden\<rparr> in
      bnd (audit sv sc (\<lambda>a. requestedAudit (op_id row) hash ERASURE_POLICY_VERSION CauseRequest Full a invt
             EXECUTION_ORDER 0)) (\<lambda>_.
      bnd (seal sv subject (op_id row) org (Some externalUserId) now) (\<lambda>_.
      bnd (run_sweep runErasure (toReceipt sv row) subject (sv_executors sv org hash plan)
             (default_options sv (if truthy legalHoldPolicyId then legalHoldPolicyId else None) Full)) (\<lambda>started.
      finish sv started sc CauseRequest Full token now))))"

definition create_or_race :: "'s erasure_service \<Rightarrow> operation_row \<Rightarrow> ('s, erasure_receipt option) act" where
  "create_or_race sv row s = (case create (sv_operations sv) row s of
     Inr s' \<Rightarrow> (Inr None, s')
   | Inl e \<Rightarrow> if e \<noteq> UniqueViolation then (Inl (DbError e), s)
       else bnd (query (findFirst (sv_operations sv) (\<lambda>r. op_organizationId r = op_organizationId row
                \<and> op_idempotencyKey r = op_idempotencyKey row)))
            (\<lambda>raced. case raced of None \<Rightarrow> throw (DbError e)
               | Some other \<Rightarrow> bnd (existingReceiptForSubject sv other (op_subjectKeyHash row)) (\<lambda>r. ret (Some r))) s)"

definition start_request :: "'s erasure_service \<Rightarrow> string \<Rightarrow> string \<Rightarrow> string \<Rightarrow> string option \<Rightarrow> audit_actor option
    \<Rightarrow> string \<Rightarrow> string \<Rightarrow> int \<Rightarrow> ('s, erasure_receipt) act" where
  "start_request sv externalUserId org idempotencyKey legalHoldPolicyId actor operationId token now =
     (let hash = sv_hash sv externalUserId org in
      bnd (discoverSubject sv externalUserId org) (\<lambda>subject.
      bnd (inventory (sv_pg sv) subject org) (\<lambda>invt.
      bnd (holdCheck sv subject org (Some externalUserId)) (\<lambda>(aliases, registerHold).
      let heldBy = (case legalHoldPolicyId of Some p \<Rightarrow> Some p | None \<Rightarrow> registerHold);
          subjectForbidden = [externalUserId] @ legacyUserIds subject @ aliases in
      bnd (if truthy heldBy then ret None
           else bnd (subjectThreadIds (sv_pg sv) subject) (\<lambda>threadIds.
             ret (Some (buildResumePlan subject threadIds (number_or_zero (js_get invt ''attachments''))))))
        (\<lambda>plan.
      let row = new_operation sv operationId idempotencyKey hash org subject plan heldBy token now in
      bnd (create_or_race sv row) (\<lambda>raced. case raced of Some r \<Rightarrow> ret r | None \<Rightarrow>
        if truthy heldBy then
          bnd (auditBestEffort sv \<lparr>as_organizationId = org, as_scopes = scopes subject, as_actor = actor,
                 as_forbidden = subjectForbidden\<rparr>
               (\<lambda>a. refusedAudit hash ''legal hold in force'' a (Some operationId) (Some ERASURE_POLICY_VERSION) heldBy))
            (\<lambda>_. ret (toReceipt sv row))
        else run_request sv externalUserId org legalHoldPolicyId actor token now row subject invt plan subjectForbidden))))))"

definition requestErasure :: "'s erasure_service \<Rightarrow> string \<Rightarrow> string \<Rightarrow> string \<Rightarrow> string option \<Rightarrow> audit_actor option
    \<Rightarrow> string \<Rightarrow> string \<Rightarrow> int \<Rightarrow> ('s, erasure_receipt) act" where
  "requestErasure sv externalUserId org idempotencyKey legalHoldPolicyId actor operationId token now =
     (let hash = sv_hash sv externalUserId org in
      bnd (query (findFirst (sv_operations sv) (\<lambda>r. op_organizationId r = org \<and> op_idempotencyKey r = idempotencyKey)))
        (\<lambda>existing. case existing of
           Some row \<Rightarrow>
             if hashMatches (op_subjectKeyHash row) hash then ret (toReceipt sv row)
             else bnd (auditBestEffort sv \<lparr>as_organizationId = org, as_scopes = [], as_actor = actor,
                    as_forbidden = [externalUserId]\<rparr>
                  (\<lambda>a. refusedAudit hash ''idempotency key is already bound to another subject'' a
                     (Some (op_id row)) (Some (op_policyVersion row)) None))
               (\<lambda>_. throw ErasureIdempotencyConflictError)
         | None \<Rightarrow> start_request sv externalUserId org idempotencyKey legalHoldPolicyId actor operationId token now))"

definition auditInventoryRead :: "'s erasure_service \<Rightarrow> string \<Rightarrow> string \<Rightarrow> subject_keys \<Rightarrow> (string \<times> jsval) list
    \<Rightarrow> audit_actor option \<Rightarrow> ('s, unit) act" where
  "auditInventoryRead sv externalUserId org subject invt actor =
     auditBestEffort sv \<lparr>as_organizationId = org, as_scopes = scopes subject, as_actor = actor,
       as_forbidden = externalUserId # legacyUserIds subject\<rparr>
       (\<lambda>a. inventoriedAudit (sv_hash sv externalUserId org) ERASURE_POLICY_VERSION a invt
          (length (platosEndUserIds subject)))"

definition getErasure :: "'s erasure_service \<Rightarrow> string \<Rightarrow> ('s, erasure_receipt option) act" where
  "getErasure sv operationId = bnd (query (findFirst (sv_operations sv) (\<lambda>r. op_id r = operationId)))
     (\<lambda>row. ret (map_option (toReceipt sv) row))"

definition operationBelongsToOrganization :: "'s erasure_service \<Rightarrow> string \<Rightarrow> string \<Rightarrow> ('s, bool) act" where
  "operationBelongsToOrganization sv operationId org =
     bnd (query (findMany (sv_operations sv) (\<lambda>r. op_id r = operationId \<and> op_organizationId r = org)))
       (\<lambda>rows. ret (length rows > 0))"

section \<open>Retries\<close>

record resume_args =
  ra_subject :: subject_keys
  ra_coverage :: resume_coverage
  ra_cause :: erasure_cause
  ra_forbidden :: "string list"
  ra_plan :: "erasure_resume_plan option"
  ra_externalUserId :: "string option"
  ra_actor :: "audit_actor option"
  ra_now :: int

definition set_columns :: "'s erasure_service \<Rightarrow> string \<Rightarrow> (operation_row \<Rightarrow> operation_row) \<Rightarrow> ('s, unit) act" where
  "set_columns sv operationId f = update_one (sv_operations sv) (\<lambda>r. op_id r = operationId) f"

text \<open>Under the lease: intent and seal, or abandon the pass; then sweep and close.\<close>

definition leased_pass :: "'s erasure_service \<Rightarrow> operation_row \<Rightarrow> audit_scope \<Rightarrow> resume_args \<Rightarrow> string
    \<Rightarrow> erasure_receipt \<Rightarrow> ('s, erasure_receipt) act" where
  "leased_pass sv row sc args token current =
     bnd (attempt (bnd (audit sv sc (\<lambda>a. requestedAudit (er_operationId current) (er_subjectKeyHash current)
              (er_policyVersion current) (ra_cause args) (ra_coverage args) a [] (storesNeedingRetry current)
              (er_retryCount current)))
            (\<lambda>_. seal sv (ra_subject args) (op_id row) (op_organizationId row) (ra_externalUserId args) (ra_now args))))
       (\<lambda>r. case r of
          Inl e \<Rightarrow> bnd (abandonPass sv current token (ra_now args)) (\<lambda>_. throw e)
        | Inr _ \<Rightarrow>
            bnd (run_sweep retryErasure current (ra_subject args)
                   (sv_executors sv (op_organizationId row) (er_subjectKeyHash current) (ra_plan args))
                   (default_options sv None (ra_coverage args))) (\<lambda>next1.
            finish sv next1 (sc\<lparr>as_scopes := er_scopes current\<rparr>) (ra_cause args) (ra_coverage args) token (ra_now args)))"

definition claimed_pass :: "'s erasure_service \<Rightarrow> operation_row \<Rightarrow> erasure_receipt \<Rightarrow> audit_scope \<Rightarrow> resume_args
    \<Rightarrow> string \<Rightarrow> ('s, erasure_receipt) act" where
  "claimed_pass sv row receipt sc args token =
     bnd (query (findFirst (sv_operations sv) (\<lambda>r. op_id r = op_id row))) (\<lambda>claimed.
       let current = (case claimed of Some c \<Rightarrow> toReceipt sv c | None \<Rightarrow> receipt);
           outstanding = storesNeedingRetry current in
       if \<not> fst (canRetry current) \<or> outstanding = [] then
         bnd (releaseLease sv (op_id row) token (outstanding = [])) (\<lambda>_. ret current)
       else leased_pass sv row sc args token current)"

definition runResumePass :: "'s erasure_service \<Rightarrow> operation_row \<Rightarrow> resume_args \<Rightarrow> string \<Rightarrow> ('s, erasure_receipt) act" where
  "runResumePass sv row args token =
     (let receipt = toReceipt sv row;
          sc = \<lparr>as_organizationId = op_organizationId row, as_scopes = er_scopes receipt, as_actor = ra_actor args,
                as_forbidden = ra_forbidden args\<rparr>;
          permitted = canRetry receipt;
          refusal = (\<lambda>reason hold a. refusedAudit (er_subjectKeyHash receipt) reason a
             (Some (er_operationId receipt)) (Some (er_policyVersion receipt)) hold) in
      if \<not> fst permitted then
        bnd (auditBestEffort sv sc (refusal (case snd permitted of Some r \<Rightarrow> r | None \<Rightarrow> ''retry not permitted'')
            (er_legalHoldPolicyId receipt))) (\<lambda>_. ret receipt)
      else
        bnd (holdCheck sv (ra_subject args) (op_organizationId row) (ra_externalUserId args)) (\<lambda>(aliases, heldBy).
        if truthy heldBy then
          bnd (set_columns sv (op_id row) (\<lambda>r. r\<lparr>op_legalHoldPolicyId := heldBy, op_nextRetryAt := None\<rparr>)) (\<lambda>_.
          bnd (auditBestEffort sv (sc\<lparr>as_forbidden := ra_forbidden args @ aliases\<rparr>)
                 (refusal ''legal hold in force'' heldBy)) (\<lambda>_.
          ret (receipt\<lparr>er_status := BlockedLegalHold, er_legalHoldPolicyId := heldBy\<rparr>)))
        else if storesNeedingRetry receipt = [] then
          bnd (set_columns sv (op_id row) (\<lambda>r. r\<lparr>op_nextRetryAt := None\<rparr>)) (\<lambda>_. ret receipt)
        else
          bnd (claimLease sv (op_id row) token (ra_now args)) (\<lambda>got.
          if \<not> got then ret receipt else claimed_pass sv row receipt sc args token)))"

definition retryErasureById :: "'s erasure_service \<Rightarrow> string \<Rightarrow> string \<Rightarrow> audit_actor option \<Rightarrow> string \<Rightarrow> int
    \<Rightarrow> ('s, erasure_receipt option) act" where
  "retryErasureById sv operationId externalUserId actor token now =
     bnd (query (findFirst (sv_operations sv) (\<lambda>r. op_id r = operationId))) (\<lambda>found. case found of None \<Rightarrow> ret None
       | Some row \<Rightarrow>
           if \<not> hashMatches (sv_hash sv externalUserId (op_organizationId row)) (op_subjectKeyHash row) then ret None
           else
             let plan = resumePlanFrom (sv_toNumber sv) (op_resumePlan row) in
             bnd (discoverSubject sv externalUserId (op_organizationId row)) (\<lambda>discovered.
             let part = (\<lambda>k. Some \<lparr>pk_platosEndUserIds = Some (platosEndUserIds k),
                     pk_legacyUserIds = Some (legacyUserIds k), pk_scopes = Some (scopes k)\<rparr>);
                 located = mergeSubjectKeys (sv_localeLe sv) [part discovered,
                   (case plan of None \<Rightarrow> None | Some p \<Rightarrow> part (subjectFromResumePlan p))] in
             if isEmptySubject located then
               let receipt = toReceipt sv row in
               bnd (auditBestEffort sv \<lparr>as_organizationId = op_organizationId row, as_scopes = er_scopes receipt,
                      as_actor = actor, as_forbidden = [externalUserId]\<rparr>
                    (\<lambda>a. refusedAudit (er_subjectKeyHash receipt)
                       ''no resume plan and nothing left to discover; subject is unaddressable'' a
                       (Some (er_operationId receipt)) (Some (er_policyVersion receipt)) (er_legalHoldPolicyId receipt)))
                 (\<lambda>_. ret (Some receipt))
             else
               let subject = mergeSubjectKeys (sv_localeLe sv) [part located,
                     Some \<lparr>pk_platosEndUserIds = None, pk_legacyUserIds = Some [externalUserId], pk_scopes = None\<rparr>] in
               bnd (runResumePass sv row \<lparr>ra_subject = subject, ra_coverage = Full, ra_cause = CauseOperatorRetry,
                      ra_forbidden = externalUserId # legacyUserIds subject, ra_plan = plan,
                      ra_externalUserId = Some externalUserId, ra_actor = actor, ra_now = now\<rparr> token)
                 (\<lambda>r. ret (Some r))))"

definition resumeErasure :: "'s erasure_service \<Rightarrow> string \<Rightarrow> audit_actor option \<Rightarrow> string \<Rightarrow> int
    \<Rightarrow> ('s, erasure_receipt option) act" where
  "resumeErasure sv operationId actor token now =
     bnd (query (findFirst (sv_operations sv) (\<lambda>r. op_id r = operationId))) (\<lambda>found. case found of None \<Rightarrow> ret None
       | Some row \<Rightarrow> (case resumePlanFrom (sv_toNumber sv) (op_resumePlan row) of
           None \<Rightarrow> bnd (set_columns sv (op_id row) (\<lambda>r. r\<lparr>op_nextRetryAt := None\<rparr>)) (\<lambda>_. ret (Some (toReceipt sv row)))
         | Some plan \<Rightarrow>
             bnd (runResumePass sv row \<lparr>ra_subject = subjectFromResumePlan plan,
                    ra_coverage = LocatorsOnly, ra_cause = CauseQueueResume, ra_forbidden = [], ra_plan = Some plan,
                    ra_externalUserId = None, ra_actor = actor, ra_now = now\<rparr> token)
               (\<lambda>r. ret (Some r))))"

definition due :: "string \<Rightarrow> int \<Rightarrow> operation_row \<Rightarrow> bool" where
  "due org now r \<longleftrightarrow> op_organizationId r = org \<and> op_legalHoldPolicyId r = None
     \<and> op_status r \<in> {OpPENDING, OpACTIVE, OpFAILED}
     \<and> (case op_nextRetryAt r of None \<Rightarrow> False | Some t \<Rightarrow> t \<le> now) \<and> isLeaseFree (op_leaseExpiresAt r) now"

definition drain_limit :: "int option \<Rightarrow> nat" where
  "drain_limit limit = nat (min (max 1 (case limit of None \<Rightarrow> 10 | Some n \<Rightarrow> n)) 50)"

fun drain :: "'s erasure_service \<Rightarrow> audit_actor option \<Rightarrow> (nat \<Rightarrow> string) \<Rightarrow> int \<Rightarrow> nat \<Rightarrow> operation_row list
    \<Rightarrow> ('s, (string \<times> erasure_status \<times> nat) list) act" where
  "drain sv actor tokens now k [] = ret []"
| "drain sv actor tokens now k (row # rows) =
     bnd (attempt (resumeErasure sv (op_id row) actor (tokens k) now)) (\<lambda>r.
     bnd (drain sv actor tokens now (Suc k) rows) (\<lambda>rest.
     ret ((case r of Inr (Some receipt) \<Rightarrow> [(er_operationId receipt, er_status receipt, er_retryCount receipt)]
             | _ \<Rightarrow> []) @ rest)))"

definition resumeDueErasures :: "'s erasure_service \<Rightarrow> string \<Rightarrow> int option \<Rightarrow> audit_actor option \<Rightarrow> (nat \<Rightarrow> string) \<Rightarrow> int
    \<Rightarrow> ('s, (string \<times> erasure_status \<times> nat) list) act" where
  "resumeDueErasures sv org limit actor tokens now =
     bnd (query (findMany (sv_operations sv) (due org now))) (\<lambda>rows.
       drain sv actor tokens now 0 (take (drain_limit limit) (sort_key (\<lambda>r. the (op_nextRetryAt r)) rows)))"

section \<open>Lemmas about actions\<close>

lemma bnd_Inr: "bnd m k s = (Inr y, s'') \<longleftrightarrow> (\<exists>x s'. m s = (Inr x, s') \<and> k x s' = (Inr y, s''))"
  by (auto simp: bnd_def split: prod.splits sum.splits)

text \<open>If two continuations make a difference, the action before them returned.\<close>

lemma bnd_diff: "bnd m k1 s \<noteq> bnd m k2 s \<Longrightarrow> \<exists>x s'. m s = (Inr x, s') \<and> k1 x s' \<noteq> k2 x s'"
  by (auto simp: bnd_def split: prod.splits sum.splits)

lemma attempt_Inr: "attempt m s = (r, s') \<longleftrightarrow> (\<exists>x. m s = (x, s') \<and> r = Inr x)"
  by (auto simp: attempt_def split: prod.splits)

definition reads_only :: "('s, 'a) act \<Rightarrow> bool" where
  "reads_only m \<longleftrightarrow> (\<forall>s. snd (m s) = s)"

lemma reads_only_basic [simp, intro]: "reads_only (ret x)" "reads_only (throw e)" "reads_only (query f)"
  by (auto simp: reads_only_def ret_def throw_def query_def split: sum.splits)

lemma reads_only_bnd [intro]: "reads_only m \<Longrightarrow> (\<And>x. reads_only (k x)) \<Longrightarrow> reads_only (bnd m k)"
  by (auto simp: reads_only_def bnd_def split: prod.splits sum.splits) (metis snd_conv)+

lemma reads_onlyD: "reads_only m \<Longrightarrow> m s = (r, s') \<Longrightarrow> s' = s"
  unfolding reads_only_def by (metis snd_conv)

lemma reads_only_discover: "reads_only (discoverSubject sv e org)"
  unfolding discoverSubject_def Let_def by (intro reads_only_bnd) auto

lemma reads_only_aliases: "reads_only (subjectAliases sv k org)"
  unfolding subjectAliases_def by auto

lemma reads_only_hold: "reads_only (holdCheck sv k org e)"
  unfolding holdCheck_def Let_def using reads_only_aliases by auto

lemma reads_only_inventory: "reads_only (inventory P k org)"
  unfolding inventory_def Let_def by (auto intro!: reads_only_bnd)

lemma reads_only_threads: "reads_only (subjectThreadIds P k)"
  unfolding subjectThreadIds_def by auto

section \<open>Exchanging the executors\<close>

definition with_executors :: "'s erasure_service \<Rightarrow> (string \<Rightarrow> string \<Rightarrow> erasure_resume_plan option \<Rightarrow> 's executors) \<Rightarrow> 's erasure_service" where
  "with_executors sv ex = sv\<lparr>sv_executors := ex\<rparr>"

lemma with_executors_sel [simp]:
  "sv_operations (with_executors sv ex) = sv_operations sv" "sv_pg (with_executors sv ex) = sv_pg sv"
  "sv_identities (with_executors sv ex) = sv_identities sv" "sv_tombstones (with_executors sv ex) = sv_tombstones sv"
  "sv_environments (with_executors sv ex) = sv_environments sv" "sv_auditSink (with_executors sv ex) = sv_auditSink sv"
  "sv_hasher (with_executors sv ex) = sv_hasher sv" "sv_salt (with_executors sv ex) = sv_salt sv"
  "sv_saltEnv (with_executors sv ex) = sv_saltEnv sv" "sv_legalHoldUserIds (with_executors sv ex) = sv_legalHoldUserIds sv"
  "sv_maxRetries (with_executors sv ex) = sv_maxRetries sv" "sv_ttlDays (with_executors sv ex) = sv_ttlDays sv"
  "sv_iso (with_executors sv ex) = sv_iso sv" "sv_time (with_executors sv ex) = sv_time sv"
  "sv_clock (with_executors sv ex) = sv_clock sv" "sv_toNumber (with_executors sv ex) = sv_toNumber sv"
  "sv_showNumber (with_executors sv ex) = sv_showNumber sv" "sv_localeLe (with_executors sv ex) = sv_localeLe sv"
  "sv_executors (with_executors sv ex) = ex"
  by (simp_all add: with_executors_def)

lemma with_executors_ops [simp]:
  "sv_hash (with_executors sv ex) = sv_hash sv" "toReceipt (with_executors sv ex) = toReceipt sv"
  "audit (with_executors sv ex) = audit sv" "auditBestEffort (with_executors sv ex) = auditBestEffort sv"
  "seal (with_executors sv ex) = seal sv" "claimLease (with_executors sv ex) = claimLease sv"
  "releaseLease (with_executors sv ex) = releaseLease sv" "abandonPass (with_executors sv ex) = abandonPass sv"
  "persisted (with_executors sv ex) = persisted sv"
  "discoverSubject (with_executors sv ex) = discoverSubject sv" "subjectAliases (with_executors sv ex) = subjectAliases sv"
  "set_columns (with_executors sv ex) = set_columns sv" "default_options (with_executors sv ex) = default_options sv"
  "existingReceiptForSubject (with_executors sv ex) = existingReceiptForSubject sv"
  "new_operation (with_executors sv ex) = new_operation sv"
  unfolding sv_hash_def toReceipt_def audit_def auditBestEffort_def seal_def seal_request_def claimLease_def
    releaseLease_def abandonPass_def persisted_def discoverSubject_def subjectAliases_def set_columns_def
    default_options_def existingReceiptForSubject_def new_operation_def fun_eq_iff with_executors_sel
  by simp_all

lemma with_executors_ops2 [simp]:
  "holdCheck (with_executors sv ex) = holdCheck sv" "persist (with_executors sv ex) = persist sv"
  "create_or_race (with_executors sv ex) = create_or_race sv"
  unfolding holdCheck_def persist_def create_or_race_def fun_eq_iff with_executors_sel with_executors_ops by simp_all

lemma with_executors_finish [simp]: "finish (with_executors sv ex) = finish sv"
  unfolding finish_def fun_eq_iff with_executors_sel with_executors_ops with_executors_ops2 by simp

text \<open>What was checked and done before the executors are consulted.\<close>

definition request_cleared :: "'s erasure_service \<Rightarrow> string \<Rightarrow> string \<Rightarrow> string \<Rightarrow> string option \<Rightarrow> audit_actor option
    \<Rightarrow> string \<Rightarrow> int \<Rightarrow> 's \<Rightarrow> subject_keys \<Rightarrow> 's \<Rightarrow> bool" where
  "request_cleared sv ext org idem policy actor operationId now s subject s3 \<longleftrightarrow>
     findFirst (sv_operations sv) (\<lambda>r. op_organizationId r = org \<and> op_idempotencyKey r = idem) s = Inr None
     \<and> discoverSubject sv ext org s = (Inr subject, s)
     \<and> (\<exists>aliases registerHold invt s1 s2.
          holdCheck sv subject org (Some ext) s = (Inr (aliases, registerHold), s)
          \<and> \<not> truthy (case policy of Some p \<Rightarrow> Some p | None \<Rightarrow> registerHold)
          \<and> audit sv \<lparr>as_organizationId = org, as_scopes = scopes subject, as_actor = actor,
               as_forbidden = [ext] @ legacyUserIds subject @ aliases\<rparr>
             (\<lambda>a. requestedAudit operationId (sv_hash sv ext org) ERASURE_POLICY_VERSION CauseRequest Full a invt
                EXECUTION_ORDER 0) s1 = (Inr (), s2)
          \<and> seal sv subject operationId org (Some ext) now s2 = (Inr (), s3))"

lemma run_request_diff:
  assumes "run_request (with_executors sv ex1) ext org policy actor token now row subject invt plan forb s
    \<noteq> run_request (with_executors sv ex2) ext org policy actor token now row subject invt plan forb s"
  obtains s2 s3 where
    "audit sv \<lparr>as_organizationId = org, as_scopes = scopes subject, as_actor = actor, as_forbidden = forb\<rparr>
       (\<lambda>a. requestedAudit (op_id row) (sv_hash sv ext org) ERASURE_POLICY_VERSION CauseRequest Full a invt
          EXECUTION_ORDER 0) s = (Inr (), s2)"
    "seal sv subject (op_id row) org (Some ext) now s2 = (Inr (), s3)"
  using assms unfolding run_request_def Let_def with_executors_ops with_executors_finish with_executors_sel
  by (auto dest!: bnd_diff)

lemma new_operation_id [simp]: "op_id (new_operation sv i k h o1 sub plan heldBy token now) = i"
  by (simp add: new_operation_def Let_def)

lemma request_diff:
  assumes "requestErasure (with_executors sv ex1) ext org idem policy actor operationId token now s
    \<noteq> requestErasure (with_executors sv ex2) ext org idem policy actor operationId token now s"
  shows "\<exists>subject s3. request_cleared sv ext org idem policy actor operationId now s subject s3"
proof -
  from assms have none: "findFirst (sv_operations sv) (\<lambda>r. op_organizationId r = org \<and> op_idempotencyKey r = idem) s = Inr None"
    and d: "start_request (with_executors sv ex1) ext org idem policy actor operationId token now s
      \<noteq> start_request (with_executors sv ex2) ext org idem policy actor operationId token now s"
    unfolding requestErasure_def Let_def with_executors_ops with_executors_sel
    by (auto dest!: bnd_diff simp: query_def split: sum.splits option.splits if_splits)
  let ?held = "\<lambda>rh. case policy of Some p \<Rightarrow> Some p | None \<Rightarrow> rh"
  from d obtain subject s1 invt s1a aliases rh s1b plan s1c s1d where
    1: "discoverSubject sv ext org s = (Inr subject, s1)"
    and 2: "inventory (sv_pg sv) subject org s1 = (Inr invt, s1a)"
    and 3: "holdCheck sv subject org (Some ext) s1a = (Inr (aliases, rh), s1b)"
    and 4: "\<not> truthy (?held rh)"
    and 5: "run_request (with_executors sv ex1) ext org policy actor token now
        (new_operation sv operationId idem (sv_hash sv ext org) org subject plan (?held rh) token now) subject invt plan
        ([ext] @ legacyUserIds subject @ aliases) s1d
      \<noteq> run_request (with_executors sv ex2) ext org policy actor token now
        (new_operation sv operationId idem (sv_hash sv ext org) org subject plan (?held rh) token now) subject invt plan
        ([ext] @ legacyUserIds subject @ aliases) s1d"
    unfolding start_request_def Let_def with_executors_ops with_executors_ops2 with_executors_sel
    by (auto dest!: bnd_diff split: prod.splits option.splits if_splits)
  have st: "s1 = s" "s1a = s" "s1b = s"
    using reads_onlyD [OF reads_only_discover 1] reads_onlyD [OF reads_only_inventory 2]
      reads_onlyD [OF reads_only_hold 3] by simp_all
  show ?thesis
    by (rule run_request_diff [OF 5]) (use none 1 3 4 st in \<open>auto simp: request_cleared_def\<close>)
qed

definition resume_cleared :: "'s erasure_service \<Rightarrow> operation_row \<Rightarrow> resume_args \<Rightarrow> string \<Rightarrow> 's \<Rightarrow> erasure_receipt \<Rightarrow> 's \<Rightarrow> bool" where
  "resume_cleared sv row args token s current s3 \<longleftrightarrow>
     fst (canRetry (toReceipt sv row)) \<and> storesNeedingRetry (toReceipt sv row) \<noteq> []
     \<and> (\<exists>aliases heldBy. holdCheck sv (ra_subject args) (op_organizationId row) (ra_externalUserId args) s
          = (Inr (aliases, heldBy), s) \<and> \<not> truthy heldBy)
     \<and> fst (canRetry current) \<and> storesNeedingRetry current \<noteq> []
     \<and> (\<exists>s1 s2 claimed. claimLease sv (op_id row) token (ra_now args) s = (Inr True, s1)
          \<and> findFirst (sv_operations sv) (\<lambda>r. op_id r = op_id row) s1 = Inr claimed
          \<and> current = (case claimed of Some c \<Rightarrow> toReceipt sv c | None \<Rightarrow> toReceipt sv row)
          \<and> audit sv \<lparr>as_organizationId = op_organizationId row, as_scopes = er_scopes (toReceipt sv row),
               as_actor = ra_actor args, as_forbidden = ra_forbidden args\<rparr>
             (\<lambda>a. requestedAudit (er_operationId current) (er_subjectKeyHash current) (er_policyVersion current)
                (ra_cause args) (ra_coverage args) a [] (storesNeedingRetry current) (er_retryCount current)) s1 = (Inr (), s2)
          \<and> seal sv (ra_subject args) (op_id row) (op_organizationId row) (ra_externalUserId args) (ra_now args) s2
             = (Inr (), s3))"

lemma leased_pass_diff:
  assumes "leased_pass (with_executors sv ex1) row sc args token current s
    \<noteq> leased_pass (with_executors sv ex2) row sc args token current s"
  obtains s2 s3 where
    "audit sv sc (\<lambda>a. requestedAudit (er_operationId current) (er_subjectKeyHash current) (er_policyVersion current)
        (ra_cause args) (ra_coverage args) a [] (storesNeedingRetry current) (er_retryCount current)) s = (Inr (), s2)"
    "seal sv (ra_subject args) (op_id row) (op_organizationId row) (ra_externalUserId args) (ra_now args) s2 = (Inr (), s3)"
  using assms unfolding leased_pass_def with_executors_ops with_executors_finish with_executors_sel
  by (auto dest!: bnd_diff simp: attempt_Inr bnd_Inr split: sum.splits)

lemma query_first: "query (findFirst T p) s = (Inr x, s') \<longleftrightarrow> s' = s \<and> findFirst T p s = Inr x"
  by (auto simp: query_def split: sum.splits)

lemma resume_diff:
  assumes "runResumePass (with_executors sv ex1) row args token s \<noteq> runResumePass (with_executors sv ex2) row args token s"
  shows "\<exists>current s3. resume_cleared sv row args token s current s3"
proof -
  let ?sc = "\<lparr>as_organizationId = op_organizationId row, as_scopes = er_scopes (toReceipt sv row),
     as_actor = ra_actor args, as_forbidden = ra_forbidden args\<rparr>"
  from assms obtain aliases heldBy s0 s1 where
    1: "fst (canRetry (toReceipt sv row))"
    and 2: "holdCheck sv (ra_subject args) (op_organizationId row) (ra_externalUserId args) s = (Inr (aliases, heldBy), s0)"
    and 3: "\<not> truthy heldBy" "storesNeedingRetry (toReceipt sv row) \<noteq> []"
    and 4: "claimLease sv (op_id row) token (ra_now args) s0 = (Inr True, s1)"
    and 5: "claimed_pass (with_executors sv ex1) row (toReceipt sv row) ?sc args token s1
      \<noteq> claimed_pass (with_executors sv ex2) row (toReceipt sv row) ?sc args token s1"
    unfolding runResumePass_def Let_def with_executors_ops with_executors_ops2 with_executors_sel
    by (auto dest!: bnd_diff split: if_splits prod.splits)
  have s0: "s0 = s" using reads_onlyD [OF reads_only_hold 2] .
  from 5 obtain claimed where
    6: "findFirst (sv_operations sv) (\<lambda>r. op_id r = op_id row) s1 = Inr claimed"
    and 7: "fst (canRetry (case claimed of Some c \<Rightarrow> toReceipt sv c | None \<Rightarrow> toReceipt sv row))"
      "storesNeedingRetry (case claimed of Some c \<Rightarrow> toReceipt sv c | None \<Rightarrow> toReceipt sv row) \<noteq> []"
    and 8: "leased_pass (with_executors sv ex1) row ?sc args token (case claimed of Some c \<Rightarrow> toReceipt sv c | None \<Rightarrow> toReceipt sv row) s1
      \<noteq> leased_pass (with_executors sv ex2) row ?sc args token (case claimed of Some c \<Rightarrow> toReceipt sv c | None \<Rightarrow> toReceipt sv row) s1"
    unfolding claimed_pass_def Let_def with_executors_ops with_executors_sel
    by (auto dest!: bnd_diff simp: query_first split: if_splits)
  show ?thesis
    by (rule leased_pass_diff [OF 8], rule exI, rule exI)
      (unfold resume_cleared_def, use 1 2 3 4 6 7 s0 in blast)
qed

section \<open>Holds\<close>

lemma findLegalHold_None:
  assumes "findLegalHold subject requested holds = None" "h \<in> set holds" "a \<in> hold_aliases subject requested"
  shows "to_lower h \<noteq> to_lower a"
proof -
  let ?al = "nub (map to_lower (filter (\<lambda>a. length a > 0)
    (requested # legacyUserIds subject @ platosEndUserIds subject)))"
  have al: "set ?al = to_lower ` hold_aliases subject requested" by (auto simp: hold_aliases_def)
  from assms(1) have "holds = [] \<or> scan_holds ?al 0 holds = None" by (simp add: findLegalHold_def split: if_splits)
  with assms(2,3) show ?thesis using al by (auto simp: scan_holds_None)
qed

text \<open>The handles a hold may be filed under: the requested id, the canonical ids, every identity
  handle bare and qualified by its channel.\<close>

definition subject_handles :: "end_user_identity multiset \<Rightarrow> string \<Rightarrow> subject_keys \<Rightarrow> string option \<Rightarrow> string set" where
  "subject_handles ids org subject ext = {h. h \<noteq> [] \<and> (ext = Some h \<or> h \<in> set (platosEndUserIds subject) \<or> h \<in> set (legacyUserIds subject)
     \<or> (\<exists>r. r \<in># ids \<and> idn_organizationId r = org \<and> idn_endUserId r \<in> set (platosEndUserIds subject)
          \<and> (h = idn_subject r \<or> h = idn_channel r @ '':'' @ idn_subject r)))}"

lemma legalHoldReference_truthy: "truthy (Some (legalHoldReference m h))"
  by (simp add: truthy_def legalHoldReference_def LEGAL_HOLD_REFERENCE_PREFIX_def)

lemma aliases_cover:
  assumes "prisma_table (sv_identities sv) irows ikey" "subjectAliases sv subject org s = (Inr al, s)"
    and "r \<in># irows s" "idn_organizationId r = org" "idn_endUserId r \<in> set (platosEndUserIds subject)"
    and "h = idn_subject r \<or> h = idn_channel r @ '':'' @ idn_subject r" "h \<noteq> []"
  shows "h \<in> set al"
proof -
  have ne: "platosEndUserIds subject \<noteq> []" using assms(5) by auto
  then obtain rows where f: "findMany (sv_identities sv) (\<lambda>r. idn_organizationId r = org
      \<and> idn_endUserId r \<in> set (platosEndUserIds subject)) s = Inr rows"
    and al: "al = filter (\<lambda>a. length a > 0) (concat (map (\<lambda>r. [idn_subject r, idn_channel r @ '':'' @ idn_subject r]) rows))"
    using assms(2) by (auto simp: subjectAliases_def bnd_Inr query_def ret_def split: sum.splits)
  from prisma_table.many_iff [OF assms(1) f] assms(3-5) have "r \<in> set rows" by simp
  with al assms(6,7) show ?thesis by force
qed

lemma hold_check_clear:
  assumes tab: "prisma_table (sv_identities sv) irows ikey"
    and hc: "holdCheck sv subject org ext s = (Inr (al, heldBy), s)" and no: "\<not> truthy heldBy"
    and h: "h \<in> set (parseLegalHoldList (sv_legalHoldUserIds sv))"
    and a: "a \<in> subject_handles (irows s) org subject ext"
  shows "to_lower h \<noteq> to_lower a"
proof -
  have ne: "parseLegalHoldList (sv_legalHoldUserIds sv) \<noteq> []" using h by auto
  then obtain al' where sa: "subjectAliases sv subject org s = (Inr al', s)"
    and fl: "map_option (\<lambda>m. legalHoldReference m (sv_hash sv (hold_value m) org))
      (findLegalHold (subject\<lparr>legacyUserIds := legacyUserIds subject @ al'\<rparr>) (or_empty ext)
        (parseLegalHoldList (sv_legalHoldUserIds sv))) = heldBy"
    using hc reads_onlyD [OF reads_only_aliases]
    by (auto simp: holdCheck_def Let_def bnd_Inr ret_def)
  have "findLegalHold (subject\<lparr>legacyUserIds := legacyUserIds subject @ al'\<rparr>) (or_empty ext)
      (parseLegalHoldList (sv_legalHoldUserIds sv)) = None"
    using fl no legalHoldReference_truthy by (cases "findLegalHold (subject\<lparr>legacyUserIds := legacyUserIds subject @ al'\<rparr>)
      (or_empty ext) (parseLegalHoldList (sv_legalHoldUserIds sv))") auto
  moreover have "a \<in> hold_aliases (subject\<lparr>legacyUserIds := legacyUserIds subject @ al'\<rparr>) (or_empty ext)"
    using a aliases_cover [OF tab sa] by (auto simp: hold_aliases_def subject_handles_def or_empty_def)
  ultimately show ?thesis using h by (rule_tac findLegalHold_None)
qed

section \<open>Leases\<close>

datatype lease_event = Claimed string int | Denied string int | Released string | Abandoned string | Wrote

text \<open>
  Any interleaving of the operations that touch an operation's row: claims, releases and
  abandoned passes by whoever holds whichever token, receipts persisted by passes that may
  have lost their lease, column writes that leave the lease alone, and statements that throw.
\<close>

inductive lease_run :: "'s erasure_service \<Rightarrow> ('s \<Rightarrow> operation_row multiset) \<Rightarrow> string \<Rightarrow> 's \<Rightarrow> lease_event list \<Rightarrow> 's \<Rightarrow> bool"
  for sv rows i s where
  lr_start: "lease_run sv rows i s [] s"
| lr_claim: "lease_run sv rows i s es s1 \<Longrightarrow> claimLease sv i token now s1 = (Inr got, s2) \<Longrightarrow>
    lease_run sv rows i s (es @ [if got then Claimed token now else Denied token now]) s2"
| lr_release: "lease_run sv rows i s es s1 \<Longrightarrow> releaseLease sv i token c s1 = (Inr (), s2) \<Longrightarrow>
    lease_run sv rows i s (es @ [Released token]) s2"
| lr_abandon: "lease_run sv rows i s es s1 \<Longrightarrow> er_operationId r = i \<Longrightarrow> abandonPass sv r token now s1 = (Inr (), s2) \<Longrightarrow>
    lease_run sv rows i s (es @ [Abandoned token]) s2"
| lr_persist: "lease_run sv rows i s es s1 \<Longrightarrow> persist sv r forbidden nextRetryAt s1 = (x, s2) \<Longrightarrow>
    lease_run sv rows i s (es @ [Wrote]) s2"
| lr_columns: "lease_run sv rows i s es s1 \<Longrightarrow>
    (\<And>r. op_id (f r) = op_id r \<and> op_leaseToken (f r) = op_leaseToken r \<and> op_leaseExpiresAt (f r) = op_leaseExpiresAt r) \<Longrightarrow>
    set_columns sv j f s1 = (x, s2) \<Longrightarrow> lease_run sv rows i s (es @ [Wrote]) s2"
| lr_other: "lease_run sv rows i s es s1 \<Longrightarrow> rows s2 = rows s1 \<Longrightarrow> lease_run sv rows i s (es @ [Wrote]) s2"

definition the_row :: "operation_row multiset \<Rightarrow> string \<Rightarrow> operation_row \<Rightarrow> bool" where
  "the_row m i row \<longleftrightarrow> filter_mset (\<lambda>r. op_id r = i) m = {#row#}"

lemma filter_image_id:
  assumes "\<And>r. op_id (g r) = op_id r"
  shows "filter_mset (\<lambda>r. op_id r = i) (image_mset g m) = image_mset g (filter_mset (\<lambda>r. op_id r = i) m)"
  by (simp add: filter_mset_image_mset comp_def assms)

lemma the_row_update:
  assumes "prisma_table T rows key" "updateMany T p f s = Inr (n, s')" "the_row (rows s) i row" "\<And>r. op_id (f r) = op_id r"
  shows "the_row (rows s') i (if p row then f row else row)"
  using prisma_table.updated [OF assms(1,2)] assms(3,4)
  by (simp add: the_row_def filter_image_id)

lemma update_count:
  assumes "prisma_table T rows key" "updateMany T p f s = Inr (n, s')" "the_row (rows s) i row" "\<And>r. p r \<Longrightarrow> op_id r = i"
  shows "n = (if p row then 1 else 0)"
proof -
  have "filter_mset p (rows s) = filter_mset p (filter_mset (\<lambda>r. op_id r = i) (rows s))"
    using assms(4) by (simp add: filter_filter_mset) (metis (mono_tags, lifting) filter_mset_cong)
  also have "\<dots> = (if p row then {#row#} else {#})" using assms(3) by (simp add: the_row_def)
  finally show ?thesis using prisma_table.updated [OF assms(1,2)] by simp
qed

lemma command_Inr: "command f s = (Inr n, s') \<longleftrightarrow> f s = Inr (n, s')"
  by (auto simp: command_def split: sum.splits)

lemma update_one_cases:
  assumes "update_one T p f s = (x, s')"
  obtains "s' = s" | n where "updateMany T p f s = Inr (n, s')"
  using assms
  by (auto simp: update_one_def bnd_def command_def ret_def throw_def split: sum.splits prod.splits if_splits)

definition same_lease :: "operation_row \<Rightarrow> operation_row \<Rightarrow> bool" where
  "same_lease r r' \<longleftrightarrow> op_leaseToken r' = op_leaseToken r \<and> op_leaseExpiresAt r' = op_leaseExpiresAt r"

lemma update_one_lease:
  assumes "prisma_table T rows key" "update_one T p f s = (x, s')" "the_row (rows s) i row"
    and "\<And>r. op_id (f r) = op_id r \<and> same_lease r (f r)"
  shows "\<exists>row'. the_row (rows s') i row' \<and> same_lease row row'"
  using assms(2)
proof (cases rule: update_one_cases)
  case 1
  then show ?thesis using assms(3) by (auto simp: same_lease_def)
next
  case (2 n)
  from the_row_update [OF assms(1) 2 assms(3)] assms(4) show ?thesis
    by (auto simp: same_lease_def split: if_splits)
qed

lemma persist_lease:
  assumes "prisma_table (sv_operations sv) rows key" "persist sv r forb nxt s = (x, s')" "the_row (rows s) i row"
  shows "\<exists>row'. the_row (rows s') i row' \<and> same_lease row row'"
proof (cases "assertContentFree r forb")
  case (Inl m)
  with assms(2,3) show ?thesis by (auto simp: persist_def throw_def same_lease_def)
next
  case (Inr u)
  with assms(2) have "update_one (sv_operations sv) (\<lambda>row. op_id row = er_operationId r) (persisted sv r nxt) s = (x, s')"
    by (simp add: persist_def)
  from update_one_lease [OF assms(1) this assms(3)] show ?thesis by (simp add: persisted_def same_lease_def)
qed

definition lease_free :: "operation_row \<Rightarrow> int \<Rightarrow> bool" where
  "lease_free r now = isLeaseFree (op_leaseExpiresAt r) now"

lemma claim_step:
  assumes "prisma_table (sv_operations sv) rows key" "claimLease sv i token now s = (Inr got, s')" "the_row (rows s) i row"
  shows "got = lease_free row now"
    and "the_row (rows s') i (if lease_free row now
       then row\<lparr>op_leaseToken := Some token, op_leaseExpiresAt := Some (leaseUntil now)\<rparr> else row)"
proof -
  let ?p = "\<lambda>r. op_id r = i \<and> (case op_leaseExpiresAt r of None \<Rightarrow> True | Some t \<Rightarrow> t \<le> now)"
  let ?f = "\<lambda>r. r\<lparr>op_leaseToken := Some token, op_leaseExpiresAt := Some (leaseUntil now)\<rparr>"
  from assms(2) obtain n where u: "updateMany (sv_operations sv) ?p ?f s = Inr (n, s')" and g: "got = (n = 1)"
    by (auto simp: claimLease_def bnd_Inr command_Inr ret_def)
  have "row \<in># filter_mset (\<lambda>r. op_id r = i) (rows s)" using assms(3) by (simp add: the_row_def)
  then have "op_id row = i" by simp
  then have p: "?p row \<longleftrightarrow> lease_free row now" by (simp add: lease_free_def isLeaseFree_def)
  show "got = lease_free row now" using update_count [OF assms(1) u assms(3)] g p by simp
  show "the_row (rows s') i (if lease_free row now then ?f row else row)"
    using the_row_update [OF assms(1) u assms(3)] p by simp
qed

lemma token_step:
  assumes "prisma_table (sv_operations sv) rows key" "the_row (rows s) i row"
    and "releaseLease sv i token c s = (Inr (), s') \<or> er_operationId r = i \<and> abandonPass sv r token now s = (Inr (), s')"
  shows "\<exists>row'. the_row (rows s') i row' \<and> (op_leaseToken row \<noteq> Some token \<longrightarrow> same_lease row row')"
  using assms(3)
proof
  assume "releaseLease sv i token c s = (Inr (), s')"
  then obtain n where u: "updateMany (sv_operations sv) (\<lambda>r. op_id r = i \<and> op_leaseToken r = Some token)
      (\<lambda>r. (if c then r\<lparr>op_nextRetryAt := None\<rparr> else r)\<lparr>op_leaseToken := None, op_leaseExpiresAt := None\<rparr>) s = Inr (n, s')"
    by (auto simp: releaseLease_def bnd_Inr command_Inr ret_def)
  have "the_row (rows s') i (if op_id row = i \<and> op_leaseToken row = Some token
      then (if c then row\<lparr>op_nextRetryAt := None\<rparr> else row)\<lparr>op_leaseToken := None, op_leaseExpiresAt := None\<rparr> else row)"
    by (rule the_row_update [OF assms(1) u assms(2)]) simp
  then show ?thesis by (auto simp: same_lease_def split: if_splits)
next
  assume a: "er_operationId r = i \<and> abandonPass sv r token now s = (Inr (), s')"
  then obtain n k x where u: "updateMany (sv_operations sv) (\<lambda>q. op_id q = i \<and> op_leaseToken q = Some token)
      (\<lambda>q. q\<lparr>op_retryCount := k, op_nextRetryAt := x, op_leaseToken := None, op_leaseExpiresAt := None\<rparr>) s = Inr (n, s')"
    by (auto simp: abandonPass_def bnd_Inr command_Inr ret_def Let_def)
  from the_row_update [OF assms(1) u assms(2)] show ?thesis by (auto simp: same_lease_def split: if_splits)
qed

text \<open>No claim, and no release or abandonment under \<open>a\<close>'s token.\<close>

definition quiet :: "string \<Rightarrow> lease_event list \<Rightarrow> bool" where
  "quiet a es = list_all (\<lambda>e. case e of Claimed _ _ \<Rightarrow> False | Released b \<Rightarrow> b \<noteq> a | Abandoned b \<Rightarrow> b \<noteq> a | _ \<Rightarrow> True) es"

definition held_since :: "lease_event list \<Rightarrow> string \<Rightarrow> int \<Rightarrow> bool" where
  "held_since es a t \<longleftrightarrow> (\<exists>es1 es2. es = es1 @ Claimed a t # es2 \<and> quiet a es2)"

lemma held_since_snoc:
  "held_since (es @ [e]) a t \<longleftrightarrow> e = Claimed a t \<or> held_since es a t \<and> quiet a [e]"
proof
  assume "held_since (es @ [e]) a t"
  then obtain es1 es2 where d: "es @ [e] = es1 @ Claimed a t # es2" "quiet a es2" by (auto simp: held_since_def)
  show "e = Claimed a t \<or> held_since es a t \<and> quiet a [e]"
  proof (cases es2 rule: rev_cases)
    case Nil
    with d show ?thesis by simp
  next
    case (snoc ys y)
    with d show ?thesis by (auto simp: held_since_def quiet_def)
  qed
next
  assume r: "e = Claimed a t \<or> held_since es a t \<and> quiet a [e]"
  show "held_since (es @ [e]) a t"
  proof (cases "e = Claimed a t")
    case True
    then show ?thesis unfolding held_since_def by (intro exI [of _ es] exI [of _ "[]"]) (simp add: quiet_def)
  next
    case False
    with r obtain es1 es2 where "es = es1 @ Claimed a t # es2" "quiet a es2" "quiet a [e]" by (auto simp: held_since_def)
    then show ?thesis unfolding held_since_def by (intro exI [of _ es1] exI [of _ "es2 @ [e]"]) (auto simp: quiet_def)
  qed
qed

definition lease_inv :: "operation_row multiset \<Rightarrow> string \<Rightarrow> lease_event list \<Rightarrow> bool" where
  "lease_inv m i es \<longleftrightarrow> (\<exists>row. the_row m i row \<and>
     (\<forall>a t. held_since es a t \<longrightarrow> op_leaseToken row = Some a \<and> op_leaseExpiresAt row = Some (leaseUntil t)))"

lemma lease_inv_quiet:
  assumes "lease_inv m i es" "\<And>row. the_row m i row \<Longrightarrow> \<exists>row'. the_row m' i row' \<and>
    ((\<forall>a. op_leaseToken row = Some a \<longrightarrow> quiet a [e]) \<longrightarrow> same_lease row row')"
    and "\<forall>a t. e \<noteq> Claimed a t"
  shows "lease_inv m' i (es @ [e])"
proof -
  from assms(1) obtain row where row: "the_row m i row" and
    h: "\<forall>a t. held_since es a t \<longrightarrow> op_leaseToken row = Some a \<and> op_leaseExpiresAt row = Some (leaseUntil t)"
    by (auto simp: lease_inv_def)
  from assms(2) [OF row] obtain row' where row': "the_row m' i row'"
    "(\<forall>a. op_leaseToken row = Some a \<longrightarrow> quiet a [e]) \<longrightarrow> same_lease row row'" by blast
  show ?thesis unfolding lease_inv_def held_since_snoc
  proof (intro exI [of _ row'] conjI row'(1) allI impI)
    fix a t assume "e = Claimed a t \<or> held_since es a t \<and> quiet a [e]"
    with assms(3) have hs: "held_since es a t" "quiet a [e]" by auto
    with h row'(2) show "op_leaseToken row' = Some a" "op_leaseExpiresAt row' = Some (leaseUntil t)"
      by (auto simp: same_lease_def)
  qed
qed

lemma lease_run_inv:
  assumes tab: "prisma_table (sv_operations sv) rows key"
  shows "lease_run sv rows i s es s' \<Longrightarrow> the_row (rows s) i row0 \<Longrightarrow> lease_inv (rows s') i es"
proof (induction rule: lease_run.induct)
  case lr_start
  then show ?case by (auto simp: lease_inv_def held_since_def)
next
  case (lr_claim es s1 token now got s2)
  then obtain row where row: "the_row (rows s1) i row"
    and h: "\<forall>a t. held_since es a t \<longrightarrow> op_leaseToken row = Some a \<and> op_leaseExpiresAt row = Some (leaseUntil t)"
    by (auto simp: lease_inv_def)
  note st = claim_step [OF tab lr_claim.hyps(2) row]
  show ?case unfolding lease_inv_def held_since_snoc
    by (rule exI, rule conjI, rule st(2)) (use st(1) h in \<open>auto simp: quiet_def\<close>)
next
  case (lr_release es s1 token c s2)
  show ?case
    by (rule lease_inv_quiet [OF lr_release.IH [OF lr_release.prems]])
      (use token_step [OF tab _ disjI1 [OF lr_release.hyps(2)]] in \<open>force simp: quiet_def\<close>)+
next
  case (lr_abandon es s1 r token now s2)
  show ?case
    by (rule lease_inv_quiet [OF lr_abandon.IH [OF lr_abandon.prems]])
      (use token_step [OF tab _ disjI2 [OF conjI [OF lr_abandon.hyps(2,3)]]] in \<open>force simp: quiet_def\<close>)+
next
  case (lr_persist es s1 r forbidden nextRetryAt x s2)
  show ?case
    by (rule lease_inv_quiet [OF lr_persist.IH [OF lr_persist.prems]])
      (use persist_lease [OF tab lr_persist.hyps(2)] in blast)+
next
  case (lr_columns es s1 f j x s2)
  show ?case
  proof (rule lease_inv_quiet [OF lr_columns.IH [OF lr_columns.prems]])
    fix row assume row: "the_row (rows s1) i row"
    have "update_one (sv_operations sv) (\<lambda>r. op_id r = j) f s1 = (x, s2)"
      using lr_columns.hyps(3) by (simp add: set_columns_def)
    from update_one_lease [OF tab this row] lr_columns.hyps(2)
    show "\<exists>row'. the_row (rows s2) i row' \<and> ((\<forall>a. op_leaseToken row = Some a \<longrightarrow> quiet a [Wrote]) \<longrightarrow> same_lease row row')"
      by (auto simp: same_lease_def)
  qed simp
next
  case (lr_other es s1 s2)
  show ?case
    by (rule lease_inv_quiet [OF lr_other.IH [OF lr_other.prems]])
      (use lr_other.hyps(2) in \<open>auto simp: same_lease_def\<close>)
qed

lemma lease_run_claim:
  "lease_run sv rows i s es s' \<Longrightarrow> es = xs @ Claimed b u # ys \<Longrightarrow>
     \<exists>s1 s2. lease_run sv rows i s xs s1 \<and> claimLease sv i b u s1 = (Inr True, s2)"
proof (induction arbitrary: ys rule: lease_run.induct)
  case (lr_claim es s1 token now got s2)
  then show ?case by (cases ys rule: rev_cases) (auto split: if_splits)
next
  case (lr_release es s1 token c s2)
  then show ?case by (cases ys rule: rev_cases) auto
next
  case (lr_abandon es s1 r token now s2)
  then show ?case by (cases ys rule: rev_cases) auto
next
  case (lr_persist es s1 r forbidden nextRetryAt x s2)
  then show ?case by (cases ys rule: rev_cases) auto
next
  case (lr_columns es s1 f j x s2)
  then show ?case by (cases ys rule: rev_cases) auto
next
  case (lr_other es s1 s2)
  then show ?case by (cases ys rule: rev_cases) auto
qed simp

section \<open>Statuses\<close>

lemma toReceipt_status:
  "er_status (toReceipt sv (persisted sv r nxt row)) = (if truthy (er_legalHoldPolicyId r) then BlockedLegalHold
     else case er_status r of Completed \<Rightarrow> Completed | Running \<Rightarrow> Running
       | PartialFailure \<Rightarrow> deriveStatus (er_stores r) False True
       | VerificationFailed \<Rightarrow> deriveStatus (er_stores r) False True | _ \<Rightarrow> Pending)"
  by (cases "er_status r") (simp_all add: toReceipt_def persisted_def)

section \<open>Properties\<close>


text \<open>
  C12: The same for a retry, whether an operator's or the queue's: a store is touched only if
  the recorded operation may be retried and has outstanding stores, the register as it stands
  now does not hold the subject, the lease was won, the operation read again under the lease
  still may be retried and has outstanding stores, the intent was recorded and the subject
  sealed again.
\<close>

theorem resume_guards:
  assumes "runResumePass (with_executors sv ex1) row args token s \<noteq> runResumePass (with_executors sv ex2) row args token s"
  shows "\<exists>current s3. resume_cleared sv row args token s current s3"
  by (rule resume_diff [OF assms])


text \<open>
  C13: Passes exclude each other. In any interleaving of claims, releases, abandoned passes,
  persisted receipts and other writes on an operation, a pass that wins the lease while an
  earlier winner has neither released nor abandoned it does so only once that lease has run
  out. In particular a late release under a stale token, or a receipt persisted after the
  lease was lost, frees nobody else's lease.
\<close>

theorem lease_exclusive:
  assumes "prisma_table (sv_operations sv) rows key" "the_row (rows s) operationId row"
    and "lease_run sv rows operationId s (es1 @ Claimed a t # es2 @ Claimed b u # es3) s'"
    and "quiet a es2"
  shows "t + LEASE_TTL_MS \<le> u"
proof -
  from lease_run_claim [OF assms(3), of "es1 @ Claimed a t # es2" b u es3]
  obtain s1 s2 where r: "lease_run sv rows operationId s (es1 @ Claimed a t # es2) s1"
    and c: "claimLease sv operationId b u s1 = (Inr True, s2)" by auto
  have "held_since (es1 @ Claimed a t # es2) a t" using assms(4) by (auto simp: held_since_def)
  with lease_run_inv [OF assms(1) r assms(2)] obtain row' where row': "the_row (rows s1) operationId row'"
    "op_leaseExpiresAt row' = Some (leaseUntil t)" by (auto simp: lease_inv_def)
  from claim_step(1) [OF assms(1) c row'(1)] row'(2) show ?thesis
    by (simp add: lease_free_def isLeaseFree_def leaseUntil_def)
qed

text \<open>
  A finished pass reads back with the status it reported. The receipt of any pass that
  swept a subject, persisted and read from its row again, has the same status, stores and
  retry count, although the database keeps fewer statuses than the receipt.
\<close>

lemma status_roundtrip:
  assumes "\<not> isEmptySubject subject" "ro_legalHold opts = None" "er_legalHoldPolicyId receipt = None"
    and "runErasure receipt subject ex opts w = (r, w')"
  shows "er_status (toReceipt sv (persisted sv r nxt row)) = er_status r
    \<and> er_stores (toReceipt sv (persisted sv r nxt row)) = er_stores r
    \<and> er_retryCount (toReceipt sv (persisted sv r nxt row)) = er_retryCount r"
proof -
  have st: "er_status r = deriveStatus (er_stores r) False True" "er_legalHoldPolicyId r = None"
    using assms by (auto simp: runErasure_def Let_def split: prod.splits)
  have "deriveStatus (er_stores r) False True \<noteq> Pending" "deriveStatus (er_stores r) False True \<noteq> BlockedLegalHold"
    by (simp_all add: deriveStatus_def Let_def)
  with st show ?thesis unfolding toReceipt_status
    by (cases "er_status r") (auto simp: truthy_def toReceipt_def persisted_def)
qed

text \<open>
  A failing operation does not stop the drain. Whatever the resumed operations do, draining
  a list of due rows itself never throws, and reports on at most the rows it was given.
\<close>

lemma drain_never_throws:
  "\<exists>out s'. drain sv actor tokens now k rows s = (Inr out, s') \<and> length out \<le> length rows"
proof (induction rows arbitrary: k s)
  case (Cons row rows)
  obtain r s1 where r: "resumeErasure sv (op_id row) actor (tokens k) now s = (r, s1)" by fastforce
  from Cons [of "Suc k" s1] obtain out s2 where "drain sv actor tokens now (Suc k) rows s1 = (Inr out, s2)"
    "length out \<le> length rows" by blast
  with r show ?case
    by (auto simp: bnd_def attempt_def ret_def split: sum.splits option.splits)
qed (simp add: ret_def)

lemma cleared_audit:
  "request_cleared sv ext org idem policy actor operationId now s subject s3 \<Longrightarrow>
     \<exists>forbidden invt s1 s2. ext \<in> set forbidden \<and>
       audit sv \<lparr>as_organizationId = org, as_scopes = scopes subject, as_actor = actor, as_forbidden = forbidden\<rparr>
         (\<lambda>a. requestedAudit operationId (sv_hash sv ext org) ERASURE_POLICY_VERSION CauseRequest Full a invt
            EXECUTION_ORDER 0) s1 = (Inr (), s2)"
  unfolding request_cleared_def by (metis append_Cons list.set_intros(1))


section \<open>The service over the repository's doubles\<close>

record erasure_db =
  edb_operations :: "operation_row list"
  edb_tombstones :: "tombstone list"
  edb_identities :: "end_user_identity list"
  edb_tenancy :: tenancy_db
  edb_audit :: "admin_record list"
  edb_swept :: "store_name list"

definition clean_executors :: "string \<Rightarrow> string \<Rightarrow> erasure_resume_plan option \<Rightarrow> 'a erasure_db_scheme executors" where
  "clean_executors org h plan n = Some (\<lambda>subject d. (Returned ((pendingStore n)\<lparr>so_status := SDone, so_verification := VPassed\<rparr>),
     d\<lparr>edb_swept := edb_swept d @ [n]\<rparr>))"

definition double_service :: "string option \<Rightarrow> 'a erasure_db_scheme erasure_service" where
  "double_service holds = \<lparr>
     sv_operations = focus edb_operations (\<lambda>x d. d\<lparr>edb_operations := x\<rparr>) (double_table op_id),
     sv_tombstones = focus edb_tombstones (\<lambda>x d. d\<lparr>edb_tombstones := x\<rparr>) (double_table tombstone_key),
     sv_identities = focus edb_identities (\<lambda>x d. d\<lparr>edb_identities := x\<rparr>) (double_table identity_key),
     sv_environments = (\<lambda>org eu d. Inr [(''e'', ''p'')]),
     sv_pg = \<lparr>pg_table = (\<lambda>m. focus (\<lambda>d. edb_tenancy d m) (\<lambda>rs d. d\<lparr>edb_tenancy := (edb_tenancy d)(m := rs)\<rparr>)
       (double_table row_id)), pg_commit = (\<lambda>_. None)\<rparr>,
     sv_executors = clean_executors,
     sv_auditSink = Some (\<lambda>r d. (Inr (), d\<lparr>edb_audit := edb_audit d @ [r]\<rparr>)),
     sv_hasher = (\<lambda>x. ''00ff''), sv_salt = ''s'', sv_saltEnv = w_env, sv_legalHoldUserIds = holds,
     sv_maxRetries = NaN, sv_ttlDays = NaN, sv_iso = (\<lambda>t. ''iso''), sv_time = (\<lambda>x. 0), sv_clock = (\<lambda>k. ''now''),
     sv_toNumber = number_or_zero, sv_showNumber = (\<lambda>q. ''#''), sv_localeLe = (\<le>)\<rparr>"

interpretation svc: erasure_register "sv_tombstones (double_service holds)" "\<lambda>d. mset (edb_tombstones d)"
  "sv_identities (double_service holds)" "\<lambda>d. mset (edb_identities d)" identity_key
  unfolding erasure_register_def tombstone_store_def double_service_def erasure_service.simps
  by (intro conjI focus_double) simp_all

interpretation ops: prisma_table "sv_operations (double_service holds)" "\<lambda>d. mset (edb_operations d)" op_id
  unfolding double_service_def erasure_service.simps by (rule focus_double) simp

definition w_ada :: end_user_identity where
  "w_ada = \<lparr>idn_organizationId = ''o'', idn_endUserId = ''u1'', idn_issuer = ''platos:external'',
     idn_channel = ''external'', idn_subject = ''ada'', idn_disabledAt = None\<rparr>"

definition w_slack :: end_user_identity where
  "w_slack = w_ada\<lparr>idn_issuer := ''slack'', idn_channel := ''slack'', idn_subject := ''U08''\<rparr>"

definition w_edb :: erasure_db where
  "w_edb = \<lparr>edb_operations = [], edb_tombstones = [], edb_identities = [w_ada, w_slack], edb_tenancy = (\<lambda>m. []),
     edb_audit = [], edb_swept = []\<rparr>"

definition no_executors :: "string \<Rightarrow> string \<Rightarrow> erasure_resume_plan option \<Rightarrow> 'a erasure_db_scheme executors" where
  "no_executors org h plan n = None"

abbreviation "w_request holds policy ex \<equiv> requestErasure (with_executors (double_service holds) ex) ''ada'' ''o'' ''k'' policy
  None ''op1'' ''tok'' 1000 w_edb"

lemma w_request_swept:
  "edb_swept (snd (w_request None None clean_executors)) = [Minio, Redis, Clickhouse, Postgres]"
  "edb_swept (snd (w_request None None no_executors)) = []"
  by code_simp+


section \<open>Witnesses\<close>


definition w_row_op :: operation_row where
  "w_row_op = \<lparr>op_id = ''op1'', op_idempotencyKey = ''k'', op_subjectKeyHash = ''00ff'', op_organizationId = ''o'',
     op_status = OpPENDING, op_scopes = [], op_stores = [], op_resumePlan = JNull, op_policyVersion = ''1'',
     op_legalHoldPolicyId = None, op_retryCount = 0, op_nextRetryAt = Some 0, op_leaseToken = None,
     op_leaseExpiresAt = None, op_requestedAt = 0, op_startedAt = None, op_completedAt = None\<rparr>"

definition w_edb_op :: erasure_db where
  "w_edb_op = w_edb\<lparr>edb_operations := [w_row_op]\<rparr>"

definition w_resume :: resume_args where
  "w_resume = \<lparr>ra_subject = \<lparr>platosEndUserIds = [''u1''], legacyUserIds = [], scopes = []\<rparr>, ra_coverage = LocatorsOnly,
     ra_cause = CauseQueueResume, ra_forbidden = [], ra_plan = None, ra_externalUserId = None, ra_actor = None, ra_now = 1000\<rparr>"

lemma w_resume_swept:
  "edb_swept (snd (runResumePass (with_executors (double_service None) clean_executors) w_row_op w_resume ''t'' w_edb_op))
     = [Minio, Redis, Clickhouse, Postgres]"
  "edb_swept (snd (runResumePass (with_executors (double_service None) no_executors) w_row_op w_resume ''t'' w_edb_op)) = []"
  by code_simp+

theorem resume_guards_witness:
  "\<exists>current s3. resume_cleared (double_service None) w_row_op w_resume ''t'' w_edb_op current s3"
proof (rule resume_guards)
  show "runResumePass (with_executors (double_service None) clean_executors) w_row_op w_resume ''t'' w_edb_op
    \<noteq> runResumePass (with_executors (double_service None) no_executors) w_row_op w_resume ''t'' w_edb_op"
    using w_resume_swept by (metis list.distinct(1))
qed

lemma w_discover: "(case discoverSubject (double_service (Some ''SLACK:u08'')) ''ada'' ''o'' w_edb of
    (Inr subject, d) \<Rightarrow> platosEndUserIds subject = [''u1''] | _ \<Rightarrow> False)"
  by code_simp


lemma w_claims:
  "fst (claimLease (double_service None) ''op1'' ''a'' 0 w_edb_op) = Inr True"
  "fst (claimLease (double_service None) ''op1'' ''b'' 900000
     (snd (claimLease (double_service None) ''op1'' ''a'' 0 w_edb_op))) = Inr True"
  by code_simp+

theorem lease_exclusive_witness:
  "\<exists>d. lease_run (double_service None) (\<lambda>d. mset (edb_operations d)) ''op1'' w_edb_op [Claimed ''a'' 0, Claimed ''b'' 900000] d
     \<and> 0 + LEASE_TTL_MS \<le> 900000"
proof -
  let ?run = "lease_run (double_service None) (\<lambda>d. mset (edb_operations d)) ''op1'' w_edb_op"
  let ?d1 = "snd (claimLease (double_service None) ''op1'' ''a'' 0 w_edb_op)"
  let ?d2 = "snd (claimLease (double_service None) ''op1'' ''b'' 900000 ?d1)"
  have "?run ([] @ [if True then Claimed ''a'' 0 else Denied ''a'' 0]) ?d1"
    by (rule lr_claim [OF lr_start]) (metis prod.collapse w_claims(1))
  then have "?run ([Claimed ''a'' 0] @ [if True then Claimed ''b'' 900000 else Denied ''b'' 900000]) ?d2"
    by (intro lr_claim) (simp, metis prod.collapse w_claims(2))
  then have r: "?run ([] @ Claimed ''a'' 0 # [] @ Claimed ''b'' 900000 # []) ?d2" by simp
  have "the_row (mset (edb_operations w_edb_op)) ''op1'' w_row_op"
    by (simp add: the_row_def w_edb_op_def w_row_op_def)
  from lease_exclusive [OF ops.prisma_table_axioms this r] r show ?thesis by (auto simp: quiet_def)
qed


text \<open>The receipt of a pass over an empty subject does not read back: it is stored as failed with
  pending stores, and reads as running.\<close>

lemma empty_subject_reads_running:
  assumes "isEmptySubject subject" "ro_legalHold opts = None" "er_stores receipt = []" "er_legalHoldPolicyId receipt = None"
    and "runErasure receipt subject ex opts w = (r, w')"
  shows "er_status r = VerificationFailed \<and> er_status (toReceipt sv (persisted sv r nxt row)) = Running"
proof -
  have r: "er_status r = VerificationFailed" "er_stores r = map pendingStore EXECUTION_ORDER" "er_legalHoldPolicyId r = None"
    using assms by (auto simp: runErasure_def)
  have "deriveStatus (map pendingStore EXECUTION_ORDER) False True = Running" by code_simp
  with r show ?thesis by (simp add: toReceipt_status truthy_def)
qed

end
