(* ===== verification/McpPermissions.thy ===== *)
theory McpPermissions
  imports Table
begin

text \<open>
  \<open>apps/agent/src/mcp-platform/permission-gateway.service.ts\<close> and \<open>allows\<close> of
  \<open>token.service.ts\<close>: whether a token may name a tool at all, and whether a named tool runs,
  waits for an approval or is blocked. The four tiers (platform table, organization policy,
  agent binding, session override) and the escalation for administrator tokens are
  \<open>resolvePermission\<close>. The tables of organization policies and agent bindings are parameters.
\<close>

section \<open>States and patterns\<close>

datatype permission_state = AutoAllow | RequireApproval | Block

fun stateOrder :: "permission_state \<Rightarrow> nat" where
  "stateOrder Block = 2"
| "stateOrder RequireApproval = 1"
| "stateOrder AutoAllow = 0"

fun state_name :: "permission_state \<Rightarrow> string" where
  "state_name AutoAllow = ''auto_allow''"
| "state_name RequireApproval = ''require_approval''"
| "state_name Block = ''block''"

fun mostRestrictive_from :: "permission_state \<Rightarrow> permission_state option list \<Rightarrow> permission_state" where
  "mostRestrictive_from winner [] = winner"
| "mostRestrictive_from winner (None # ss) = mostRestrictive_from winner ss"
| "mostRestrictive_from winner (Some s # ss) =
     mostRestrictive_from (if stateOrder s > stateOrder winner then s else winner) ss"

definition mostRestrictive :: "permission_state option list \<Rightarrow> permission_state" where
  "mostRestrictive states = mostRestrictive_from AutoAllow states"

definition wildcard_matches :: "string \<Rightarrow> string \<Rightarrow> bool" where
  "wildcard_matches pattern toolName = (ends_with ''.*'' pattern \<and>
     (let prefix = take (length pattern - 2) pattern in starts_with (prefix @ ''.'') toolName \<or> toolName = prefix))"

definition matchesPattern :: "string \<Rightarrow> string \<Rightarrow> bool" where
  "matchesPattern pattern toolName = (pattern = ''*'' \<or> pattern = toolName \<or> wildcard_matches pattern toolName)"

fun allows :: "string list \<Rightarrow> string \<Rightarrow> bool" where
  "allows [] toolName = False"
| "allows (pattern # rest) toolName =
     (if pattern = ''*'' \<or> pattern = toolName then True
      else if wildcard_matches pattern toolName then True else allows rest toolName)"

datatype policy_effect = ALLOW | DENY

definition fromPolicyEffect :: "policy_effect \<Rightarrow> permission_state" where
  "fromPolicyEffect effect = (if effect = DENY then Block else AutoAllow)"

datatype gateway_error = PolicyDb db_error | UnsupportedPolicy | BadPattern

fun toPolicyEffect :: "permission_state \<Rightarrow> gateway_error + policy_effect" where
  "toPolicyEffect Block = Inr DENY"
| "toPolicyEffect AutoAllow = Inr ALLOW"
| "toPolicyEffect RequireApproval = Inl UnsupportedPolicy"

definition normalizePolicy :: "string \<Rightarrow> permission_state option" where
  "normalizePolicy raw = (if raw = ''auto_allow'' then Some AutoAllow else if raw = ''require_approval'' then Some RequireApproval
     else if raw = ''block'' then Some Block else None)"

section \<open>The platform tier\<close>

definition PLATFORM_TIER_MINIMUMS :: "(string \<times> permission_state) list" where
  "PLATFORM_TIER_MINIMUMS = map (\<lambda>pattern. (pattern, RequireApproval))
     [
      ''gdpr.*'', ''trigger.envvars.delete'', ''trigger.envvars.upsert'',
      ''trigger.deployments.promote'', ''entities.register'', ''entities.delete'',
      ''entities.regenerate_secret'', ''entities.set_mcp_enabled'', ''entities.set_mcp_inject_context'',
      ''entities.generate_mcp_token'', ''entities.set_test_credentials'', ''filesystem.delete_file'',
      ''filesystem.write_file'', ''agents.delete'', ''agents.rollback'',
      ''agents.canary.promote'', ''agents.visibility.set'', ''memories.import_replace'',
      ''memories.bulk_delete'', ''messages.edit_and_rerun'', ''skills.install'',
      ''agents.deploy_with_skills'', ''entities.provision'', ''scopes.bootstrap_demo_data'',
      ''macros.update'', ''macros.delete'', ''macros.share'',
      ''notifications.register'', ''notifications.update'', ''notifications.delete'',
      ''scopes.list_all'', ''tool_calls.cross_scope_audit'', ''budgets.rollup_org_wide'',
      ''agents.census'', ''entities.census'', ''gdpr.export_user_everywhere'',
      ''providers.add_key'', ''providers.delete_key'', ''providers.rotate_key'',
      ''providers.set_routes'', ''oauth.create_client'', ''oauth.delete_client'',
      ''oauth.rotate_secret'', ''jobs.create'', ''jobs.update'',
      ''jobs.delete'', ''jobs.dispatch'', ''jobs.set_enabled'',
      ''alert_channels.create'', ''alert_channels.update'', ''alert_channels.delete'',
      ''channels.create'', ''channels.update'', ''channels.delete'',
      ''channels.rotate_webhook_secret'', ''channels.mint_from_manifest'', ''channel_apps.create'',
      ''channel_apps.update'', ''channel_apps.delete'', ''channel_apps.bind_installation'',
      ''channel_apps.import_installation'', ''channel_apps.revoke_installation'', ''kg.delete_node'',
      ''kg.discover_links'', ''skills.update'', ''skills.disable_globally'',
      ''skills.uninstall'', ''org.update'', ''org.add_member'',
      ''org.remove_member'', ''org.set_member_role'', ''environments.create'',
      ''environments.delete'', ''environments.set_secret'', ''environments.delete_secret'',
      ''clusters.create'', ''clusters.add_agent'']"

definition minimum_in :: "(string \<times> permission_state) list \<Rightarrow> string \<Rightarrow> permission_state" where
  "minimum_in rules toolName = (case find (\<lambda>rule. matchesPattern (fst rule) toolName) rules of
     Some rule \<Rightarrow> snd rule | None \<Rightarrow> AutoAllow)"

definition readPlatformMinimum :: "string \<Rightarrow> permission_state" where
  "readPlatformMinimum toolName = minimum_in PLATFORM_TIER_MINIMUMS toolName"

text \<open>A dot, a word and then one or more lower-case letters or underscores up to the end.\<close>

definition dot_word_suffix :: "string \<Rightarrow> string \<Rightarrow> bool" where
  "dot_word_suffix w s = list_ex (\<lambda>i. starts_with w (drop i s) \<and> (let r = drop (i + length w) s in
     r \<noteq> [] \<and> list_all (\<lambda>c. c = CHR ''_'' \<or> (97 \<le> (of_char c :: nat) \<and> (of_char c :: nat) \<le> 122)) r)) [0..<length s]"

definition READ_ONLY_PATTERNS :: "(string \<Rightarrow> bool) list" where
  "READ_ONLY_PATTERNS =
     [ends_with ''.list'', dot_word_suffix ''.list_'', ends_with ''.get'', dot_word_suffix ''.get_'',
      ends_with ''.search'', ends_with ''.census'', ends_with ''.whoami'', ends_with ''.list_accessible_scopes'',
      ends_with ''.test_credentials'', ends_with ''.test'', ends_with ''.validate_handler'',
      starts_with ''monitoring.'', (\<lambda>s. s = ''events.recent''), (\<lambda>s. s = ''events.subscribe''),
      starts_with ''audit.'', starts_with ''tool_calls.'', starts_with ''reflection.'',
      (\<lambda>s. s = ''macros.list''), (\<lambda>s. s = ''macros.replay_log'')]"

definition isMutatingToolName :: "string \<Rightarrow> bool" where
  "isMutatingToolName toolName = (\<not> list_ex (\<lambda>re. re toolName) READ_ONLY_PATTERNS)"

section \<open>The other tiers\<close>

record policy_row =
  po_id :: string
  po_organizationId :: string
  po_pattern :: string
  po_effect :: policy_effect

record tool_policy =
  tp_toolName :: string
  tp_priority :: int
  tp_createdAt :: int
  tp_effect :: policy_effect

record binding_row =
  bd_agentId :: string
  bd_environmentId :: string
  bd_projectId :: string
  bd_organizationId :: string
  bd_agentProjectId :: string
  bd_toolDefaultPolicy :: string
  bd_toolPolicies :: "tool_policy list"

record 's gateway =
  gw_policies :: "('s, policy_row) table"
  gw_bindings :: "('s, binding_row) table"

fun org_winner :: "string \<Rightarrow> permission_state option \<Rightarrow> policy_row list \<Rightarrow> permission_state option" where
  "org_winner toolName winner [] = winner"
| "org_winner toolName winner (row # rows) =
     (if matchesPattern (po_pattern row) toolName \<and>
         (case winner of None \<Rightarrow> True | Some w \<Rightarrow> stateOrder (fromPolicyEffect (po_effect row)) > stateOrder w)
      then org_winner toolName (Some (fromPolicyEffect (po_effect row))) rows
      else org_winner toolName winner rows)"

definition readOrgPolicy :: "'s gateway \<Rightarrow> scope_tuple \<Rightarrow> string \<Rightarrow> 's \<Rightarrow> db_error + permission_state option" where
  "readOrgPolicy gw scope toolName s =
     map_res (org_winner toolName None) (findMany (gw_policies gw) (\<lambda>row. po_organizationId row = sc_organizationId scope) s)"

definition policy_first :: "tool_policy \<Rightarrow> tool_policy \<Rightarrow> bool" where
  "policy_first a b = (tp_priority b < tp_priority a \<or> (tp_priority a = tp_priority b \<and> tp_createdAt b \<le> tp_createdAt a))"

definition readAgentOverride ::
    "'s gateway \<Rightarrow> scope_tuple \<Rightarrow> string \<Rightarrow> string \<Rightarrow> 's \<Rightarrow> db_error + permission_state option" where
  "readAgentOverride gw scope agentId toolName s =
     map_res (\<lambda>binding. case binding of
         None \<Rightarrow> Some Block
       | Some b \<Rightarrow> (case sort_by policy_first (filter (\<lambda>p. tp_toolName p = toolName) (bd_toolPolicies b)) of
            explicit # _ \<Rightarrow> Some (fromPolicyEffect (tp_effect explicit))
          | [] \<Rightarrow> Some (if bd_toolDefaultPolicy b = ''ALL'' then AutoAllow else Block)))
       (findFirst (gw_bindings gw) (\<lambda>b. bd_agentId b = agentId \<and> bd_environmentId b = sc_environmentId scope \<and>
          bd_projectId b = sc_projectId scope \<and> bd_organizationId b = sc_organizationId scope \<and>
          bd_agentProjectId b = sc_projectId scope) s)"

definition readSessionOverride :: "(string \<times> permission_state) list option \<Rightarrow> string \<Rightarrow> permission_state option" where
  "readSessionOverride sessionOverrides toolName = (case sessionOverrides of None \<Rightarrow> None | Some ovs \<Rightarrow>
     (case map_of ovs toolName of Some policy \<Rightarrow> Some policy
      | None \<Rightarrow> map_option snd (find (\<lambda>ov. matchesPattern (fst ov) toolName) ovs)))"

section \<open>Resolution\<close>

datatype token_tier = ScopeTier | AdminTier

record permission_input =
  pi_scope :: scope_tuple
  pi_agentId :: "string option"
  pi_toolName :: string
  pi_sessionOverrides :: "(string \<times> permission_state) list option"
  pi_tokenTier :: "token_tier option"

record resolved_permission =
  rp_state :: permission_state
  rp_tier :: nat
  rp_reason :: string

fun last_tier :: "permission_state \<Rightarrow> nat \<Rightarrow> nat \<Rightarrow> permission_state option list \<Rightarrow> nat" where
  "last_tier state winnerTier t [] = winnerTier"
| "last_tier state winnerTier t (s # ss) =
     last_tier state (if s \<noteq> None \<and> map_option stateOrder s = Some (stateOrder state) then t else winnerTier) (Suc t) ss"

definition tier_text :: "nat \<Rightarrow> permission_state \<Rightarrow> string" where
  "tier_text t state = ''tier-'' @ show_nat t @ '' '' @ state_name state"

definition decide_permission ::
    "permission_input \<Rightarrow> permission_state \<Rightarrow> permission_state option \<Rightarrow> permission_state option \<Rightarrow> permission_state option \<Rightarrow>
     resolved_permission" where
  "decide_permission inp t1 t2 t3 t4 =
     (let state = mostRestrictive [Some t1, t2, t3, t4]; winnerTier = last_tier state 1 1 [Some t1, t2, t3, t4] in
      if pi_tokenTier inp = Some AdminTier \<and> state \<noteq> Block \<and>
         (isMutatingToolName (pi_toolName inp) \<or> t1 = RequireApproval) \<and> state \<noteq> RequireApproval
      then \<lparr>rp_state = RequireApproval, rp_tier = winnerTier,
             rp_reason = tier_text winnerTier RequireApproval @ '' (admin-token auto-escalate, mutating)''\<rparr>
      else \<lparr>rp_state = state, rp_tier = winnerTier, rp_reason = tier_text winnerTier state\<rparr>)"

definition blocked_by :: "nat \<Rightarrow> string \<Rightarrow> resolved_permission" where
  "blocked_by t reason = \<lparr>rp_state = Block, rp_tier = t, rp_reason = reason\<rparr>"

definition resolvePermission :: "'s gateway \<Rightarrow> permission_input \<Rightarrow> 's \<Rightarrow> db_error + resolved_permission" where
  "resolvePermission gw inp s =
     (let t1 = readPlatformMinimum (pi_toolName inp) in
      if t1 = Block then Inr (blocked_by 1 ''platform-tier block'')
      else case readOrgPolicy gw (pi_scope inp) (pi_toolName inp) s of
        Inl e \<Rightarrow> Inl e
      | Inr t2 \<Rightarrow> if t2 = Some Block then Inr (blocked_by 2 ''org-policy block'')
          else (case (case pi_agentId inp of None \<Rightarrow> Inr None | Some agentId \<Rightarrow>
                   if agentId = [] then Inr None else readAgentOverride gw (pi_scope inp) agentId (pi_toolName inp) s) of
             Inl e \<Rightarrow> Inl e
           | Inr t3 \<Rightarrow> if t3 = Some Block then Inr (blocked_by 3 ''agent-policy block'')
               else let t4 = readSessionOverride (pi_sessionOverrides inp) (pi_toolName inp)
                 in if t4 = Some Block then Inr (blocked_by 4 ''session-override block'')
                    else Inr (decide_permission inp t1 t2 t3 t4)))"

section \<open>Organization policies\<close>

definition listOrgPolicies :: "'s gateway \<Rightarrow> scope_tuple \<Rightarrow> (string \<Rightarrow> string \<Rightarrow> bool) \<Rightarrow> 's \<Rightarrow> db_error + (policy_row \<times> permission_state) list" where
  "listOrgPolicies gw scope le s =
     map_res (\<lambda>rows. map (\<lambda>row. (row, fromPolicyEffect (po_effect row))) (sort_by (\<lambda>a b. le (po_pattern a) (po_pattern b)) rows))
       (findMany (gw_policies gw) (\<lambda>row. po_organizationId row = sc_organizationId scope) s)"

definition upsertOrgPolicy ::
    "'s gateway \<Rightarrow> scope_tuple \<Rightarrow> string \<Rightarrow> permission_state \<Rightarrow> string \<Rightarrow> 's \<Rightarrow> (gateway_error + permission_state) \<times> 's" where
  "upsertOrgPolicy gw scope pattern policy newId s =
     (if pattern = [] \<or> 200 < length pattern then (Inl BadPattern, s)
      else case toPolicyEffect policy of Inl e \<Rightarrow> (Inl e, s) | Inr effect \<Rightarrow>
        (case findFirst (gw_policies gw) (\<lambda>row. po_organizationId row = sc_organizationId scope \<and> po_pattern row = pattern) s of
           Inl e \<Rightarrow> (Inl (PolicyDb e), s)
         | Inr (Some existing) \<Rightarrow>
             (case updateMany (gw_policies gw) (\<lambda>row. po_id row = po_id existing) (\<lambda>row. row\<lparr>po_effect := effect\<rparr>) s of
                Inl e \<Rightarrow> (Inl (PolicyDb e), s)
              | Inr (n, s') \<Rightarrow> if n = 0 then (Inl (PolicyDb Rejected), s') else (Inr (fromPolicyEffect effect), s'))
         | Inr None \<Rightarrow>
             (case create (gw_policies gw) \<lparr>po_id = newId, po_organizationId = sc_organizationId scope, po_pattern = pattern,
                 po_effect = effect\<rparr> s of
                Inl e \<Rightarrow> (Inl (PolicyDb e), s) | Inr s' \<Rightarrow> (Inr (fromPolicyEffect effect), s'))))"

definition deleteOrgPolicy :: "'s gateway \<Rightarrow> scope_tuple \<Rightarrow> string \<Rightarrow> 's \<Rightarrow> (gateway_error + bool) \<times> 's" where
  "deleteOrgPolicy gw scope i s =
     (case findFirst (gw_policies gw) (\<lambda>row. po_id row = i \<and> po_organizationId row = sc_organizationId scope) s of
        Inl e \<Rightarrow> (Inl (PolicyDb e), s)
      | Inr None \<Rightarrow> (Inr False, s)
      | Inr (Some _) \<Rightarrow> (case deleteMany (gw_policies gw) (\<lambda>row. po_id row = i) s of
           Inl e \<Rightarrow> (Inl (PolicyDb e), s)
         | Inr (n, s') \<Rightarrow> if n = 0 then (Inl (PolicyDb Rejected), s') else (Inr True, s')))"

section \<open>Lemmas\<close>

lemma stateOrder_inj: "stateOrder a = stateOrder b \<longleftrightarrow> a = b"
  by (cases a; cases b) simp_all

lemma stateOrder_Block [simp]: "2 \<le> stateOrder a \<longleftrightarrow> a = Block"
  by (cases a) simp_all

lemma stateOrder_le [simp]: "stateOrder a \<le> 2"
  by (cases a) simp_all

lemma mostRestrictive_from_ge:
  "stateOrder w \<le> stateOrder (mostRestrictive_from w ss) \<and>
   (Some x \<in> set ss \<longrightarrow> stateOrder x \<le> stateOrder (mostRestrictive_from w ss))"
proof (induction w ss rule: mostRestrictive_from.induct)
  case (3 w s ss)
  then show ?case by (cases "stateOrder s > stateOrder w") auto
qed auto

lemma mostRestrictive_ge: "Some x \<in> set ss \<Longrightarrow> stateOrder x \<le> stateOrder (mostRestrictive ss)"
  using mostRestrictive_from_ge by (simp add: mostRestrictive_def)

lemma mostRestrictive_from_in:
  "mostRestrictive_from w ss = w \<or> Some (mostRestrictive_from w ss) \<in> set ss"
  by (induction w ss rule: mostRestrictive_from.induct) auto

lemma mostRestrictive_Block: "mostRestrictive ss = Block \<Longrightarrow> Some Block \<in> set ss"
  using mostRestrictive_from_in [of AutoAllow ss] by (auto simp: mostRestrictive_def)

lemma decide_ge: "Some x \<in> {Some t1, t2, t3, t4} \<Longrightarrow> stateOrder x \<le> stateOrder (rp_state (decide_permission inp t1 t2 t3 t4))"
proof -
  assume x: "Some x \<in> {Some t1, t2, t3, t4}"
  let ?m = "mostRestrictive [Some t1, t2, t3, t4]"
  have "stateOrder x \<le> stateOrder ?m" by (rule mostRestrictive_ge) (use x in auto)
  moreover have "stateOrder ?m \<le> stateOrder (rp_state (decide_permission inp t1 t2 t3 t4))"
    by (cases ?m) (simp_all add: decide_permission_def Let_def)
  ultimately show ?thesis by simp
qed

lemma decide_admin:
  "pi_tokenTier inp = Some AdminTier \<Longrightarrow> isMutatingToolName (pi_toolName inp) \<Longrightarrow>
   rp_state (decide_permission inp t1 t2 t3 t4) \<noteq> AutoAllow"
  by (cases "mostRestrictive [Some t1, t2, t3, t4]") (simp_all add: decide_permission_def Let_def)

lemma decide_Block:
  "rp_state (decide_permission inp t1 t2 t3 t4) = Block \<Longrightarrow> Some Block \<in> {Some t1, t2, t3, t4}"
  using mostRestrictive_Block [of "[Some t1, t2, t3, t4]"]
  by (auto simp: decide_permission_def Let_def split: if_splits)

lemma org_winner_ge:
  "(case w of None \<Rightarrow> True | Some x \<Rightarrow> \<exists>y. org_winner toolName w rows = Some y \<and> stateOrder x \<le> stateOrder y) \<and>
   (row \<in> set rows \<longrightarrow> matchesPattern (po_pattern row) toolName \<longrightarrow>
      (\<exists>y. org_winner toolName w rows = Some y \<and> stateOrder (fromPolicyEffect (po_effect row)) \<le> stateOrder y))"
proof (induction rows arbitrary: w)
  case (Cons r rows)
  show ?case
    using Cons.IH [of w] Cons.IH [of "Some (fromPolicyEffect (po_effect r))"]
    by (cases w) fastforce+
qed (auto split: option.splits)

lemma org_deny:
  assumes "prisma_table (gw_policies gw) rows key" "row \<in># rows s" "po_organizationId row = sc_organizationId scope"
    and "matchesPattern (po_pattern row) toolName" "po_effect row = DENY" "readOrgPolicy gw scope toolName s = Inr t2"
  shows "t2 = Some Block"
proof -
  obtain rs where rs: "findMany (gw_policies gw) (\<lambda>row. po_organizationId row = sc_organizationId scope) s = Inr rs"
    "t2 = org_winner toolName None rs"
    using assms(6) by (auto simp: readOrgPolicy_def map_res_Inr)
  then have "row \<in> set rs" using prisma_table.many_iff [OF assms(1) rs(1)] assms(2,3) by blast
  then show ?thesis
    using org_winner_ge [where w = None and rows = rs and row = row and toolName = toolName] assms(4,5) rs(2)
    by (auto simp: fromPolicyEffect_def)
qed

lemmas permission_splits = sum.splits if_splits option.splits

lemma resolve_tiers:
  assumes "resolvePermission gw inp s = Inr r"
  obtains (blocked) "rp_state r = Block"
      "readPlatformMinimum (pi_toolName inp) = Block \<or> readOrgPolicy gw (pi_scope inp) (pi_toolName inp) s = Inr (Some Block) \<or>
       (\<exists>a. pi_agentId inp = Some a \<and> readAgentOverride gw (pi_scope inp) a (pi_toolName inp) s = Inr (Some Block)) \<or>
       readSessionOverride (pi_sessionOverrides inp) (pi_toolName inp) = Some Block"
  | (decided) t2 t3 where "readOrgPolicy gw (pi_scope inp) (pi_toolName inp) s = Inr t2"
      "pi_agentId inp = None \<or> pi_agentId inp = Some [] \<or>
       (\<exists>a. pi_agentId inp = Some a \<and> readAgentOverride gw (pi_scope inp) a (pi_toolName inp) s = Inr t3)"
      "readPlatformMinimum (pi_toolName inp) \<noteq> Block" "t2 \<noteq> Some Block" "t3 \<noteq> Some Block"
      "readSessionOverride (pi_sessionOverrides inp) (pi_toolName inp) \<noteq> Some Block"
      "r = decide_permission inp (readPlatformMinimum (pi_toolName inp)) t2 t3
         (readSessionOverride (pi_sessionOverrides inp) (pi_toolName inp))"
  using assms by (fastforce simp: resolvePermission_def blocked_by_def Let_def split: permission_splits)

section \<open>Properties\<close>

text \<open>
  C30: Every tier can only tighten. The resolved state is at least as restrictive as the
  platform table, as the organization's policy, as the agent's policy (when the call has an
  agent) and as the session override; a call that is blocked is blocked by one of them; and
  an administrator token never runs a mutating tool without approval.
\<close>

theorem tiers_only_tighten:
  assumes "resolvePermission gw inp s = Inr r"
  shows "stateOrder (readPlatformMinimum (pi_toolName inp)) \<le> stateOrder (rp_state r) \<and>
    (\<forall>t2. readOrgPolicy gw (pi_scope inp) (pi_toolName inp) s = Inr (Some t2) \<longrightarrow> stateOrder t2 \<le> stateOrder (rp_state r)) \<and>
    (\<forall>a t3. pi_agentId inp = Some a \<longrightarrow> a \<noteq> [] \<longrightarrow>
       readAgentOverride gw (pi_scope inp) a (pi_toolName inp) s = Inr (Some t3) \<longrightarrow> stateOrder t3 \<le> stateOrder (rp_state r)) \<and>
    (\<forall>t4. readSessionOverride (pi_sessionOverrides inp) (pi_toolName inp) = Some t4 \<longrightarrow> stateOrder t4 \<le> stateOrder (rp_state r)) \<and>
    (rp_state r = Block \<longrightarrow> readPlatformMinimum (pi_toolName inp) = Block \<or>
       readOrgPolicy gw (pi_scope inp) (pi_toolName inp) s = Inr (Some Block) \<or>
       (\<exists>a. pi_agentId inp = Some a \<and> readAgentOverride gw (pi_scope inp) a (pi_toolName inp) s = Inr (Some Block)) \<or>
       readSessionOverride (pi_sessionOverrides inp) (pi_toolName inp) = Some Block) \<and>
    (pi_tokenTier inp = Some AdminTier \<longrightarrow> isMutatingToolName (pi_toolName inp) \<longrightarrow> rp_state r \<noteq> AutoAllow)"
  using assms
proof (cases rule: resolve_tiers)
  case blocked
  then show ?thesis by simp
next
  case (decided t2 t3)
  have "rp_state r \<noteq> Block"
    unfolding decided(7) by (rule notI, drule decide_Block) (use decided(3-6) in auto)
  moreover have "rp_state r \<noteq> AutoAllow" if "pi_tokenTier inp = Some AdminTier" "isMutatingToolName (pi_toolName inp)"
    unfolding decided(7) using that by (rule decide_admin)
  moreover have "stateOrder x \<le> stateOrder (rp_state r)"
    if "Some x \<in> {Some (readPlatformMinimum (pi_toolName inp)), t2, t3, readSessionOverride (pi_sessionOverrides inp) (pi_toolName inp)}" for x
    unfolding decided(7) using that by (rule decide_ge)
  ultimately show ?thesis using decided(1,2) by auto
qed

definition double_gateway :: "(policy_row list \<times> binding_row list) gateway" where
  "double_gateway = \<lparr>gw_policies = focus fst (\<lambda>p s. (p, snd s)) (double_table po_id),
     gw_bindings = focus snd (\<lambda>b s. (fst s, b)) (double_table bd_agentId)\<rparr>"

definition w_admin_call :: permission_input where
  "w_admin_call = \<lparr>pi_scope = \<lparr>sc_organizationId = ''o'', sc_projectId = ''p'', sc_environmentId = ''e''\<rparr>, pi_agentId = None,
     pi_toolName = ''jobs.pause'', pi_sessionOverrides = None, pi_tokenTier = Some AdminTier\<rparr>"

theorem tiers_only_tighten_witness:
  "resolvePermission double_gateway w_admin_call ([], []) = Inr \<lparr>rp_state = RequireApproval, rp_tier = 1,
     rp_reason = ''tier-1 require_approval (admin-token auto-escalate, mutating)''\<rparr> \<and>
   stateOrder (readPlatformMinimum ''jobs.pause'') \<le> stateOrder RequireApproval"
proof
  show r: "resolvePermission double_gateway w_admin_call ([], []) = Inr \<lparr>rp_state = RequireApproval, rp_tier = 1,
     rp_reason = ''tier-1 require_approval (admin-token auto-escalate, mutating)''\<rparr>" by code_simp
  show "stateOrder (readPlatformMinimum ''jobs.pause'') \<le> stateOrder RequireApproval"
    using tiers_only_tighten [OF r] by (simp add: w_admin_call_def)
qed

end
