(* ===== verification/McpTokens.thy ===== *)
theory McpTokens
  imports McpPermissions
begin

text \<open>
  \<open>apps/agent/src/mcp-platform/token.service.ts\<close> and \<open>mcp-bearer-token.service.ts\<close>: the two
  kinds of bearer credential of the MCP endpoints, platform tokens and entity tokens. Both keep
  only a digest, are minted, verified on every use, listed and revoked. The tables are
  parameters, and so are the digest, the clock and the random parts. A verification reads the
  row and then stamps it with a guarded update; the two halves are separate definitions, so
  that the step relations interleave them with revocations. Both services are sealed ledgers:
  a revoked row stays revoked.
\<close>

section \<open>Shared helpers\<close>

definition boundedInteger :: "jsnum option \<Rightarrow> int \<Rightarrow> int \<Rightarrow> int \<Rightarrow> int" where
  "boundedInteger val fallback minimum maximum = (case val of
       Some (Fin q) \<Rightarrow> if of_int \<lfloor>q\<rfloor> = q then max minimum (min maximum \<lfloor>q\<rfloor>) else fallback
     | _ \<Rightarrow> fallback)"

definition constantTimeHexEqual :: "string \<Rightarrow> string \<Rightarrow> bool" where
  "constantTimeHexEqual a b = (length a = length b \<and> hex_bytes a = hex_bytes b)"

text \<open>The guard \<open>revokedAt: null, OR: [{expiresAt: null}, {expiresAt: {gt: now}}]\<close>.\<close>

definition usable :: "int option \<Rightarrow> int option \<Rightarrow> int \<Rightarrow> bool" where
  "usable revokedAt expiresAt now = (revokedAt = None \<and> (case expiresAt of None \<Rightarrow> True | Some t \<Rightarrow> now < t))"

section \<open>Platform tokens\<close>

record token_row =
  tk_id :: string
  tk_environmentId :: string
  tk_mintedByUserId :: string
  tk_name :: string
  tk_tokenHash :: string
  tk_permissions :: "string list"
  tk_tier :: string
  tk_expiresAt :: "int option"
  tk_revokedAt :: "int option"
  tk_revokedBy :: "string option"
  tk_lastUsedAt :: "int option"
  tk_createdAt :: int

record membership_row =
  mb_organizationId :: string
  mb_userId :: string
  mb_role :: string
  mb_deactivatedAt :: "int option"

record 's token_service =
  ts_tokens :: "('s, token_row) table"
  ts_memberships :: "('s, membership_row) table"
  ts_page :: "(token_row \<Rightarrow> bool) \<Rightarrow> nat \<Rightarrow> nat \<Rightarrow> 's \<Rightarrow> db_error + (nat \<times> token_row list)"
  ts_environment :: "string \<Rightarrow> 's \<Rightarrow> db_error + (string \<times> string) option"
  ts_sha256 :: "string \<Rightarrow> string"

datatype token_error = BadName | BadPermissions | BadTtl | NoEnvironment | AdminMintForbidden | TokenDb db_error

definition DEFAULT_TTL_SECONDS :: rat where
  "DEFAULT_TTL_SECONDS = 90 * 24 * 3600"

definition TOKEN_PREFIX :: string where
  "TOKEN_PREFIX = ''plt_mcp_''"

definition normalizeTier :: "string option \<Rightarrow> token_tier" where
  "normalizeTier raw = (if raw = Some ''admin'' then AdminTier else ScopeTier)"

definition tier_name :: "token_tier \<Rightarrow> string" where
  "tier_name t = (case t of AdminTier \<Rightarrow> ''admin'' | ScopeTier \<Rightarrow> ''scope'')"

definition resolveScope :: "'s token_service \<Rightarrow> scope_tuple \<Rightarrow> 's \<Rightarrow> db_error + scope_tuple option" where
  "resolveScope sv scope s = map_res (\<lambda>environment. case environment of
       None \<Rightarrow> None
     | Some (proj, org) \<Rightarrow> if proj \<noteq> sc_projectId scope \<or> org \<noteq> sc_organizationId scope then None
         else Some \<lparr>sc_organizationId = org, sc_projectId = proj, sc_environmentId = sc_environmentId scope\<rparr>)
     (ts_environment sv (sc_environmentId scope) s)"

record mint_input =
  mt_scope :: scope_tuple
  mt_userId :: string
  mt_name :: string
  mt_permissions :: "string list"
  mt_ttlSeconds :: "jsnum option"
  mt_tier :: "string option"

definition admin_allowed :: "'s token_service \<Rightarrow> mint_input \<Rightarrow> scope_tuple \<Rightarrow> 's \<Rightarrow> db_error + bool" where
  "admin_allowed sv inp canonical s =
     (if normalizeTier (mt_tier inp) \<noteq> AdminTier then Inr True
      else map_res (\<lambda>m. m \<noteq> None) (findFirst (ts_memberships sv) (\<lambda>m. mb_organizationId m = sc_organizationId canonical \<and>
        mb_userId m = mt_userId inp \<and> mb_deactivatedAt m = None \<and> (mb_role m = ''OWNER'' \<or> mb_role m = ''ADMIN'')) s))"

definition minted_row :: "'s token_service \<Rightarrow> mint_input \<Rightarrow> scope_tuple \<Rightarrow> rat \<Rightarrow> string \<Rightarrow> string \<Rightarrow> int \<Rightarrow> token_row" where
  "minted_row sv inp canonical ttl newId raw now =
     \<lparr>tk_id = newId, tk_environmentId = sc_environmentId canonical, tk_mintedByUserId = mt_userId inp, tk_name = mt_name inp,
      tk_tokenHash = ts_sha256 sv raw, tk_permissions = mt_permissions inp, tk_tier = tier_name (normalizeTier (mt_tier inp)),
      tk_expiresAt = Some \<lfloor>of_int now + ttl * 1000\<rfloor>, tk_revokedAt = None, tk_revokedBy = None, tk_lastUsedAt = None,
      tk_createdAt = now\<rparr>"

record minted =
  mn_id :: string
  mn_name :: string
  mn_permissions :: "string list"
  mn_expiresAt :: "int option"
  mn_createdAt :: int
  mn_tier :: token_tier
  mn_token :: string

definition minted_of :: "token_row \<Rightarrow> string \<Rightarrow> minted" where
  "minted_of row raw = \<lparr>mn_id = tk_id row, mn_name = tk_name row, mn_permissions = tk_permissions row,
     mn_expiresAt = tk_expiresAt row, mn_createdAt = tk_createdAt row, mn_tier = normalizeTier (Some (tk_tier row)), mn_token = raw\<rparr>"

text \<open>The latest instant a \<open>Date\<close> holds; a later one is an invalid date, which the client rejects.\<close>

definition max_date :: int where
  "max_date = 8640000000000000"

definition mint :: "'s token_service \<Rightarrow> mint_input \<Rightarrow> string \<Rightarrow> string \<Rightarrow> int \<Rightarrow> 's \<Rightarrow> (token_error + minted) \<times> 's" where
  "mint sv inp newId rand now s =
     (if mt_name inp = [] \<or> 80 < length (mt_name inp) then (Inl BadName, s)
      else if mt_permissions inp = [] then (Inl BadPermissions, s)
      else case (case mt_ttlSeconds inp of None \<Rightarrow> Fin DEFAULT_TTL_SECONDS | Some t \<Rightarrow> t) of
        Fin ttl \<Rightarrow>
          if ttl \<le> 0 then (Inl BadTtl, s)
          else (case resolveScope sv (mt_scope inp) s of
             Inl e \<Rightarrow> (Inl (TokenDb e), s)
           | Inr None \<Rightarrow> (Inl NoEnvironment, s)
           | Inr (Some canonical) \<Rightarrow> (case admin_allowed sv inp canonical s of
                Inl e \<Rightarrow> (Inl (TokenDb e), s)
              | Inr False \<Rightarrow> (Inl AdminMintForbidden, s)
              | Inr True \<Rightarrow> (let raw = TOKEN_PREFIX @ rand; row = minted_row sv inp canonical ttl newId raw now in
                  if max_date < the (tk_expiresAt row) then (Inl (TokenDb Rejected), s)
                  else case create (ts_tokens sv) row s of
                    Inl e \<Rightarrow> (Inl (TokenDb e), s) | Inr s' \<Rightarrow> (Inr (minted_of row raw), s'))))
      | _ \<Rightarrow> (Inl BadTtl, s))"

datatype credential = Platform string | OAuth string

record verified_token =
  vt_id :: string
  vt_scope :: scope_tuple
  vt_permissions :: "string list"
  vt_mintedByUserId :: string
  vt_expiresAt :: "int option"
  vt_tier :: token_tier
  vt_credential :: "credential option"

definition verified_of :: "token_row \<Rightarrow> string \<times> string \<Rightarrow> verified_token" where
  "verified_of row ancestry = \<lparr>vt_id = tk_id row,
     vt_scope = \<lparr>sc_organizationId = snd ancestry, sc_projectId = fst ancestry, sc_environmentId = tk_environmentId row\<rparr>,
     vt_permissions = tk_permissions row, vt_mintedByUserId = tk_mintedByUserId row, vt_expiresAt = tk_expiresAt row,
     vt_tier = normalizeTier (Some (tk_tier row)), vt_credential = Some (Platform (tk_id row))\<rparr>"

text \<open>The second half of a verification: the guarded stamp of the row that was read.\<close>

definition verify_write ::
    "'s token_service \<Rightarrow> token_row \<Rightarrow> string \<times> string \<Rightarrow> int \<Rightarrow> 's \<Rightarrow> (db_error + verified_token option) \<times> 's" where
  "verify_write sv row ancestry now s =
     (case updateMany (ts_tokens sv) (\<lambda>r. tk_id r = tk_id row \<and> usable (tk_revokedAt r) (tk_expiresAt r) now)
        (\<lambda>r. r\<lparr>tk_lastUsedAt := Some now\<rparr>) s of
        Inl e \<Rightarrow> (Inl e, s)
      | Inr (n, s') \<Rightarrow> (Inr (if n \<noteq> 1 then None else Some (verified_of row ancestry)), s'))"

text \<open>The first half: the row, joined with the ancestry of its environment.\<close>

definition verify_read :: "'s token_service \<Rightarrow> (token_row \<Rightarrow> bool) \<Rightarrow> 's \<Rightarrow> db_error + (token_row \<times> string \<times> string) option" where
  "verify_read sv w s =
     (case findFirst (ts_tokens sv) w s of
        Inl e \<Rightarrow> Inl e
      | Inr None \<Rightarrow> Inr None
      | Inr (Some row) \<Rightarrow> (case ts_environment sv (tk_environmentId row) s of
           Inl e \<Rightarrow> Inl e | Inr None \<Rightarrow> Inl Rejected | Inr (Some ancestry) \<Rightarrow> Inr (Some (row, ancestry))))"

definition refused :: "token_row \<Rightarrow> string option \<Rightarrow> int \<Rightarrow> bool" where
  "refused row expectedHash now \<longleftrightarrow>
     (case expectedHash of None \<Rightarrow> False | Some h \<Rightarrow> h \<noteq> [] \<and> \<not> constantTimeHexEqual (tk_tokenHash row) h) \<or>
     tk_revokedAt row \<noteq> None \<or> (case tk_expiresAt row of None \<Rightarrow> False | Some t \<Rightarrow> t \<le> now)"

text \<open>The clock is read at \<open>now\<close> for the checks on the row and at \<open>now'\<close> for the update.\<close>

definition verifyPersisted ::
    "'s token_service \<Rightarrow> (token_row \<Rightarrow> bool) \<Rightarrow> string option \<Rightarrow> int \<Rightarrow> int \<Rightarrow> 's \<Rightarrow> (db_error + verified_token option) \<times> 's" where
  "verifyPersisted sv w expectedHash now now' s =
     (case verify_read sv w s of
        Inl e \<Rightarrow> (Inl e, s)
      | Inr None \<Rightarrow> (Inr None, s)
      | Inr (Some (row, ancestry)) \<Rightarrow>
          if refused row expectedHash now then (Inr None, s) else verify_write sv row ancestry now' s)"

definition verify :: "'s token_service \<Rightarrow> string \<Rightarrow> int \<Rightarrow> int \<Rightarrow> 's \<Rightarrow> (db_error + verified_token option) \<times> 's" where
  "verify sv raw now now' s =
     (if raw = [] \<or> \<not> starts_with TOKEN_PREFIX raw then (Inr None, s)
      else verifyPersisted sv (\<lambda>r. tk_tokenHash r = ts_sha256 sv raw) (Some (ts_sha256 sv raw)) now now' s)"

definition verifyById :: "'s token_service \<Rightarrow> string \<Rightarrow> int \<Rightarrow> int \<Rightarrow> 's \<Rightarrow> (db_error + verified_token option) \<times> 's" where
  "verifyById sv i now now' s =
     (if i = [] then (Inr None, s) else verifyPersisted sv (\<lambda>r. tk_id r = i) None now now' s)"

record token_view =
  tv_id :: string
  tv_name :: string
  tv_permissions :: "string list"
  tv_tier :: token_tier
  tv_mintedByUserId :: string
  tv_expiresAt :: "int option"
  tv_lastUsedAt :: "int option"
  tv_revokedAt :: "int option"
  tv_createdAt :: int

definition token_view_of :: "token_row \<Rightarrow> token_view" where
  "token_view_of row = \<lparr>tv_id = tk_id row, tv_name = tk_name row, tv_permissions = tk_permissions row,
     tv_tier = normalizeTier (Some (tk_tier row)), tv_mintedByUserId = tk_mintedByUserId row, tv_expiresAt = tk_expiresAt row,
     tv_lastUsedAt = tk_lastUsedAt row, tv_revokedAt = tk_revokedAt row, tv_createdAt = tk_createdAt row\<rparr>"

definition max_offset :: int where
  "max_offset = 9007199254740991"

text \<open>
  The listing: the views, the total, the limit and the offset. \<open>ts_page\<close> is the transaction of
  the count and the page, newest row first.
\<close>

definition listTokens ::
    "'s token_service \<Rightarrow> scope_tuple \<Rightarrow> jsnum option \<Rightarrow> jsnum option \<Rightarrow> 's \<Rightarrow> db_error + (token_view list \<times> nat \<times> int \<times> int)" where
  "listTokens sv scope limit offset s =
     (let l = boundedInteger limit 50 1 100; k = boundedInteger offset 0 0 max_offset in
      case resolveScope sv scope s of
        Inl e \<Rightarrow> Inl e
      | Inr None \<Rightarrow> Inr ([], 0, l, k)
      | Inr (Some canonical) \<Rightarrow>
          map_res (\<lambda>(total_rows, rows). (map token_view_of rows, total_rows, l, k))
            (ts_page sv (\<lambda>r. tk_environmentId r = sc_environmentId canonical) (nat k) (nat l) s))"

definition revoke_write :: "'s token_service \<Rightarrow> string \<Rightarrow> string \<Rightarrow> string \<Rightarrow> int \<Rightarrow> 's \<Rightarrow> (db_error + bool) \<times> 's" where
  "revoke_write sv i env userId now s =
     (case updateMany (ts_tokens sv) (\<lambda>r. tk_id r = i \<and> tk_environmentId r = env \<and> tk_revokedAt r = None)
        (\<lambda>r. r\<lparr>tk_revokedAt := Some now, tk_revokedBy := Some userId\<rparr>) s of
        Inl e \<Rightarrow> (Inl e, s) | Inr (n, s') \<Rightarrow> (Inr True, s'))"

definition revoke :: "'s token_service \<Rightarrow> string \<Rightarrow> scope_tuple \<Rightarrow> string \<Rightarrow> int \<Rightarrow> 's \<Rightarrow> (db_error + bool) \<times> 's" where
  "revoke sv i scope userId now s =
     (case resolveScope sv scope s of
        Inl e \<Rightarrow> (Inl e, s)
      | Inr None \<Rightarrow> (Inr False, s)
      | Inr (Some canonical) \<Rightarrow>
          (case findFirst (ts_tokens sv) (\<lambda>r. tk_id r = i \<and> tk_environmentId r = sc_environmentId canonical) s of
             Inl e \<Rightarrow> (Inl e, s)
           | Inr None \<Rightarrow> (Inr False, s)
           | Inr (Some existing) \<Rightarrow> if tk_revokedAt existing \<noteq> None then (Inr True, s)
               else revoke_write sv i (sc_environmentId canonical) userId now s))"

section \<open>Entity tokens\<close>

record bearer_row =
  bt_id :: string
  bt_entityId :: string
  bt_environmentId :: string
  bt_tokenHash :: string
  bt_label :: string
  bt_mcpUserId :: string
  bt_scopes :: "string list"
  bt_createdByUserId :: string
  bt_expiresAt :: "int option"
  bt_revokedAt :: "int option"
  bt_lastUsedAt :: "int option"
  bt_createdAt :: int

record audit_row =
  au_environmentId :: string
  au_actorUserId :: "string option"
  au_action :: string
  au_subjectType :: string
  au_subjectId :: string
  au_scope :: scope_tuple
  au_source :: string

record 's bearer_service =
  bs_tokens :: "('s, bearer_row) table"
  bs_audit :: "audit_row \<Rightarrow> 's \<Rightarrow> db_error + 's"
  bs_page :: "(bearer_row \<Rightarrow> bool) \<Rightarrow> nat \<Rightarrow> nat \<Rightarrow> 's \<Rightarrow> db_error + (nat \<times> bearer_row list)"
  bs_entity :: "string \<Rightarrow> string \<Rightarrow> 's \<Rightarrow> db_error + (string \<times> string) option"
  bs_sha256 :: "string \<Rightarrow> string"

datatype bearer_error = NoAncestry | NotInFuture | BearerDb db_error

definition BEARER_PREFIX :: string where
  "BEARER_PREFIX = ''plt_ent_''"

definition DEFAULT_TTL_MS :: int where
  "DEFAULT_TTL_MS = 90 * 24 * 60 * 60 * 1000"

text \<open>\<open>bs_entity\<close> finds the project and organization of an entity whose project has the live environment.\<close>

definition bearerScope :: "'s bearer_service \<Rightarrow> string \<Rightarrow> string \<Rightarrow> 's \<Rightarrow> db_error + scope_tuple option" where
  "bearerScope sv entityId environmentId s = map_res (map_option (\<lambda>(proj, org).
     \<lparr>sc_organizationId = org, sc_projectId = proj, sc_environmentId = environmentId\<rparr>)) (bs_entity sv entityId environmentId s)"

definition auditData :: "scope_tuple \<Rightarrow> string \<Rightarrow> string \<Rightarrow> string option \<Rightarrow> audit_row" where
  "auditData scope tokenId action actorUserId =
     \<lparr>au_environmentId = sc_environmentId scope, au_actorUserId = actorUserId, au_action = ''mcp_bearer.'' @ action,
      au_subjectType = ''McpBearerToken'', au_subjectId = tokenId, au_scope = scope, au_source = ''entity_mcp''\<rparr>"

record generate_input =
  gi_entityPk :: string
  gi_environmentId :: string
  gi_label :: string
  gi_createdBy :: string
  gi_scopes :: "string list option"
  gi_expiresAt :: "int option"
  gi_mcpUserId :: "string option"

definition generated_row :: "'s bearer_service \<Rightarrow> generate_input \<Rightarrow> string \<Rightarrow> string \<Rightarrow> int \<Rightarrow> bearer_row" where
  "generated_row sv inp i raw now =
     \<lparr>bt_id = i, bt_entityId = gi_entityPk inp, bt_environmentId = gi_environmentId inp, bt_tokenHash = bs_sha256 sv raw,
      bt_label = gi_label inp, bt_mcpUserId = (case gi_mcpUserId inp of None \<Rightarrow> ''mcp:pat:'' @ i | Some u \<Rightarrow> u),
      bt_scopes = (case gi_scopes inp of None \<Rightarrow> [''mcp:tools''] | Some sc \<Rightarrow> sc), bt_createdByUserId = gi_createdBy inp,
      bt_expiresAt = Some (case gi_expiresAt inp of None \<Rightarrow> now + DEFAULT_TTL_MS | Some t \<Rightarrow> t),
      bt_revokedAt = None, bt_lastUsedAt = None, bt_createdAt = now\<rparr>"

text \<open>A transaction that fails leaves the state as it was.\<close>

definition generate ::
    "'s bearer_service \<Rightarrow> generate_input \<Rightarrow> string \<Rightarrow> string \<Rightarrow> int \<Rightarrow> 's \<Rightarrow> (bearer_error + (string \<times> string \<times> string)) \<times> 's" where
  "generate sv inp i rand now s =
     (let raw = BEARER_PREFIX @ rand; row = generated_row sv inp i raw now in
      case bearerScope sv (gi_entityPk inp) (gi_environmentId inp) s of
        Inl e \<Rightarrow> (Inl (BearerDb e), s)
      | Inr None \<Rightarrow> (Inl NoAncestry, s)
      | Inr (Some scope) \<Rightarrow>
          if (case bt_expiresAt row of None \<Rightarrow> False | Some t \<Rightarrow> t \<le> now) then (Inl NotInFuture, s)
          else (case create (bs_tokens sv) row s of
             Inl e \<Rightarrow> (Inl (BearerDb e), s)
           | Inr s1 \<Rightarrow> (case bs_audit sv (auditData scope i ''mint'' (Some (gi_createdBy inp))) s1 of
                Inl e \<Rightarrow> (Inl (BearerDb e), s) | Inr s2 \<Rightarrow> (Inr (i, raw, bt_mcpUserId row), s2))))"

record bearer_identity =
  bi_id :: string
  bi_entityPk :: string
  bi_environmentId :: string
  bi_mcpUserId :: string
  bi_scopes :: "string list"

definition identity_of :: "bearer_row \<Rightarrow> bearer_identity" where
  "identity_of row = \<lparr>bi_id = bt_id row, bi_entityPk = bt_entityId row, bi_environmentId = bt_environmentId row,
     bi_mcpUserId = bt_mcpUserId row, bi_scopes = bt_scopes row\<rparr>"

definition record_use :: "'s bearer_service \<Rightarrow> bearer_row \<Rightarrow> scope_tuple \<Rightarrow> int \<Rightarrow> 's \<Rightarrow> (db_error + bearer_identity option) \<times> 's" where
  "record_use sv row scope now s =
     (case updateMany (bs_tokens sv) (\<lambda>r. bt_id r = bt_id row \<and> usable (bt_revokedAt r) (bt_expiresAt r) now)
        (\<lambda>r. r\<lparr>bt_lastUsedAt := Some now\<rparr>) s of
        Inl e \<Rightarrow> (Inl e, s)
      | Inr (n, s1) \<Rightarrow> if n \<noteq> 1 then (Inr None, s1)
          else (case bs_audit sv (auditData scope (bt_id row) ''use'' None) s1 of
             Inl e \<Rightarrow> (Inl e, s) | Inr s2 \<Rightarrow> (Inr (Some (identity_of row)), s2)))"

definition validateHash :: "'s bearer_service \<Rightarrow> string \<Rightarrow> int \<Rightarrow> int \<Rightarrow> 's \<Rightarrow> (db_error + bearer_identity option) \<times> 's" where
  "validateHash sv tokenHash now now' s =
     (case findFirst (bs_tokens sv) (\<lambda>r. bt_tokenHash r = tokenHash \<and> usable (bt_revokedAt r) (bt_expiresAt r) now) s of
        Inl e \<Rightarrow> (Inl e, s)
      | Inr None \<Rightarrow> (Inr None, s)
      | Inr (Some row) \<Rightarrow>
          if \<not> constantTimeHexEqual (bt_tokenHash row) tokenHash then (Inr None, s)
          else (case bearerScope sv (bt_entityId row) (bt_environmentId row) s of
             Inl e \<Rightarrow> (Inl e, s) | Inr None \<Rightarrow> (Inr None, s) | Inr (Some scope) \<Rightarrow> record_use sv row scope now' s))"

definition validate :: "'s bearer_service \<Rightarrow> string \<Rightarrow> int \<Rightarrow> int \<Rightarrow> 's \<Rightarrow> (db_error + bearer_identity option) \<times> 's" where
  "validate sv raw now now' s =
     (if \<not> starts_with BEARER_PREFIX raw then (Inr None, s) else validateHash sv (bs_sha256 sv raw) now now' s)"

record bearer_view =
  bv_id :: string
  bv_environmentId :: string
  bv_label :: string
  bv_mcpUserId :: string
  bv_scopes :: "string list"
  bv_createdAt :: int
  bv_lastUsedAt :: "int option"
  bv_expiresAt :: "int option"
  bv_revokedAt :: "int option"

definition bearer_view_of :: "bearer_row \<Rightarrow> bearer_view" where
  "bearer_view_of row = \<lparr>bv_id = bt_id row, bv_environmentId = bt_environmentId row, bv_label = bt_label row,
     bv_mcpUserId = bt_mcpUserId row, bv_scopes = bt_scopes row, bv_createdAt = bt_createdAt row,
     bv_lastUsedAt = bt_lastUsedAt row, bv_expiresAt = bt_expiresAt row, bv_revokedAt = bt_revokedAt row\<rparr>"

definition listBearers ::
    "'s bearer_service \<Rightarrow> string \<Rightarrow> string \<Rightarrow> jsnum option \<Rightarrow> jsnum option \<Rightarrow> 's \<Rightarrow> bearer_error + (bearer_view list \<times> nat \<times> int \<times> int)" where
  "listBearers sv entityPk environmentId limit offset s =
     (case bearerScope sv entityPk environmentId s of
        Inl e \<Rightarrow> Inl (BearerDb e)
      | Inr None \<Rightarrow> Inl NoAncestry
      | Inr (Some scope) \<Rightarrow> (let l = boundedInteger limit 50 1 100; k = boundedInteger offset 0 0 max_offset in
          case bs_page sv (\<lambda>r. bt_entityId r = entityPk \<and> bt_environmentId r = environmentId) (nat k) (nat l) s of
            Inl e \<Rightarrow> Inl (BearerDb e)
          | Inr (total_rows, rows) \<Rightarrow> Inr (map bearer_view_of rows, total_rows, l, k)))"

definition bearer_revoke_write ::
    "'s bearer_service \<Rightarrow> string \<Rightarrow> string \<Rightarrow> string \<Rightarrow> string option \<Rightarrow> scope_tuple \<Rightarrow> int \<Rightarrow> 's \<Rightarrow> (db_error + bool) \<times> 's" where
  "bearer_revoke_write sv i entityPk environmentId revokedBy scope now s =
     (case updateMany (bs_tokens sv) (\<lambda>r. bt_id r = i \<and> bt_entityId r = entityPk \<and> bt_environmentId r = environmentId \<and> bt_revokedAt r = None)
        (\<lambda>r. r\<lparr>bt_revokedAt := Some now\<rparr>) s of
        Inl e \<Rightarrow> (Inl e, s)
      | Inr (n, s1) \<Rightarrow> if n = 0 then (Inr True, s1)
          else (case bs_audit sv (auditData scope i ''revoke'' revokedBy) s1 of
             Inl e \<Rightarrow> (Inl e, s) | Inr s2 \<Rightarrow> (Inr True, s2)))"

definition revokeBearer ::
    "'s bearer_service \<Rightarrow> string \<Rightarrow> string \<Rightarrow> string \<Rightarrow> string option \<Rightarrow> int \<Rightarrow> 's \<Rightarrow> (db_error + bool) \<times> 's" where
  "revokeBearer sv i entityPk environmentId revokedBy now s =
     (case findFirst (bs_tokens sv) (\<lambda>r. bt_id r = i \<and> bt_entityId r = entityPk \<and> bt_environmentId r = environmentId) s of
        Inl e \<Rightarrow> (Inl e, s)
      | Inr None \<Rightarrow> (Inr False, s)
      | Inr (Some existing) \<Rightarrow>
          if bt_revokedAt existing \<noteq> None then (Inr True, s)
          else (case bearerScope sv entityPk environmentId s of
             Inl e \<Rightarrow> (Inl e, s) | Inr None \<Rightarrow> (Inr False, s)
           | Inr (Some scope) \<Rightarrow> bearer_revoke_write sv i entityPk environmentId revokedBy scope now s))"

section \<open>Interleavings\<close>

text \<open>
  What a request does to the tables at one moment: a mint, the stamp of a verification whose row
  was read at any earlier time, the guarded update of a revocation whose row was read earlier.
\<close>

inductive token_step :: "'s token_service \<Rightarrow> 's \<Rightarrow> 's \<Rightarrow> bool" for sv where
  mint_step: "mint sv inp i rand now s = (res, s') \<Longrightarrow> token_step sv s s'"
| verify_step: "verify_write sv row ancestry now s = (vres, s') \<Longrightarrow> token_step sv s s'"
| revoke_step: "revoke_write sv i env userId now s = (rres, s') \<Longrightarrow> token_step sv s s'"

inductive bearer_step :: "'s bearer_service \<Rightarrow> 's \<Rightarrow> 's \<Rightarrow> bool" for sv where
  generate_step: "generate sv inp i rand now s = (res, s') \<Longrightarrow> bearer_step sv s s'"
| use_step: "record_use sv row scope now s = (ures, s') \<Longrightarrow> bearer_step sv s s'"
| bearer_revoke_step:
    "bearer_revoke_write sv i entityPk environmentId revokedBy scope now s = (rres, s') \<Longrightarrow> bearer_step sv s s'"

lemma mint_effect: "mint sv inp i rand now s = (res, s') \<Longrightarrow> s' = s \<or> (\<exists>row. create (ts_tokens sv) row s = Inr s')"
  by (auto simp: mint_def Let_def split: if_splits jsnum.splits sum.splits option.splits bool.splits)

lemma verify_write_effect:
  "verify_write sv row ancestry now s = (res, s') \<Longrightarrow> s' = s \<or> (\<exists>n. updateMany (ts_tokens sv)
     (\<lambda>r. tk_id r = tk_id row \<and> usable (tk_revokedAt r) (tk_expiresAt r) now) (\<lambda>r. r\<lparr>tk_lastUsedAt := Some now\<rparr>) s = Inr (n, s'))"
  by (auto simp: verify_write_def split: sum.splits)

lemma revoke_write_effect:
  "revoke_write sv i env userId now s = (res, s') \<Longrightarrow> s' = s \<or> (\<exists>n. updateMany (ts_tokens sv)
     (\<lambda>r. tk_id r = i \<and> tk_environmentId r = env \<and> tk_revokedAt r = None)
     (\<lambda>r. r\<lparr>tk_revokedAt := Some now, tk_revokedBy := Some userId\<rparr>) s = Inr (n, s'))"
  by (auto simp: revoke_write_def split: sum.splits)

lemma constantTimeHexEqual_refl [simp]: "constantTimeHexEqual h h"
  by (simp add: constantTimeHexEqual_def)

text \<open>Every admission goes through the guarded stamp.\<close>

lemma persisted_through:
  assumes "verifyPersisted sv w h now now' s = (Inr (Some t), s')"
  obtains row ancestry where "verify_read sv w s = Inr (Some (row, ancestry))" "\<not> refused row h now"
    "verify_write sv row ancestry now' s = (Inr (Some t), s')"
  using assms by (auto simp: verifyPersisted_def split: sum.splits option.splits if_splits)

lemma verify_through:
  assumes "verify sv raw now now' s = (Inr (Some t), s')"
  shows "\<exists>row ancestry. verify_write sv row ancestry now' s = (Inr (Some t), s')"
proof -
  have "verifyPersisted sv (\<lambda>r. tk_tokenHash r = ts_sha256 sv raw) (Some (ts_sha256 sv raw)) now now' s = (Inr (Some t), s')"
    using assms by (simp add: verify_def split: if_splits)
  then show ?thesis by (rule persisted_through) blast
qed

lemma verifyById_through:
  assumes "verifyById sv i now now' s = (Inr (Some t), s')"
  shows "\<exists>row ancestry. verify_write sv row ancestry now' s = (Inr (Some t), s')"
proof -
  have "verifyPersisted sv (\<lambda>r. tk_id r = i) None now now' s = (Inr (Some t), s')"
    using assms by (simp add: verifyById_def split: if_splits)
  then show ?thesis by (rule persisted_through) blast
qed

lemma TOKEN_PREFIX_nonempty [simp]: "TOKEN_PREFIX \<noteq> []"
  by (simp add: TOKEN_PREFIX_def)

lemma resolveScope_same: "resolveScope sv scope s = Inr (Some canonical) \<Longrightarrow> canonical = scope \<and>
    ts_environment sv (sc_environmentId scope) s = Inr (Some (sc_projectId scope, sc_organizationId scope))"
  by (cases scope; cases "ts_environment sv (sc_environmentId scope) s")
    (auto simp: resolveScope_def split: option.splits if_splits)

text \<open>What a successful mint has stored.\<close>

lemma mint_stored:
  assumes "mint sv inp i rand now s = (Inr m, s')"
  obtains ttl row where "row = minted_row sv inp (mt_scope inp) ttl i (TOKEN_PREFIX @ rand) now"
    "ts_environment sv (sc_environmentId (mt_scope inp)) s = Inr (Some (sc_projectId (mt_scope inp), sc_organizationId (mt_scope inp)))"
    "create (ts_tokens sv) row s = Inr s'" "m = minted_of row (TOKEN_PREFIX @ rand)"
proof -
  obtain canonical ttl where c: "resolveScope sv (mt_scope inp) s = Inr (Some canonical)"
    and k: "create (ts_tokens sv) (minted_row sv inp canonical ttl i (TOKEN_PREFIX @ rand) now) s = Inr s'"
      "m = minted_of (minted_row sv inp canonical ttl i (TOKEN_PREFIX @ rand) now) (TOKEN_PREFIX @ rand)"
    using assms by (auto simp: mint_def Let_def split: if_splits jsnum.splits sum.splits option.splits bool.splits)
  show thesis using that [OF refl _ k(1)[unfolded conjunct1 [OF resolveScope_same [OF c]]]]
      k(2) resolveScope_same [OF c] by simp
qed

section \<open>The token store\<close>

locale token_store = prisma_table "ts_tokens sv" rows tk_id
  for sv :: "'s token_service" and rows :: "'s \<Rightarrow> token_row multiset"

sublocale token_store \<subseteq> led: sealed_ledger rows tk_id tk_revokedAt "token_step sv"
proof (unfold_locales, erule token_step.cases, goal_cases)
  case (1 s s' inp i rand now t res t')
  from mint_effect [OF 1(3)] show ?case
    unfolding 1(1,2) by (auto intro: ledger_same ledger_create [OF prisma_table_axioms])
next
  case (2 s s' row ancestry now t vres t')
  from verify_write_effect [OF 2(3)] show ?case unfolding 2(1,2)
    by (elim disjE exE) (simp add: ledger_same, erule ledger_update [OF prisma_table_axioms], simp_all)
next
  case (3 s s' i env userId now t rres t')
  from revoke_write_effect [OF 3(3)] show ?case unfolding 3(1,2)
    by (elim disjE exE) (simp add: ledger_same, erule ledger_update [OF prisma_table_axioms], simp_all)
qed

context token_store
begin

lemmas axioms_ledger = led.sealed_ledger_axioms

lemma revoke_seals:
  assumes uniq: "inj_on tk_id (set_mset (rows s))" and rv: "revoke sv i scope userId now s = (Inr True, s')"
  shows "sealed_key tk_id tk_revokedAt (rows s') i"
proof -
  obtain canonical where c: "resolveScope sv scope s = Inr (Some canonical)"
    using rv by (auto simp: revoke_def split: sum.splits option.splits)
  define env where "env = sc_environmentId canonical"
  obtain existing where ex: "findFirst (ts_tokens sv) (\<lambda>r. tk_id r = i \<and> tk_environmentId r = env) s = Inr (Some existing)"
    using rv c by (auto simp: revoke_def env_def split: sum.splits option.splits)
  have early: "tk_revokedAt existing \<noteq> None \<Longrightarrow> s' = s"
    and fin: "tk_revokedAt existing = None \<Longrightarrow> revoke_write sv i env userId now s = (Inr True, s')"
    using rv c ex by (simp_all add: revoke_def env_def)
  have row: "existing \<in># rows s" "tk_id existing = i" "tk_environmentId existing = env"
    using first_some [OF ex] by auto
  show ?thesis
  proof (cases "tk_revokedAt existing")
    case None
    then have "revoke_write sv i env userId now s = (Inr True, s')" using fin by blast
    then obtain n where u: "updateMany (ts_tokens sv) (\<lambda>r. tk_id r = i \<and> tk_environmentId r = env \<and> tk_revokedAt r = None)
        (\<lambda>r. r\<lparr>tk_revokedAt := Some now, tk_revokedBy := Some userId\<rparr>) s = Inr (n, s')"
      by (auto simp: revoke_write_def split: sum.splits)
    show ?thesis
      using sealed_key_update [OF prisma_table_axioms u _ _ uniq row(1), of tk_revokedAt] row(2,3) None by simp
  next
    case (Some at)
    then have "s' = s" using early by blast
    then show ?thesis using sealed_key_unique [OF uniq row(1), of tk_revokedAt] Some row(2) by simp
  qed
qed

lemma admitted_unsealed:
  assumes "verify_write sv row ancestry now s = (Inr (Some t), s')"
  shows "\<exists>r. r \<in># rows s \<and> tk_id r = vt_id t \<and> usable (tk_revokedAt r) (tk_expiresAt r) now"
proof -
  obtain n where u: "updateMany (ts_tokens sv) (\<lambda>r. tk_id r = tk_id row \<and> usable (tk_revokedAt r) (tk_expiresAt r) now)
      (\<lambda>r. r\<lparr>tk_lastUsedAt := Some now\<rparr>) s = Inr (n, s')" and "n = 1" and t: "t = verified_of row ancestry"
    using assms by (auto simp: verify_write_def split: sum.splits if_splits)
  then show ?thesis using updated_positive [OF u] by (auto simp: t verified_of_def)
qed

lemma sealed_refused:
  "sealed_key tk_id tk_revokedAt (rows s) i \<Longrightarrow> verify_write sv row ancestry now s = (Inr (Some t), s') \<Longrightarrow> vt_id t \<noteq> i"
  using admitted_unsealed [of row ancestry now s t s'] by (auto simp: sealed_key_def usable_def)

end

context token_store
begin

lemma fresh_admitted:
  assumes new: "create (ts_tokens sv) row s = Inr s'" and live: "usable (tk_revokedAt row) (tk_expiresAt row) now"
    and acc: "\<And>p f t. \<exists>res. updateMany (ts_tokens sv) p f t = Inr res"
  shows "fst (verify_write sv row ancestry now s') = Inr (Some (verified_of row ancestry))"
proof -
  let ?p = "\<lambda>r. tk_id r = tk_id row \<and> usable (tk_revokedAt r) (tk_expiresAt r) now"
  obtain n s'' where u: "updateMany (ts_tokens sv) ?p (\<lambda>r. r\<lparr>tk_lastUsedAt := Some now\<rparr>) s' = Inr (n, s'')"
    using acc by fast
  have "filter_mset ?p (rows s) = {#}"
    using created [OF new] by (auto simp: filter_mset_eq_mempty_iff image_iff)
  then have "n = 1" using updated [OF u] created [OF new] live by simp
  then show ?thesis using u by (simp add: verify_write_def)
qed

end

section \<open>The bearer store\<close>

locale bearer_store = prisma_table "bs_tokens sv" rows bt_id
  for sv :: "'s bearer_service" and rows :: "'s \<Rightarrow> bearer_row multiset" +
  fixes audits :: "'s \<Rightarrow> audit_row multiset"
  assumes audited: "bs_audit sv a s = Inr s' \<Longrightarrow> audits s' = add_mset a (audits s) \<and> rows s' = rows s"
    and frame: "leaves (bs_tokens sv) audits"
begin

lemma generate_effect:
  assumes "generate sv inp i rand now s = (res, s')"
  shows "rows s' = rows s \<or> (\<exists>row s1. create (bs_tokens sv) row s = Inr s1 \<and> rows s' = rows s1)"
  using assms by (auto simp: generate_def Let_def dest: audited split: sum.splits option.splits if_splits)

lemma use_effect:
  assumes "record_use sv row scope now s = (res, s')"
  shows "rows s' = rows s \<or> (\<exists>n s1. updateMany (bs_tokens sv) (\<lambda>r. bt_id r = bt_id row \<and> usable (bt_revokedAt r) (bt_expiresAt r) now)
     (\<lambda>r. r\<lparr>bt_lastUsedAt := Some now\<rparr>) s = Inr (n, s1) \<and> rows s' = rows s1)"
  using assms by (auto simp: record_use_def dest: audited split: sum.splits if_splits)

lemma bearer_revoke_effect:
  assumes "bearer_revoke_write sv i e env by_user scope now s = (res, s')"
  shows "(rows s' = rows s \<and> res \<noteq> Inr True) \<or> (\<exists>n s1. updateMany (bs_tokens sv)
     (\<lambda>r. bt_id r = i \<and> bt_entityId r = e \<and> bt_environmentId r = env \<and> bt_revokedAt r = None)
     (\<lambda>r. r\<lparr>bt_revokedAt := Some now\<rparr>) s = Inr (n, s1) \<and> rows s' = rows s1)"
  using assms by (auto simp: bearer_revoke_write_def dest: audited split: sum.splits if_splits)

end

sublocale bearer_store \<subseteq> led: sealed_ledger rows bt_id bt_revokedAt "bearer_step sv"
proof (unfold_locales, erule bearer_step.cases, goal_cases)
  case (1 s s' inp i rand now t res t')
  from generate_effect [OF 1(3)] show ?case
    unfolding 1(1,2) by (elim disjE exE conjE) (simp_all add: ledger_same ledger_create [OF prisma_table_axioms])
next
  case (2 s s' row scope now t ures t')
  from use_effect [OF 2(3)] show ?case unfolding 2(1,2)
    by (elim disjE exE conjE) (simp add: ledger_same, simp, erule ledger_update [OF prisma_table_axioms], simp_all)
next
  case (3 s s' i e env by_user scope now t rres t')
  from bearer_revoke_effect [OF 3(3)] show ?case unfolding 3(1,2)
    by (elim disjE exE conjE) (simp add: ledger_same, simp, erule ledger_update [OF prisma_table_axioms], simp_all)
qed

context bearer_store
begin

lemmas bearer_axioms_ledger = led.sealed_ledger_axioms

lemma bearer_revoke_seals:
  assumes uniq: "inj_on bt_id (set_mset (rows s))" and rv: "revokeBearer sv i e env by_user now s = (Inr True, s')"
  shows "sealed_key bt_id bt_revokedAt (rows s') i"
proof -
  obtain existing where ex: "findFirst (bs_tokens sv) (\<lambda>r. bt_id r = i \<and> bt_entityId r = e \<and> bt_environmentId r = env) s =
      Inr (Some existing)"
    using rv by (auto simp: revokeBearer_def split: sum.splits option.splits)
  then have row: "existing \<in># rows s" "bt_id existing = i" "bt_entityId existing = e" "bt_environmentId existing = env"
    using first_some [OF ex] by auto
  show ?thesis
  proof (cases "bt_revokedAt existing")
    case None
    then obtain scope where "bearer_revoke_write sv i e env by_user scope now s = (Inr True, s')"
      using rv ex by (auto simp: revokeBearer_def split: sum.splits option.splits)
    from bearer_revoke_effect [OF this] obtain n s1 where
      u: "updateMany (bs_tokens sv) (\<lambda>r. bt_id r = i \<and> bt_entityId r = e \<and> bt_environmentId r = env \<and> bt_revokedAt r = None)
        (\<lambda>r. r\<lparr>bt_revokedAt := Some now\<rparr>) s = Inr (n, s1)" and s': "rows s' = rows s1" by blast
    show ?thesis
      using sealed_key_update [OF prisma_table_axioms u _ _ uniq row(1), of bt_revokedAt] row(2-4) None s' by simp
  next
    case (Some at)
    then have "s' = s" using rv ex by (simp add: revokeBearer_def)
    then show ?thesis using sealed_key_unique [OF uniq row(1), of bt_revokedAt] Some row(2) by simp
  qed
qed

lemma use_admitted:
  assumes "record_use sv row scope now s = (Inr (Some t), s')"
  shows "t = identity_of row \<and> audits s' = add_mset (auditData scope (bt_id row) ''use'' None) (audits s) \<and>
    (\<exists>r. r \<in># rows s \<and> bt_id r = bt_id row \<and> usable (bt_revokedAt r) (bt_expiresAt r) now)"
proof -
  let ?p = "\<lambda>r. bt_id r = bt_id row \<and> usable (bt_revokedAt r) (bt_expiresAt r) now"
  obtain s1 where u: "updateMany (bs_tokens sv) ?p (\<lambda>r. r\<lparr>bt_lastUsedAt := Some now\<rparr>) s = Inr (1, s1)"
    and a: "bs_audit sv (auditData scope (bt_id row) ''use'' None) s1 = Inr s'" and t: "t = identity_of row"
    using assms by (auto simp: record_use_def split: sum.splits if_splits)
  show ?thesis using updated_positive [OF u] audited [OF a] leaves_update [OF frame u] t by simp
qed

lemma sealed_bearer_refused:
  assumes "sealed_key bt_id bt_revokedAt (rows s) i" "record_use sv row scope now s = (Inr (Some t), s')"
  shows "bi_id t \<noteq> i"
  using use_admitted [OF assms(2)] assms(1) by (auto simp: identity_of_def sealed_key_def usable_def)

lemma validate_through:
  assumes "validate sv raw now now' s = (Inr (Some t), s')"
  obtains row scope where "row \<in># rows s" "bt_tokenHash row = bs_sha256 sv raw" "usable (bt_revokedAt row) (bt_expiresAt row) now"
    "bearerScope sv (bt_entityId row) (bt_environmentId row) s = Inr (Some scope)"
    "record_use sv row scope now' s = (Inr (Some t), s')"
proof -
  have v: "validateHash sv (bs_sha256 sv raw) now now' s = (Inr (Some t), s')"
    using assms by (simp add: validate_def split: if_splits)
  then obtain row where f: "findFirst (bs_tokens sv) (\<lambda>r. bt_tokenHash r = bs_sha256 sv raw \<and>
      usable (bt_revokedAt r) (bt_expiresAt r) now) s = Inr (Some row)"
    by (auto simp: validateHash_def split: sum.splits option.splits)
  then obtain scope where "bearerScope sv (bt_entityId row) (bt_environmentId row) s = Inr (Some scope)"
    "record_use sv row scope now' s = (Inr (Some t), s')"
    using v by (auto simp: validateHash_def split: sum.splits option.splits if_splits)
  then show thesis using that first_some [OF f] by blast
qed

end

section \<open>The services over table doubles\<close>

record credential_db =
  cd_tokens :: "token_row list"
  cd_members :: "membership_row list"
  cd_bearers :: "bearer_row list"
  cd_audits :: "audit_row list"

definition tree_double :: "string \<Rightarrow> (string \<times> string) option" where
  "tree_double environmentId = (if environmentId = ''env'' then Some (''proj'', ''org'') else None)"

definition double_tokens :: "credential_db token_service" where
  "double_tokens = \<lparr>ts_tokens = focus cd_tokens (\<lambda>x. cd_tokens_update (\<lambda>_. x)) (double_table tk_id),
     ts_memberships = focus cd_members (\<lambda>x. cd_members_update (\<lambda>_. x)) (double_table (\<lambda>m. (mb_organizationId m, mb_userId m))),
     ts_page = (\<lambda>w k l s. let rs = rev (filter w (cd_tokens s)) in Inr (length rs, take l (drop k rs))),
     ts_environment = (\<lambda>e s. Inr (tree_double e)), ts_sha256 = (\<lambda>raw. raw)\<rparr>"

definition double_bearers :: "credential_db bearer_service" where
  "double_bearers = \<lparr>bs_tokens = focus cd_bearers (\<lambda>x. cd_bearers_update (\<lambda>_. x)) (double_table bt_id),
     bs_audit = (\<lambda>a s. Inr (s\<lparr>cd_audits := cd_audits s @ [a]\<rparr>)),
     bs_page = (\<lambda>w k l s. let rs = rev (filter w (cd_bearers s)) in Inr (length rs, take l (drop k rs))),
     bs_entity = (\<lambda>entity e s. Inr (if entity = ''ent'' then tree_double e else None)), bs_sha256 = (\<lambda>raw. raw)\<rparr>"

text \<open>The service inside a larger database state.\<close>

definition focus_tokens :: "('t \<Rightarrow> 's) \<Rightarrow> ('s \<Rightarrow> 't \<Rightarrow> 't) \<Rightarrow> 's token_service \<Rightarrow> 't token_service" where
  "focus_tokens get put sv = \<lparr>ts_tokens = focus get put (ts_tokens sv), ts_memberships = focus get put (ts_memberships sv),
     ts_page = (\<lambda>w k l t. ts_page sv w k l (get t)), ts_environment = (\<lambda>e t. ts_environment sv e (get t)),
     ts_sha256 = ts_sha256 sv\<rparr>"

lemma double_tokens_table: "prisma_table (ts_tokens double_tokens) (\<lambda>s. mset (cd_tokens s)) tk_id"
  unfolding double_tokens_def token_service.select_convs by (rule focus_double) simp

lemma double_bearers_table: "prisma_table (bs_tokens double_bearers) (\<lambda>s. mset (cd_bearers s)) bt_id"
  unfolding double_bearers_def bearer_service.select_convs by (rule focus_double) simp

interpretation tok: token_store double_tokens "\<lambda>s. mset (cd_tokens s)"
  by (rule token_store.intro, rule double_tokens_table)

interpretation brr: bearer_store double_bearers "\<lambda>s. mset (cd_bearers s)" "\<lambda>s. mset (cd_audits s)"
  by (rule bearer_store.intro, rule double_bearers_table, unfold_locales)
    (auto simp: double_bearers_def intro: focus_leaves)

definition w_tables :: credential_db where
  "w_tables = \<lparr>cd_tokens = [], cd_members = [], cd_bearers = [], cd_audits = []\<rparr>"

definition w_tenant :: scope_tuple where
  "w_tenant = \<lparr>sc_organizationId = ''org'', sc_projectId = ''proj'', sc_environmentId = ''env''\<rparr>"

definition w_mint :: mint_input where
  "w_mint = \<lparr>mt_scope = w_tenant, mt_userId = ''u'', mt_name = ''ci'', mt_permissions = [''agents.*''],
     mt_ttlSeconds = Some (Fin 60), mt_tier = None\<rparr>"

definition w_minted :: credential_db where
  "w_minted = snd (mint double_tokens w_mint ''t1'' ''secret'' 0 w_tables)"

definition w_revoked :: credential_db where
  "w_revoked = snd (revoke double_tokens ''t1'' w_tenant ''u'' 10 w_minted)"

definition w_generate :: generate_input where
  "w_generate = \<lparr>gi_entityPk = ''ent'', gi_environmentId = ''env'', gi_label = ''ci'', gi_createdBy = ''u'',
     gi_scopes = None, gi_expiresAt = Some 100, gi_mcpUserId = None\<rparr>"

definition w_generated :: credential_db where
  "w_generated = snd (generate double_bearers w_generate ''b1'' ''secret'' 0 w_tables)"

lemmas double_token_defs = double_tokens_def focus_def double_defs tree_double_def w_tenant_def

section \<open>Properties\<close>

text \<open>
  C34: Once a platform token is revoked it is never admitted again. After a successful revocation
  and any interleaving of mints, verification stamps (also of requests that had read the row
  before it was revoked) and further revocations, no verification admits that token: not by its
  bearer, not by its id, and not a request in flight that is about to stamp the row it has read.
\<close>

theorem revoked_token_refused:
  assumes "prisma_table (ts_tokens sv) rows tk_id" "inj_on tk_id (set_mset (rows s))"
    and "revoke sv i scope userId now s = (Inr True, s1)" "(token_step sv)\<^sup>*\<^sup>* s1 s2"
    and "verify sv raw n1 n2 s2 = (Inr (Some t), s3) \<or> verifyById sv j n1 n2 s2 = (Inr (Some t), s3) \<or>
      verify_write sv read ancestry n2 s2 = (Inr (Some t), s3)"
  shows "vt_id t \<noteq> i"
proof -
  have st: "token_store sv rows" using assms(1) by (rule token_store.intro)
  have "sealed_key tk_id tk_revokedAt (rows s2) i"
    by (rule sealed_ledger.sealed_run [OF token_store.axioms_ledger [OF st] assms(4)],
        rule token_store.revoke_seals [OF st assms(2,3)])
  moreover obtain row anc where "verify_write sv row anc n2 s2 = (Inr (Some t), s3)"
    using assms(5) verify_through [of sv raw n1 n2 s2 t s3] verifyById_through [of sv j n1 n2 s2 t s3] by blast
  ultimately show ?thesis by (rule token_store.sealed_refused [OF st])
qed

theorem revoked_token_refused_witness:
  "\<nexists>t s3. (verify double_tokens ''plt_mcp_secret'' 20 21 w_revoked = (Inr (Some t), s3) \<or>
     verifyById double_tokens ''t1'' 20 21 w_revoked = (Inr (Some t), s3) \<or>
     verify_write double_tokens (hd (cd_tokens w_minted)) (''proj'', ''org'') 21 w_revoked = (Inr (Some t), s3)) \<and> vt_id t = ''t1''"
proof -
  have rv: "revoke double_tokens ''t1'' w_tenant ''u'' 10 w_minted = (Inr True, w_revoked)"
    by (simp add: w_revoked_def prod_eq_iff) (code_simp)
  have "inj_on tk_id (set_mset (mset (cd_tokens w_minted)))" by code_simp
  from revoked_token_refused [OF double_tokens_table this rv rtranclp.rtrancl_refl] show ?thesis by blast
qed

text \<open>
  C37: Every admitted use of an entity token is backed by a live row and is on the record. If
  a bearer is accepted, a row with its digest is stored, unrevoked and unexpired both when it is
  looked up and when its use is stamped, its entity and environment still share a project, the
  caller is the one the row names, and exactly one audit record of that use, in that row's
  environment, is added.
\<close>

theorem bearer_use_audited:
  assumes "bearer_store sv rows audits" "validate sv raw now now' s = (Inr (Some t), s')"
  shows "\<exists>row scope. row \<in># rows s \<and> bt_tokenHash row = bs_sha256 sv raw \<and> usable (bt_revokedAt row) (bt_expiresAt row) now \<and>
    (\<exists>r. r \<in># rows s \<and> bt_id r = bt_id row \<and> usable (bt_revokedAt r) (bt_expiresAt r) now') \<and>
    bearerScope sv (bt_entityId row) (bt_environmentId row) s = Inr (Some scope) \<and> sc_environmentId scope = bt_environmentId row \<and>
    t = identity_of row \<and> audits s' = add_mset (auditData scope (bt_id row) ''use'' None) (audits s)"
proof -
  obtain row scope where r: "row \<in># rows s" "bt_tokenHash row = bs_sha256 sv raw" "usable (bt_revokedAt row) (bt_expiresAt row) now"
    "bearerScope sv (bt_entityId row) (bt_environmentId row) s = Inr (Some scope)" "record_use sv row scope now' s = (Inr (Some t), s')"
    using bearer_store.validate_through [OF assms] by blast
  have "sc_environmentId scope = bt_environmentId row"
    using r(4) by (auto simp: bearerScope_def map_res_Inr dest: sym)
  then show ?thesis using r bearer_store.use_admitted [OF assms(1) r(5)] by blast
qed

theorem bearer_use_audited_witness:
  "\<exists>row scope. row \<in># mset (cd_bearers w_generated) \<and>
     fst (validate double_bearers ''plt_ent_secret'' 20 21 w_generated) = Inr (Some (identity_of row)) \<and>
     mset (cd_audits (snd (validate double_bearers ''plt_ent_secret'' 20 21 w_generated))) =
       add_mset (auditData scope (bt_id row) ''use'' None) (mset (cd_audits w_generated))"
proof -
  have "fst (validate double_bearers ''plt_ent_secret'' 20 21 w_generated) = Inr (Some (identity_of (hd (cd_bearers w_generated))))"
    by code_simp
  then obtain t s' where v: "validate double_bearers ''plt_ent_secret'' 20 21 w_generated = (Inr (Some t), s')"
    by (metis prod.collapse)
  from bearer_use_audited [OF brr.bearer_store_axioms v] show ?thesis unfolding v fst_conv snd_conv by blast
qed

text \<open>
  C36: A freshly minted platform token verifies. When the digest of the new bearer is not yet in
  the table, the environment is still there and the table answers, presenting the bearer before
  its expiry is accepted, and yields the id and permissions the mint returned, the scope it was
  minted for, its minter and its tier.
\<close>

theorem minted_token_verifies:
  assumes "prisma_table (ts_tokens sv) rows tk_id" "mint sv inp i rand now s = (Inr m, s')"
    and "\<And>r. r \<in># rows s \<Longrightarrow> tk_tokenHash r \<noteq> ts_sha256 sv (mn_token m)"
    and "ts_environment sv (sc_environmentId (mt_scope inp)) s' = ts_environment sv (sc_environmentId (mt_scope inp)) s"
    and acc: "\<And>p t. \<exists>r. findFirst (ts_tokens sv) p t = Inr r" "\<And>p f t. \<exists>res. updateMany (ts_tokens sv) p f t = Inr res"
    and "n1 < the (mn_expiresAt m)" "n2 < the (mn_expiresAt m)"
  shows "fst (verify sv (mn_token m) n1 n2 s') = Inr (Some \<lparr>vt_id = mn_id m, vt_scope = mt_scope inp,
    vt_permissions = mn_permissions m, vt_mintedByUserId = mt_userId inp, vt_expiresAt = mn_expiresAt m,
    vt_tier = mn_tier m, vt_credential = Some (Platform (mn_id m))\<rparr>)"
proof -
  obtain ttl row where row: "row = minted_row sv inp (mt_scope inp) ttl i (TOKEN_PREFIX @ rand) now"
    and env: "ts_environment sv (sc_environmentId (mt_scope inp)) s = Inr (Some (sc_projectId (mt_scope inp), sc_organizationId (mt_scope inp)))"
    and new: "create (ts_tokens sv) row s = Inr s'" and m: "m = minted_of row (TOKEN_PREFIX @ rand)"
    using assms(2) by (rule mint_stored)
  let ?w = "\<lambda>r. tk_tokenHash r = ts_sha256 sv (TOKEN_PREFIX @ rand)"
  have rows: "rows s' = add_mset row (rows s)" using prisma_table.created [OF assms(1) new] by blast
  obtain found where f: "findFirst (ts_tokens sv) ?w s' = Inr found" using acc(1) by blast
  have "found = Some row"
  proof (cases found)
    case None
    then have "\<not> ?w row" using prisma_table.first_none [OF assms(1) f [unfolded None]] by (simp add: rows)
    then show ?thesis by (simp add: row minted_row_def)
  next
    case (Some r)
    then show ?thesis using prisma_table.first_some [OF assms(1) f [unfolded Some]] assms(3)
      by (auto simp: rows m minted_of_def)
  qed
  then have read: "verify_read sv ?w s' = Inr (Some (row, sc_projectId (mt_scope inp), sc_organizationId (mt_scope inp)))"
    using f env assms(4) by (simp add: verify_read_def row minted_row_def)
  have live: "usable (tk_revokedAt row) (tk_expiresAt row) n2" "\<not> refused row (Some (ts_sha256 sv (TOKEN_PREFIX @ rand))) n1"
    using assms(7,8) by (simp_all add: m minted_of_def row minted_row_def usable_def refused_def)
  have "fst (verify sv (mn_token m) n1 n2 s') = Inr (Some (verified_of row (sc_projectId (mt_scope inp), sc_organizationId (mt_scope inp))))"
    using token_store.fresh_admitted [OF token_store.intro [OF assms(1)] new live(1) acc(2)] read live(2)
    by (simp add: verify_def verifyPersisted_def m minted_of_def)
  then show ?thesis by (simp add: verified_of_def m minted_of_def row minted_row_def)
qed

theorem minted_token_verifies_witness:
  "fst (mint double_tokens w_mint ''t1'' ''secret'' 0 w_tables) = Inr (minted_of (hd (cd_tokens w_minted)) ''plt_mcp_secret'') \<and>
   fst (verify double_tokens ''plt_mcp_secret'' 20 21 w_minted) = Inr (Some \<lparr>vt_id = ''t1'', vt_scope = w_tenant,
     vt_permissions = [''agents.*''], vt_mintedByUserId = ''u'', vt_expiresAt = Some 60000, vt_tier = ScopeTier, vt_credential = Some (Platform ''t1'')\<rparr>)"
proof -
  let ?m = "minted_of (hd (cd_tokens w_minted)) ''plt_mcp_secret''"
  have f: "fst (mint double_tokens w_mint ''t1'' ''secret'' 0 w_tables) = Inr ?m" by code_simp
  then have mt: "mint double_tokens w_mint ''t1'' ''secret'' 0 w_tables = (Inr ?m, w_minted)" by (simp add: w_minted_def prod_eq_iff)
  have vals: "mn_token ?m = ''plt_mcp_secret''" "mn_id ?m = ''t1''" "mn_permissions ?m = [''agents.*'']" "mn_expiresAt ?m = Some 60000"
    "mn_tier ?m = ScopeTier" by code_simp+
  have "fst (verify double_tokens (mn_token ?m) 20 21 w_minted) = Inr (Some \<lparr>vt_id = mn_id ?m, vt_scope = mt_scope w_mint,
      vt_permissions = mn_permissions ?m, vt_mintedByUserId = mt_userId w_mint, vt_expiresAt = mn_expiresAt ?m,
      vt_tier = mn_tier ?m, vt_credential = Some (Platform (mn_id ?m))\<rparr>)"
    by (rule minted_token_verifies [OF double_tokens_table mt])
      (simp_all only: vals option.sel, simp_all add: w_tables_def double_token_defs)
  then show ?thesis using f unfolding vals by (simp add: w_mint_def)
qed

end
