(* ===== verification/ErasureController.thy ===== *)
theory ErasureController
  imports ErasureService McpTokens
begin

text \<open>
  \<open>apps/agent/src/privacy/erasure.controller.ts\<close>: the hard-erasure API. A request is
  authenticated by an admin-tier platform token (theory \<open>McpTokens\<close>), confined to that token's
  organization and handed to the erasure service (theory \<open>ErasureService\<close>). Both services work
  on one database. A reply is its status and its body.
\<close>

section \<open>The routes\<close>

record 's erasure_api =
  ea_service :: "'s erasure_service"
  ea_tokens :: "'s token_service"

datatype erasure_reply =
    ErrorReply nat string
  | ReceiptReply nat erasure_receipt
  | InventoryReply nat nat "subject_scope list" "(string \<times> jsval) list" string
  | ResumedReply nat "(string \<times> erasure_status \<times> nat) list"

text \<open>The times of the request: the two clock readings of a verification and the service's own.\<close>

record request_clock =
  ck_checked :: int
  ck_stamped :: int
  ck_now :: int

definition authorized :: "'s erasure_api \<Rightarrow> string option \<Rightarrow> request_clock \<Rightarrow> ('s, verified_token option) act" where
  "authorized api authorization ck s =
     (case authorization of
        None \<Rightarrow> (Inr None, s)
      | Some header \<Rightarrow>
          if \<not> starts_with ''Bearer '' header then (Inr None, s)
          else (case McpTokens.verify (ea_tokens api) (trim (drop (length ''Bearer '') header)) (ck_checked ck) (ck_stamped ck) s of
             (Inl e, s') \<Rightarrow> (Inl (DbError e), s')
           | (Inr verified, s') \<Rightarrow> (Inr (case verified of None \<Rightarrow> None
               | Some t \<Rightarrow> if vt_tier t = AdminTier then Some t else None), s')))"

definition actor :: "verified_token \<Rightarrow> audit_actor" where
  "actor t = \<lparr>ac_credentialId = vt_id t, ac_userId = Some (vt_mintedByUserId t),
     ac_environmentId = sc_environmentId (vt_scope t), ac_projectId = sc_projectId (vt_scope t)\<rparr>"

definition deny :: erasure_reply where
  "deny = ErrorReply 401 ''UNAUTHORIZED''"

definition inventory_route ::
    "'s erasure_api \<Rightarrow> string option \<Rightarrow> string \<Rightarrow> string \<Rightarrow> request_clock \<Rightarrow> ('s, erasure_reply) act" where
  "inventory_route api authorization externalUserId org ck =
     (if org = [] then ret (ErrorReply 400 ''organizationId query param is required'')
      else bnd (authorized api authorization ck) (\<lambda>credential. case credential of
          None \<Rightarrow> ret deny
        | Some t \<Rightarrow>
            if sc_organizationId (vt_scope t) \<noteq> org then ret deny
            else bnd (discoverSubject (ea_service api) externalUserId org) (\<lambda>subject.
              bnd (inventory (sv_pg (ea_service api)) subject org) (\<lambda>invt.
              bnd (auditInventoryRead (ea_service api) externalUserId org subject invt (Some (actor t))) (\<lambda>_.
              ret (InventoryReply (length (platosEndUserIds subject)) (length (legacyUserIds subject)) (scopes subject)
                 invt ERASURE_POLICY_VERSION))))))"

record create_body =
  cb_externalUserId :: string
  cb_organizationId :: string
  cb_idempotencyKey :: string
  cb_legalHoldPolicyId :: "string option"

definition create_route ::
    "'s erasure_api \<Rightarrow> string option \<Rightarrow> create_body \<Rightarrow> string \<Rightarrow> string \<Rightarrow> request_clock \<Rightarrow> ('s, erasure_reply) act" where
  "create_route api authorization body operationId token ck =
     (if cb_externalUserId body = [] \<or> cb_organizationId body = [] \<or> cb_idempotencyKey body = []
      then ret (ErrorReply 400 ''externalUserId, organizationId and idempotencyKey are required'')
      else bnd (authorized api authorization ck) (\<lambda>credential. case credential of
          None \<Rightarrow> ret deny
        | Some t \<Rightarrow>
            if sc_organizationId (vt_scope t) \<noteq> cb_organizationId body then ret deny
            else bnd (attempt (requestErasure (ea_service api) (cb_externalUserId body) (cb_organizationId body) (cb_idempotencyKey body)
                   (cb_legalHoldPolicyId body) (Some (actor t)) operationId token (ck_now ck))) (\<lambda>r. case r of
                Inl e \<Rightarrow> if e = ErasureIdempotencyConflictError then ret (ErrorReply 409 ''IDEMPOTENCY_KEY_CONFLICT'') else throw e
              | Inr receipt \<Rightarrow> ret (ReceiptReply (if 1 < er_retryCount receipt then 200 else 201) receipt))))"

text \<open>The operation has to belong to the organization of the credential.\<close>

definition owned :: "'s erasure_api \<Rightarrow> string option \<Rightarrow> string \<Rightarrow> request_clock \<Rightarrow> (verified_token \<Rightarrow> ('s, erasure_reply) act)
    \<Rightarrow> ('s, erasure_reply) act" where
  "owned api authorization operationId ck k = bnd (authorized api authorization ck) (\<lambda>credential. case credential of
       None \<Rightarrow> ret deny
     | Some t \<Rightarrow> bnd (operationBelongsToOrganization (ea_service api) operationId (sc_organizationId (vt_scope t)))
         (\<lambda>mine. if mine then k t else ret deny))"

definition get_route :: "'s erasure_api \<Rightarrow> string option \<Rightarrow> string \<Rightarrow> request_clock \<Rightarrow> ('s, erasure_reply) act" where
  "get_route api authorization operationId ck = owned api authorization operationId ck (\<lambda>t.
     bnd (getErasure (ea_service api) operationId) (\<lambda>found. ret (case found of
         None \<Rightarrow> ErrorReply 404 ''NOT_FOUND'' | Some receipt \<Rightarrow> ReceiptReply 200 receipt)))"

definition retry_route ::
    "'s erasure_api \<Rightarrow> string option \<Rightarrow> string \<Rightarrow> string option \<Rightarrow> string \<Rightarrow> request_clock \<Rightarrow> ('s, erasure_reply) act" where
  "retry_route api authorization operationId externalUserId token ck = owned api authorization operationId ck (\<lambda>t.
     bnd (if externalUserId \<noteq> None \<and> externalUserId \<noteq> Some []
          then retryErasureById (ea_service api) operationId (the externalUserId) (Some (actor t)) token (ck_now ck)
          else resumeErasure (ea_service api) operationId (Some (actor t)) token (ck_now ck))
       (\<lambda>found. ret (case found of
          None \<Rightarrow> ErrorReply 404 ''NOT_FOUND''
        | Some receipt \<Rightarrow> ReceiptReply (if er_status receipt = BlockedLegalHold then 409 else 200) receipt)))"

definition resume_due_route ::
    "'s erasure_api \<Rightarrow> string option \<Rightarrow> int option \<Rightarrow> (nat \<Rightarrow> string) \<Rightarrow> request_clock \<Rightarrow> ('s, erasure_reply) act" where
  "resume_due_route api authorization limit tokens ck = bnd (authorized api authorization ck) (\<lambda>credential. case credential of
       None \<Rightarrow> ret deny
     | Some t \<Rightarrow> bnd (resumeDueErasures (ea_service api) (sc_organizationId (vt_scope t)) limit (Some (actor t)) tokens (ck_now ck))
         (\<lambda>resumed. ret (ResumedReply (length resumed) resumed)))"

section \<open>Who may destroy\<close>

text \<open>
  \<open>wired api ex\<close> is the API over other store executors. A request touches a store exactly when
  its outcome can depend on the executors.
\<close>

definition wired :: "'s erasure_api \<Rightarrow> (string \<Rightarrow> string \<Rightarrow> erasure_resume_plan option \<Rightarrow> 's executors) \<Rightarrow> 's erasure_api" where
  "wired api ex = api\<lparr>ea_service := with_executors (ea_service api) ex\<rparr>"

text \<open>The request carries the bearer of an admin token of the organization.\<close>

definition admin_of :: "'s erasure_api \<Rightarrow> string option \<Rightarrow> request_clock \<Rightarrow> string \<Rightarrow> 's \<Rightarrow> verified_token \<Rightarrow> 's \<Rightarrow> bool" where
  "admin_of api authorization ck org s t s' \<longleftrightarrow> (\<exists>raw. authorization = Some (''Bearer '' @ raw) \<and>
       verify (ea_tokens api) (trim raw) (ck_checked ck) (ck_stamped ck) s = (Inr (Some t), s')) \<and>
     vt_tier t = AdminTier \<and> sc_organizationId (vt_scope t) = org"

lemma wired_sel [simp]:
  "ea_service (wired api ex) = with_executors (ea_service api) ex" "ea_tokens (wired api ex) = ea_tokens api"
  by (simp_all add: wired_def)

lemma wired_authorized [simp]: "authorized (wired api ex) = authorized api"
  unfolding authorized_def fun_eq_iff wired_sel by simp

lemma wired_belongs [simp]: "operationBelongsToOrganization (with_executors sv ex) = operationBelongsToOrganization sv"
  unfolding operationBelongsToOrganization_def fun_eq_iff with_executors_sel by simp

lemma authorized_admin:
  assumes "authorized api authorization ck s = (Inr (Some t), s')"
  shows "admin_of api authorization ck (sc_organizationId (vt_scope t)) s t s'"
proof -
  obtain header where h: "authorization = Some header" "starts_with ''Bearer '' header"
    using assms by (auto simp: authorized_def split: option.splits if_splits)
  then obtain raw where raw: "header = ''Bearer '' @ raw" by (auto simp only: starts_with_iff)
  show ?thesis
    using assms h unfolding raw
    by (auto simp: authorized_def admin_of_def split: prod.splits sum.splits option.splits if_splits)
qed

lemma bnd_diff_first: "bnd m1 k s \<noteq> bnd m2 k s \<Longrightarrow> m1 s \<noteq> m2 s"
  by (auto simp: bnd_def)

lemma attempt_diff: "attempt m1 s \<noteq> attempt m2 s \<Longrightarrow> m1 s \<noteq> m2 s"
  by (auto simp: attempt_def)

text \<open>Every route that destroys something has first admitted an admin token.\<close>

lemma admitted_diff:
  assumes "bnd (authorized api authorization ck) (case_option (ret deny) k1) s
    \<noteq> bnd (authorized api authorization ck) (case_option (ret deny) k2) s"
  obtains t s1 where "admin_of api authorization ck (sc_organizationId (vt_scope t)) s t s1" "k1 t s1 \<noteq> k2 t s1"
proof -
  obtain x s1 where a: "authorized api authorization ck s = (Inr x, s1)" and d: "case_option (ret deny) k1 x s1 \<noteq> case_option (ret deny) k2 x s1"
    using bnd_diff [OF assms] by blast
  then obtain t where x: "x = Some t" by (cases x) auto
  show thesis by (rule that [of t s1]) (use a d x authorized_admin in auto)
qed

text \<open>A first request: the guards of the service, passed under the name of that token.\<close>

lemma create_diff:
  assumes "create_route (wired api ex1) authorization body operationId token ck s
    \<noteq> create_route (wired api ex2) authorization body operationId token ck s"
  shows "\<exists>t s1 subject s3. admin_of api authorization ck (cb_organizationId body) s t s1 \<and>
    request_cleared (ea_service api) (cb_externalUserId body) (cb_organizationId body) (cb_idempotencyKey body)
      (cb_legalHoldPolicyId body) (Some (actor t)) operationId (ck_now ck) s1 subject s3"
proof -
  let ?req = "\<lambda>ex t. requestErasure (with_executors (ea_service api) ex) (cb_externalUserId body) (cb_organizationId body)
    (cb_idempotencyKey body) (cb_legalHoldPolicyId body) (Some (actor t)) operationId token (ck_now ck)"
  from assms obtain t s1 where t: "admin_of api authorization ck (sc_organizationId (vt_scope t)) s t s1"
    and org: "sc_organizationId (vt_scope t) = cb_organizationId body" and d: "?req ex1 t s1 \<noteq> ?req ex2 t s1"
    unfolding create_route_def wired_sel wired_authorized
    by (auto elim!: admitted_diff split: if_splits dest!: bnd_diff_first attempt_diff)
  show ?thesis using t request_diff [OF d] unfolding org by blast
qed

text \<open>A pass over a recorded operation.\<close>

definition resumed_by :: "'s erasure_service \<Rightarrow> string \<Rightarrow> verified_token \<Rightarrow> 's \<Rightarrow> bool" where
  "resumed_by sv operationId t s \<longleftrightarrow> (\<exists>row args token current s3.
     findFirst (sv_operations sv) (\<lambda>r. op_id r = operationId) s = Inr (Some row) \<and> ra_actor args = Some (actor t) \<and>
     resume_cleared sv row args token s current s3)"

lemma resumed_byI:
  assumes "findFirst (sv_operations sv) (\<lambda>r. op_id r = operationId) s = Inr (Some row)" "ra_actor args = Some (actor t)"
    and "runResumePass (with_executors sv ex1) row args token s \<noteq> runResumePass (with_executors sv ex2) row args token s"
  shows "resumed_by sv operationId t s"
  unfolding resumed_by_def using assms(1,2) resume_diff [OF assms(3)] by blast

lemma resume_by_diff:
  assumes "resumeErasure (with_executors sv ex1) operationId (Some (actor t)) token now s
    \<noteq> resumeErasure (with_executors sv ex2) operationId (Some (actor t)) token now s"
  shows "resumed_by sv operationId t s"
  using assms unfolding resumeErasure_def with_executors_sel with_executors_ops
  by (auto dest!: bnd_diff bnd_diff_first simp: query_first split: option.splits)
    (rule resumed_byI [rotated 2], assumption, assumption, simp)

lemma retry_by_diff:
  assumes "retryErasureById (with_executors sv ex1) operationId ext (Some (actor t)) token now s
    \<noteq> retryErasureById (with_executors sv ex2) operationId ext (Some (actor t)) token now s"
  shows "resumed_by sv operationId t s"
  using assms unfolding retryErasureById_def Let_def with_executors_sel with_executors_ops
  by (auto dest!: bnd_diff bnd_diff_first reads_onlyD [OF reads_only_discover] simp: query_first split: option.splits if_splits)
    (rule resumed_byI [rotated 2], assumption, assumption, simp)+

lemma retry_diff:
  assumes "retry_route (wired api ex1) authorization operationId ext token ck s
    \<noteq> retry_route (wired api ex2) authorization operationId ext token ck s"
  shows "\<exists>t s1. admin_of api authorization ck (sc_organizationId (vt_scope t)) s t s1 \<and>
    operationBelongsToOrganization (ea_service api) operationId (sc_organizationId (vt_scope t)) s1 = (Inr True, s1) \<and>
    resumed_by (ea_service api) operationId t s1"
proof -
  let ?own = "\<lambda>t. operationBelongsToOrganization (ea_service api) operationId (sc_organizationId (vt_scope t))"
  let ?run = "\<lambda>ex t. if ext \<noteq> None \<and> ext \<noteq> Some []
    then retryErasureById (with_executors (ea_service api) ex) operationId (the ext) (Some (actor t)) token (ck_now ck)
    else resumeErasure (with_executors (ea_service api) ex) operationId (Some (actor t)) token (ck_now ck)"
  obtain t s1 s2 where t: "admin_of api authorization ck (sc_organizationId (vt_scope t)) s t s1"
    and o: "?own t s1 = (Inr True, s2)" and d: "?run ex1 t s2 \<noteq> ?run ex2 t s2"
    using assms unfolding retry_route_def owned_def wired_sel wired_authorized wired_belongs
    by (rule admitted_diff) (drule bnd_diff, auto dest!: bnd_diff_first simp del: split_paired_All split: if_splits)
  have ro: "reads_only (?own t)" by (auto simp: operationBelongsToOrganization_def)
  have "s2 = s1" by (rule reads_onlyD [OF ro o])
  then show ?thesis using t o d by (auto dest: retry_by_diff resume_by_diff split: if_splits)
qed

lemma drain_diff:
  assumes "drain (with_executors sv ex1) (Some (actor t)) tokens now k rows s
    \<noteq> drain (with_executors sv ex2) (Some (actor t)) tokens now k rows s"
  shows "\<exists>row \<in> set rows. \<exists>s1. resumed_by sv (op_id row) t s1"
  using assms
proof (induction rows arbitrary: k s)
  case (Cons row rows)
  let ?run = "\<lambda>ex. resumeErasure (with_executors sv ex) (op_id row) (Some (actor t)) (tokens k) now"
  show ?case
  proof (cases "?run ex1 s = ?run ex2 s")
    case True
    then have same: "attempt (?run ex1) s = attempt (?run ex2) s" by (simp add: attempt_def)
    obtain s' where "drain (with_executors sv ex1) (Some (actor t)) tokens now (Suc k) rows s'
        \<noteq> drain (with_executors sv ex2) (Some (actor t)) tokens now (Suc k) rows s'"
      using Cons.prems same
      by (auto simp: bnd_def [of "attempt _"] dest!: bnd_diff_first split: prod.splits sum.splits)
    from Cons.IH [OF this] show ?thesis by auto
  next
    case False
    from resume_by_diff [OF this] show ?thesis by auto
  qed
qed simp

lemma resume_due_diff:
  assumes "resume_due_route (wired api ex1) authorization limit tokens ck s
    \<noteq> resume_due_route (wired api ex2) authorization limit tokens ck s"
  shows "\<exists>t s1 rows row s2. admin_of api authorization ck (sc_organizationId (vt_scope t)) s t s1 \<and>
    findMany (sv_operations (ea_service api)) (due (sc_organizationId (vt_scope t)) (ck_now ck)) s1 = Inr rows \<and>
    row \<in> set rows \<and> resumed_by (ea_service api) (op_id row) t s2"
proof -
  let ?drain = "\<lambda>ex t rows. drain (with_executors (ea_service api) ex) (Some (actor t)) tokens (ck_now ck) 0
    (take (drain_limit limit) (sort_key (\<lambda>r. the (op_nextRetryAt r)) rows))"
  obtain t s1 rows s2 where t: "admin_of api authorization ck (sc_organizationId (vt_scope t)) s t s1"
    and rows: "query (findMany (sv_operations (ea_service api)) (due (sc_organizationId (vt_scope t)) (ck_now ck))) s1 = (Inr rows, s2)"
    and d: "?drain ex1 t rows s2 \<noteq> ?drain ex2 t rows s2"
    using assms unfolding resume_due_route_def resumeDueErasures_def wired_sel wired_authorized with_executors_sel
    by (rule admitted_diff) (drule bnd_diff_first, drule bnd_diff, blast)
  obtain row s3 where "row \<in> set rows" "resumed_by (ea_service api) (op_id row) t s3"
    using drain_diff [OF d] by (auto dest: in_set_takeD)
  moreover have "findMany (sv_operations (ea_service api)) (due (sc_organizationId (vt_scope t)) (ck_now ck)) s1 = Inr rows"
    using rows by (auto simp: query_def split: sum.splits)
  ultimately show ?thesis using t by blast
qed

text \<open>The requests that may destroy something.\<close>

datatype erasure_request =
    Create create_body string string
  | Retry string "string option" string
  | ResumeDue "int option" "nat \<Rightarrow> string"

fun erase_serve :: "'s erasure_api \<Rightarrow> string option \<Rightarrow> erasure_request \<Rightarrow> request_clock \<Rightarrow> ('s, erasure_reply) act" where
  "erase_serve api auth (Create body operationId token) ck = create_route api auth body operationId token ck"
| "erase_serve api auth (Retry operationId ext token) ck = retry_route api auth operationId ext token ck"
| "erase_serve api auth (ResumeDue limit tokens) ck = resume_due_route api auth limit tokens ck"

text \<open>What has been established under the name of the token before a store is touched.\<close>

fun cleared_for :: "'s erasure_service \<Rightarrow> verified_token \<Rightarrow> erasure_request \<Rightarrow> int \<Rightarrow> 's \<Rightarrow> bool" where
  "cleared_for sv t (Create body operationId token) now s \<longleftrightarrow> cb_organizationId body = sc_organizationId (vt_scope t) \<and>
     (\<exists>subject s3. request_cleared sv (cb_externalUserId body) (cb_organizationId body) (cb_idempotencyKey body)
        (cb_legalHoldPolicyId body) (Some (actor t)) operationId now s subject s3)"
| "cleared_for sv t (Retry operationId ext token) now s \<longleftrightarrow>
     operationBelongsToOrganization sv operationId (sc_organizationId (vt_scope t)) s = (Inr True, s) \<and> resumed_by sv operationId t s"
| "cleared_for sv t (ResumeDue limit tokens) now s \<longleftrightarrow> (\<exists>rows row s2.
     findMany (sv_operations sv) (due (sc_organizationId (vt_scope t)) now) s = Inr rows \<and> row \<in> set rows \<and>
     resumed_by sv (op_id row) t s2)"

lemma erase_diff:
  assumes "erase_serve (wired api ex1) auth rq ck s \<noteq> erase_serve (wired api ex2) auth rq ck s"
  shows "\<exists>t s1. admin_of api auth ck (sc_organizationId (vt_scope t)) s t s1 \<and> cleared_for (ea_service api) t rq (ck_now ck) s1"
proof (cases rq)
  case (Create body operationId token)
  obtain t s1 where t: "admin_of api auth ck (cb_organizationId body) s t s1"
    and r: "\<exists>subject s3. request_cleared (ea_service api) (cb_externalUserId body) (cb_organizationId body)
      (cb_idempotencyKey body) (cb_legalHoldPolicyId body) (Some (actor t)) operationId (ck_now ck) s1 subject s3"
    using create_diff [OF assms [unfolded Create erase_serve.simps]] by blast
  have "sc_organizationId (vt_scope t) = cb_organizationId body" using t by (simp add: admin_of_def)
  then show ?thesis unfolding Create cleared_for.simps using t r by metis
next
  case (Retry operationId ext token)
  from retry_diff [OF assms [unfolded this erase_serve.simps]] show ?thesis unfolding Retry cleared_for.simps by blast
next
  case (ResumeDue limit tokens)
  from resume_due_diff [OF assms [unfolded this erase_serve.simps]] show ?thesis unfolding ResumeDue cleared_for.simps by blast
qed

text \<open>Without an admitted admin token every route answers without touching anything.\<close>

lemma unauthorized_inert:
  assumes "authorized api authorization ck s = (Inr None, s')"
  shows "retry_route api authorization operationId ext token ck s = (Inr deny, s')"
    "get_route api authorization operationId ck s = (Inr deny, s')"
    "resume_due_route api authorization limit tokens ck s = (Inr deny, s')"
  using assms by (simp_all add: retry_route_def get_route_def resume_due_route_def owned_def bnd_def ret_def)

text \<open>
  A repeated request that finds an operation which ran once creates nothing, and is answered as
  a creation all the same.
\<close>

lemma repeat_answers_created:
  assumes "authorized api authorization ck s = (Inr (Some t), s1)" "sc_organizationId (vt_scope t) = cb_organizationId body"
    and "cb_externalUserId body \<noteq> []" "cb_organizationId body \<noteq> []" "cb_idempotencyKey body \<noteq> []"
    and "findFirst (sv_operations (ea_service api)) (\<lambda>r. op_organizationId r = cb_organizationId body \<and>
      op_idempotencyKey r = cb_idempotencyKey body) s1 = Inr (Some row)"
    and "hashMatches (op_subjectKeyHash row) (sv_hash (ea_service api) (cb_externalUserId body) (cb_organizationId body))"
    and "er_retryCount (toReceipt (ea_service api) row) = 1"
  shows "create_route api authorization body operationId token ck s = (Inr (ReceiptReply 201 (toReceipt (ea_service api) row)), s1)"
  using assms by (simp add: create_route_def requestErasure_def bnd_def attempt_def query_def ret_def Let_def)

end
