(* ===== verification/ClickhouseStore.thy ===== *)
theory ClickhouseStore
  imports ErasureOrchestrator
begin

text \<open>
  ClickHouse erasure: \<open>apps/agent/src/privacy/clickhouse-erasure.ts\<close> with the text helpers and
  the endpoint choice of \<open>privacy/clickhouse.ts\<close>. A mutation is submitted, \<open>system.mutations\<close>
  is polled until it is done, and the subject's rows are counted again with the predicate of
  the mutation. Statements are the strings the code builds; the transport is a parameter
  that takes a statement, its parameters and settings and either answers with a body or
  throws an error class. Sets of the source are duplicate-free lists. The polling loop has no
  bound of its own and is given fuel; \<open>clock k\<close> is the \<open>k\<close>-th reading of \<open>now()\<close>.
\<close>

section \<open>Text helpers\<close>

definition quote :: string where
  "quote = [CHR 0x27]"

fun escape_literal :: "string \<Rightarrow> string" where
  "escape_literal [] = []"
| "escape_literal (c # cs) = (if c = CHR 0x5C then [CHR 0x5C, CHR 0x5C] else if c = CHR 0x27 then [CHR 0x5C, CHR 0x27]
     else [c]) @ escape_literal cs"

definition clickhouseArrayParam :: "string list \<Rightarrow> string" where
  "clickhouseArrayParam values = ''['' @ join '','' (map (\<lambda>v. quote @ escape_literal v @ quote) values) @ '']''"

definition parseTabSeparated :: "string \<Rightarrow> string list list" where
  "parseTabSeparated text = map (split_on (CHR 0x09)) (filter (\<lambda>l. length l > 0) (split_on (CHR 0x0A) text))"

definition ERASURE_URL_VARIABLES :: "string list" where
  "ERASURE_URL_VARIABLES = [''PLATOS_OBSERVABILITY_CLICKHOUSE_URL'', ''PLATOS_OTEL_CLICKHOUSE_URL'', ''CLICKHOUSE_URL'']"

fun first_url :: "string list \<Rightarrow> (string \<Rightarrow> string option) \<Rightarrow> (string \<times> string) option" where
  "first_url [] env = None"
| "first_url (name # names) env = (case map_option trim (env name) of
     None \<Rightarrow> first_url names env
   | Some raw \<Rightarrow> if raw \<noteq> [] then Some (raw, name) else first_url names env)"

definition readErasureClickhouseUrl :: "(string \<Rightarrow> string option) \<Rightarrow> (string \<times> string) option" where
  "readErasureClickhouseUrl env = first_url ERASURE_URL_VARIABLES env"

text \<open>\<open>Number(reply.trim())\<close> and its finiteness test, on the replies of a \<open>count()\<close> query: an
  empty reply converts to zero, decimal digits to their value, anything else is no count.\<close>

definition is_digit :: "char \<Rightarrow> bool" where
  "is_digit c = (let n = of_char c :: nat in 48 \<le> n \<and> n \<le> 57)"

definition digits_value :: "string \<Rightarrow> nat" where
  "digits_value s = foldl (\<lambda>acc c. 10 * acc + (of_char c - 48)) 0 s"

definition count_of :: "string \<Rightarrow> nat option" where
  "count_of reply = (let s = trim reply in if list_all is_digit s then Some (digits_value s) else None)"

section \<open>The plan\<close>

datatype cleared_to = ToEmpty | ToNull

record cleared_column =
  cc_name :: string
  cc_to :: cleared_to

datatype erasure_action = DeleteRows | ClearColumns "cleared_column list"

record erasure_table =
  et_database :: string
  et_table :: string
  et_subjectIdColumns :: "string list"
  et_threadColumn :: "string option"
  et_subjectHashColumn :: "string option"
  et_action :: erasure_action

definition OBSERVABILITY_DATABASE :: string where
  "OBSERVABILITY_DATABASE = ''platos_observability''"

definition observability_table :: "string \<Rightarrow> cleared_column list \<Rightarrow> erasure_table" where
  "observability_table name cols = \<lparr>et_database = OBSERVABILITY_DATABASE, et_table = name,
     et_subjectIdColumns = [''end_user_id''], et_threadColumn = Some ''thread_id'',
     et_subjectHashColumn = Some ''subject_key_hash'', et_action = ClearColumns cols\<rparr>"

definition CLICKHOUSE_ERASURE_PLAN :: "string \<Rightarrow> erasure_table list" where
  "CLICKHOUSE_ERASURE_PLAN spanDatabase =
     [observability_table ''turns_v1'' [\<lparr>cc_name = ''end_user_id'', cc_to = ToEmpty\<rparr>,
        \<lparr>cc_name = ''user_display_name'', cc_to = ToNull\<rparr>, \<lparr>cc_name = ''user_email'', cc_to = ToNull\<rparr>],
      observability_table ''steps_v1'' [\<lparr>cc_name = ''end_user_id'', cc_to = ToEmpty\<rparr>],
      observability_table ''tool_calls_v1'' [\<lparr>cc_name = ''end_user_id'', cc_to = ToEmpty\<rparr>],
      observability_table ''usage_events_v1'' [\<lparr>cc_name = ''end_user_id'', cc_to = ToEmpty\<rparr>],
      \<lparr>et_database = spanDatabase, et_table = ''platos_spans_v1'', et_subjectIdColumns = [''user_id''],
        et_threadColumn = Some ''thread_id'', et_subjectHashColumn = None, et_action = DeleteRows\<rparr>]"

record subject_address =
  ad_ids :: "string list"
  ad_threadIds :: "string list"
  ad_hashes :: "string list"

definition notProvisioned :: "string \<Rightarrow> store_outcome" where
  "notProvisioned note1 = (pendingStore Clickhouse)\<lparr>so_status := SNotProvisioned, so_discovered := 0,
     so_deleted := 0, so_anonymized := 0, so_retained := 0, so_failures := 0,
     so_verification := VNotApplicable, so_note := Some note1\<rparr>"

definition unique :: "string list \<Rightarrow> string list" where
  "unique values = nub (filter (\<lambda>v. length v > 0) values)"

definition subjectAddress :: "subject_keys \<Rightarrow> string list \<Rightarrow> string option \<Rightarrow> subject_address" where
  "subjectAddress subject threadIds subjectHash = \<lparr>
     ad_ids = unique (platosEndUserIds subject @ legacyUserIds subject),
     ad_threadIds = unique threadIds,
     ad_hashes = unique (case subjectHash of None \<Rightarrow> [] | Some h \<Rightarrow> if h = [] then [] else [h])\<rparr>"

definition present :: "string list \<Rightarrow> string option \<Rightarrow> string option" where
  "present columns c = (case c of None \<Rightarrow> None
     | Some x \<Rightarrow> if x \<noteq> [] \<and> x \<in> set columns then Some x else None)"

definition effective_action :: "string list \<Rightarrow> erasure_action \<Rightarrow> erasure_action" where
  "effective_action columns a = (case a of DeleteRows \<Rightarrow> DeleteRows
     | ClearColumns cs \<Rightarrow> ClearColumns (filter (\<lambda>c. cc_name c \<in> set columns) cs))"

definition effectiveTable :: "erasure_table \<Rightarrow> string list \<Rightarrow> subject_address \<Rightarrow> erasure_table \<times> bool" where
  "effectiveTable spec columns address =
     (let subjectIdColumns = filter (\<lambda>c. c \<in> set columns) (et_subjectIdColumns spec);
          threadColumn = present columns (et_threadColumn spec);
          subjectHashColumn = present columns (et_subjectHashColumn spec);
          action = effective_action columns (et_action spec);
          locators = (if ad_ids address \<noteq> [] then length subjectIdColumns else 0)
            + (if ad_threadIds address \<noteq> [] \<and> threadColumn \<noteq> None then 1 else 0)
            + (if ad_hashes address \<noteq> [] \<and> subjectHashColumn \<noteq> None then 1 else 0)
      in (spec\<lparr>et_subjectIdColumns := subjectIdColumns, et_threadColumn := threadColumn,
            et_subjectHashColumn := subjectHashColumn, et_action := action\<rparr>,
          ''organization_id'' \<in> set columns \<and> locators > 0 \<and>
            (case action of DeleteRows \<Rightarrow> True | ClearColumns cs \<Rightarrow> length cs > 0)))"

section \<open>Statements\<close>

definition where_locators :: "erasure_table \<Rightarrow> subject_address \<Rightarrow> string list" where
  "where_locators spec address =
     (if ad_ids address \<noteq> [] then map (\<lambda>c. c @ '' IN {ids:Array(String)}'') (et_subjectIdColumns spec) else [])
     @ (case et_threadColumn spec of Some c \<Rightarrow>
          if ad_threadIds address \<noteq> [] then [c @ '' IN {threads:Array(String)}''] else [] | None \<Rightarrow> [])
     @ (case et_subjectHashColumn spec of Some c \<Rightarrow>
          if ad_hashes address \<noteq> [] then [c @ '' IN {hashes:Array(String)}''] else [] | None \<Rightarrow> [])"

definition ch_subjectWhere :: "erasure_table \<Rightarrow> subject_address \<Rightarrow> string" where
  "ch_subjectWhere spec address = join '' AND ''
     ([''organization_id = {organization:String}'', ''('' @ join '' OR '' (where_locators spec address) @ '')'']
      @ (case et_action spec of DeleteRows \<Rightarrow> []
         | ClearColumns cs \<Rightarrow> [''('' @ join '' OR '' (map (\<lambda>c. ''coalesce('' @ cc_name c @ '', '' @ quote @ quote
              @ '') != '' @ quote @ quote) cs) @ '')'']))"

definition cleared_value :: "cleared_to \<Rightarrow> string" where
  "cleared_value t = (case t of ToEmpty \<Rightarrow> quote @ quote | ToNull \<Rightarrow> ''NULL'')"

definition tableKey :: "erasure_table \<Rightarrow> string" where
  "tableKey spec = et_database spec @ ''.'' @ et_table spec"

definition mutationSql :: "erasure_table \<Rightarrow> string \<Rightarrow> string" where
  "mutationSql spec w = (case et_action spec of
     DeleteRows \<Rightarrow> ''ALTER TABLE '' @ tableKey spec @ '' DELETE WHERE '' @ w
   | ClearColumns cs \<Rightarrow> ''ALTER TABLE '' @ tableKey spec @ '' UPDATE ''
       @ join '', '' (map (\<lambda>c. cc_name c @ '' = '' @ cleared_value (cc_to c)) cs) @ '' WHERE '' @ w)"

definition countSql :: "erasure_table \<Rightarrow> string \<Rightarrow> string" where
  "countSql spec w = ''SELECT count() FROM '' @ tableKey spec @ '' WHERE '' @ w @ '' FORMAT TabSeparated''"

definition SYSTEM_COLUMNS_SQL :: string where
  "SYSTEM_COLUMNS_SQL = ''SELECT database, table, name FROM system.columns'' @
     '' WHERE database IN {databases:Array(String)} AND table IN {tables:Array(String)}'' @ '' FORMAT TabSeparated''"

definition SYSTEM_MUTATIONS_SQL :: string where
  "SYSTEM_MUTATIONS_SQL = ''SELECT database, table, mutation_id, is_done, if(latest_fail_reason = '' @ quote @ quote
     @ '', 0, 1)'' @ '' FROM system.mutations'' @
     '' WHERE database IN {databases:Array(String)} AND table IN {tables:Array(String)}'' @ '' FORMAT TabSeparated''"

section \<open>Catalog replies\<close>

type_synonym bindings = "(string \<times> string) list"

record 'w transport =
  ch_available :: bool
  ch_query :: "string \<Rightarrow> bindings \<Rightarrow> bindings \<Rightarrow> 'w \<Rightarrow> (string + string) \<times> 'w"

record mutation_row =
  mr_key :: string
  mr_mutationId :: string
  mr_done :: bool
  mr_failed :: bool

text \<open>A missing cell interpolates as \<open>undefined\<close>.\<close>

definition cell :: "string list \<Rightarrow> nat \<Rightarrow> string option" where
  "cell cells i = (if i < length cells then Some (cells ! i) else None)"

definition row_key :: "string list \<Rightarrow> string" where
  "row_key cells = (let t = \<lambda>i. (case cell cells i of None \<Rightarrow> ''undefined'' | Some c \<Rightarrow> c) in t 0 @ ''.'' @ t 1)"

definition mutation_of :: "string list \<Rightarrow> mutation_row" where
  "mutation_of cells = \<lparr>mr_key = row_key cells, mr_mutationId = or_empty (cell cells 2),
     mr_done = (cell cells 3 = Some ''1''), mr_failed = (cell cells 4 = Some ''1'')\<rparr>"

definition readMutations :: "'w transport \<Rightarrow> bindings \<Rightarrow> 'w \<Rightarrow> (string + mutation_row list) \<times> 'w" where
  "readMutations C params w = (case ch_query C SYSTEM_MUTATIONS_SQL params [] w of
     (Inl e, w') \<Rightarrow> (Inl e, w') | (Inr body, w') \<Rightarrow> (Inr (map mutation_of (parseTabSeparated body)), w'))"

fun columns_by_table :: "string list list \<Rightarrow> (string \<times> string list) list \<Rightarrow> (string \<times> string list) list" where
  "columns_by_table [] m = m"
| "columns_by_table (cells # rest) m =
     (let key = row_key cells; columns = (case map_of m key of None \<Rightarrow> [] | Some cs \<Rightarrow> cs)
      in columns_by_table rest (AList.update key (set_add (or_empty (cell cells 2)) columns) m))"

section \<open>The sweep\<close>

record table_run =
  tr_spec :: erasure_table
  tr_where :: string
  tr_before :: "nat option"
  tr_submitted :: bool
  tr_confirmed :: bool
  tr_survivors :: "nat option"

fun plan_runs :: "(string \<times> string list) list \<Rightarrow> subject_address \<Rightarrow> erasure_table list \<Rightarrow> table_run list \<times> nat" where
  "plan_runs cols address [] = ([], 0)"
| "plan_runs cols address (spec # plan) =
     (let (runs, drifted) = plan_runs cols address plan in
      case map_of cols (tableKey spec) of
        None \<Rightarrow> (runs, drifted)
      | Some columns \<Rightarrow>
          if columns = [] then (runs, drifted)
          else let (effective, addressable) = effectiveTable spec columns address in
            if \<not> addressable then (runs, Suc drifted)
            else (\<lparr>tr_spec = effective, tr_where = ch_subjectWhere effective address, tr_before = None,
                    tr_submitted = False, tr_confirmed = False, tr_survivors = None\<rparr> # runs, drifted))"

definition count_rows_of :: "'w transport \<Rightarrow> bindings \<Rightarrow> table_run \<Rightarrow> 'w \<Rightarrow> nat option \<times> 'w" where
  "count_rows_of C params run w = (case ch_query C (countSql (tr_spec run) (tr_where run)) params [] w of
     (Inl e, w') \<Rightarrow> (None, w') | (Inr body, w') \<Rightarrow> (count_of body, w'))"

fun precount :: "'w transport \<Rightarrow> bindings \<Rightarrow> table_run list \<Rightarrow> 'w \<Rightarrow> table_run list \<times> 'w" where
  "precount C params [] w = ([], w)"
| "precount C params (run # runs) w = (let (n, w1) = count_rows_of C params run w;
     (runs', w2) = precount C params runs w1 in (run\<lparr>tr_before := n\<rparr> # runs', w2))"

fun submit :: "'w transport \<Rightarrow> bindings \<Rightarrow> table_run list \<Rightarrow> store_outcome \<Rightarrow> 'w
    \<Rightarrow> table_run list \<times> store_outcome \<times> 'w" where
  "submit C params [] out w = ([], out, w)"
| "submit C params (run # runs) out w =
     (case ch_query C (mutationSql (tr_spec run) (tr_where run)) params [(''mutations_sync'', ''0'')] w of
        (Inr _, w1) \<Rightarrow> let (runs', out', w2) = submit C params runs out w1
                      in (run\<lparr>tr_submitted := True\<rparr> # runs', out', w2)
      | (Inl e, w1) \<Rightarrow> let (runs', out', w2) = submit C params runs
             (out\<lparr>so_failures := so_failures out + 1, so_note := Some (''mutation submit failed ('' @ e @ '')'')\<rparr>) w1
                      in (run # runs', out', w2))"

text \<open>The state of the polling loop: the runs, the mutation ids counted as failing, the stuck
  tables and the failure counter.\<close>

record poll_state =
  ps_runs :: "table_run list"
  ps_counted :: "string list"
  ps_stuck :: "string list"
  ps_failures :: int

fun count_failing :: "mutation_row list \<Rightarrow> string list \<Rightarrow> int \<Rightarrow> string list \<times> int" where
  "count_failing [] counted failures = (counted, failures)"
| "count_failing (m # ms) counted failures =
     (if \<not> mr_failed m \<or> mr_mutationId m \<in> set counted then count_failing ms counted failures
      else count_failing ms (set_add (mr_mutationId m) counted) (failures + 1))"

fun poll_runs :: "mutation_row list \<Rightarrow> table_run list \<Rightarrow> string list \<Rightarrow> string list \<Rightarrow> int
    \<Rightarrow> table_run list \<times> string list \<times> string list \<times> int" where
  "poll_runs fresh [] counted stuck failures = ([], counted, stuck, failures)"
| "poll_runs fresh (run # runs) counted stuck failures =
     (if \<not> tr_submitted run
      then let (runs', r) = poll_runs fresh runs counted stuck failures in (run # runs', r)
      else let key = tableKey (tr_spec run); mine = filter (\<lambda>r. mr_key r = key) fresh;
               confirmed = (mine \<noteq> [] \<and> list_all mr_done mine);
               (counted', failures') = count_failing mine counted failures;
               stuck' = (if \<not> confirmed \<and> list_ex mr_failed mine then set_add key stuck else stuck);
               (runs', r) = poll_runs fresh runs counted' stuck' failures'
           in (run\<lparr>tr_confirmed := confirmed\<rparr> # runs', r))"

definition poll_step :: "string list \<Rightarrow> mutation_row list \<Rightarrow> poll_state \<Rightarrow> poll_state" where
  "poll_step known rows st =
     (let fresh = filter (\<lambda>r. mr_key r @ ''#'' @ mr_mutationId r \<notin> set known) rows;
          (runs, counted, stuck, failures) = poll_runs fresh (ps_runs st) (ps_counted st) (ps_stuck st) (ps_failures st)
      in \<lparr>ps_runs = runs, ps_counted = counted, ps_stuck = stuck, ps_failures = failures\<rparr>)"

definition poll_settled :: "poll_state \<Rightarrow> bool" where
  "poll_settled st = list_all (\<lambda>run. \<not> tr_submitted run \<or> tr_confirmed run
     \<or> tableKey (tr_spec run) \<in> set (ps_stuck st)) (ps_runs st)"

text \<open>Returns the state and whether \<open>system.mutations\<close> became unreadable.\<close>

fun poll :: "nat \<Rightarrow> 'w transport \<Rightarrow> bindings \<Rightarrow> string list \<Rightarrow> (nat \<Rightarrow> int) \<Rightarrow> int \<Rightarrow> nat \<Rightarrow> poll_state \<Rightarrow> 'w
    \<Rightarrow> (poll_state \<times> bool \<times> 'w) option" where
  "poll 0 C catalog known clock deadline k st w = None"
| "poll (Suc fuel) C catalog known clock deadline k st w =
     (case readMutations C catalog w of
        (Inl e, w') \<Rightarrow> Some (st, True, w')
      | (Inr rows, w') \<Rightarrow>
          let st' = poll_step known rows st in
          if poll_settled st' then Some (st', False, w')
          else if clock k \<ge> deadline then Some (st', False, w')
          else poll fuel C catalog known clock deadline (Suc k) st' w')"

fun verify :: "'w transport \<Rightarrow> bindings \<Rightarrow> table_run list \<Rightarrow> 'w \<Rightarrow> table_run list \<times> 'w" where
  "verify C params [] w = ([], w)"
| "verify C params (run # runs) w =
     (if tr_confirmed run \<or> (tr_before run = Some 0 \<and> tr_submitted run)
      then let (n, w1) = count_rows_of C params run w; (runs', w2) = verify C params runs w1
           in (run\<lparr>tr_survivors := n\<rparr> # runs', w2)
      else let (runs', w2) = verify C params runs w in (run # runs', w2))"

definition or_zero :: "nat option \<Rightarrow> nat" where
  "or_zero n = (case n of None \<Rightarrow> 0 | Some k \<Rightarrow> k)"

definition covered_rows :: "(erasure_action \<Rightarrow> bool) \<Rightarrow> table_run list \<Rightarrow> nat" where
  "covered_rows p runs = sum_list (map (\<lambda>run. or_zero (tr_before run))
     (filter (\<lambda>run. tr_confirmed run \<and> p (et_action (tr_spec run))) runs))"

definition ch_report :: "table_run list \<Rightarrow> nat \<Rightarrow> string list \<Rightarrow> bool \<Rightarrow> store_outcome \<Rightarrow> store_outcome" where
  "ch_report runs drifted stuck unreadable out =
     (let out = out\<lparr>so_discovered := so_discovered out + int (sum_list (map (\<lambda>r. or_zero (tr_before r)) runs)),
            so_deleted := so_deleted out + int (covered_rows (\<lambda>a. a = DeleteRows) runs),
            so_anonymized := so_anonymized out + int (covered_rows (\<lambda>a. a \<noteq> DeleteRows) runs)\<rparr>;
          confirmedSurvivors = sum_list (map (\<lambda>r. or_zero (tr_survivors r)) runs);
          unverified = filter (\<lambda>r. tr_survivors r = None) runs;
          notes = [show_nat (length runs) @ '' tables, '' @ show_nat (nat (so_deleted out)) @ '' rows deleted, ''
              @ show_nat (nat (so_anonymized out)) @ '' rows unlinked'',
            ''mutations confirmed '' @ show_nat (length (filter tr_confirmed runs)) @ ''/''
              @ show_nat (length (filter tr_submitted runs)),
            show_nat confirmedSurvivors @ '' survivors, '' @ show_nat (length unverified)
              @ '' unverified (treated as still present)'']
            @ (if drifted \<noteq> 0 then [show_nat drifted @ '' tables present but not addressable (schema drift)''] else [])
            @ (if stuck \<noteq> [] then [show_nat (length stuck) @ '' mutations reported a failure''] else [])
            @ (if unreadable then [''system.mutations unreadable; completion unproven''] else [])
            @ (if so_anonymized out \<noteq> 0 then [''subject_key_hash retained by policy''] else [])
      in out\<lparr>so_verification := (if confirmedSurvivors > 0 then VFailed
             else if unverified \<noteq> [] then VUnknown else VPassed),
           so_status := (if so_failures out > 0 then SFailed else SDone),
           so_note := Some (join ''; '' (filter (\<lambda>n. n \<noteq> []) (or_empty (so_note out) # notes)))\<rparr>)"

definition ch_failed :: "nat \<Rightarrow> string \<Rightarrow> store_outcome" where
  "ch_failed n note1 = (pendingStore Clickhouse)\<lparr>so_status := SFailed, so_failures := int n,
     so_verification := VUnknown, so_note := Some note1\<rparr>"

definition ch_params :: "string \<Rightarrow> subject_address \<Rightarrow> bindings" where
  "ch_params org address = [(''organization'', org), (''ids'', clickhouseArrayParam (ad_ids address)),
     (''threads'', clickhouseArrayParam (ad_threadIds address)), (''hashes'', clickhouseArrayParam (ad_hashes address))]"

definition catalog_params :: "erasure_table list \<Rightarrow> bindings" where
  "catalog_params plan = [(''databases'', clickhouseArrayParam (unique (map et_database plan))),
     (''tables'', clickhouseArrayParam (unique (map et_table plan)))]"

text \<open>From the planned runs to the outcome: pre-count, snapshot, submit, poll, verify, report.\<close>

definition sweep_runs :: "nat \<Rightarrow> 'w transport \<Rightarrow> bindings \<Rightarrow> bindings \<Rightarrow> (nat \<Rightarrow> int) \<Rightarrow> int \<Rightarrow> nat
    \<Rightarrow> table_run list \<Rightarrow> 'w \<Rightarrow> (store_outcome \<times> 'w) option" where
  "sweep_runs fuel C params catalog clock timeoutMs drifted runs w =
     (let (runs, w) = precount C params runs w;
          (snapshot, w) = readMutations C catalog w;
          out = (pendingStore Clickhouse)\<lparr>so_failures := int drifted\<rparr>;
          (runs, out, w) = submit C params runs out w;
          deadline = clock 0 + timeoutMs;
          st0 = \<lparr>ps_runs = runs, ps_counted = [], ps_stuck = [], ps_failures = so_failures out\<rparr>
      in case (case snapshot of
                 Inl _ \<Rightarrow> Some (st0, True, w)
               | Inr rows \<Rightarrow> poll fuel C catalog (map (\<lambda>r. mr_key r @ ''#'' @ mr_mutationId r) rows)
                   clock deadline 1 st0 w) of
           None \<Rightarrow> None
         | Some (st, unreadable, w) \<Rightarrow>
             let (runs, w) = verify C params (ps_runs st) w
             in Some (ch_report runs drifted (ps_stuck st) unreadable (out\<lparr>so_failures := ps_failures st\<rparr>), w))"

definition eraseClickhouseSubject :: "nat \<Rightarrow> 'w transport option \<Rightarrow> (nat \<Rightarrow> int) \<Rightarrow> int \<Rightarrow> erasure_table list
    \<Rightarrow> subject_keys \<Rightarrow> string \<Rightarrow> string list \<Rightarrow> string option \<Rightarrow> 'w \<Rightarrow> (store_outcome \<times> 'w) option" where
  "eraseClickhouseSubject fuel clickhouse clock timeoutMs plan subject org threadIds subjectHash w =
     (case (case clickhouse of None \<Rightarrow> None | Some C \<Rightarrow> if ch_available C then Some C else None) of
        None \<Rightarrow> Some (notProvisioned ''no clickhouse endpoint configured; nothing submitted'', w)
      | Some C \<Rightarrow>
          let address = subjectAddress subject threadIds subjectHash in
          if ad_ids address = [] \<and> ad_threadIds address = [] \<and> ad_hashes address = []
          then Some (ch_failed 1 ''subject resolved to no clickhouse-addressable key'', w)
          else case ch_query C SYSTEM_COLUMNS_SQL (catalog_params plan) [] w of
            (Inl e, w) \<Rightarrow> Some (ch_failed 1 (''clickhouse schema probe failed ('' @ e
                @ ''); store NOT reported absent''), w)
          | (Inr body, w) \<Rightarrow>
              let (runs, drifted) = plan_runs (columns_by_table (parseTabSeparated body) []) address plan in
              if runs = [] then
                if drifted = 0 then Some (notProvisioned (''no erasure tables present in this installation (probed ''
                    @ show_nat (length plan) @ ''); not evidence of deletion''), w)
                else Some (ch_failed drifted (show_nat drifted
                    @ '' tables present but not addressable (schema drift); store NOT reported absent''), w)
              else sweep_runs fuel C (ch_params org address) (catalog_params plan) clock timeoutMs drifted runs w)"

section \<open>Bookkeeping lemmas\<close>

text \<open>What the stages before the verification leave alone in a run.\<close>

definition skel :: "table_run \<Rightarrow> erasure_table \<times> string \<times> nat option" where
  "skel r = (tr_spec r, tr_where r, tr_survivors r)"

lemma skel_update [simp]: "skel (r\<lparr>tr_before := b\<rparr>) = skel r" "skel (r\<lparr>tr_submitted := c\<rparr>) = skel r"
  "skel (r\<lparr>tr_confirmed := c\<rparr>) = skel r"
  by (simp_all add: skel_def)

lemma precount_skel: "precount C ps runs w = (runs', w') \<Longrightarrow> map skel runs' = map skel runs"
  by (induction runs arbitrary: w runs' w') (auto split: prod.splits)

lemma submit_skel: "submit C ps runs out w = (runs', out', w') \<Longrightarrow> map skel runs' = map skel runs"
  by (induction runs arbitrary: out w runs' out' w') (auto split: prod.splits sum.splits)

lemma submit_failures: "submit C ps runs out w = (runs', out', w') \<Longrightarrow> so_failures out \<le> so_failures out'"
proof (induction runs arbitrary: out w runs' out' w')
  case (Cons run runs)
  obtain r w1 where q: "ch_query C (mutationSql (tr_spec run) (tr_where run)) ps [(''mutations_sync'', ''0'')] w = (r, w1)"
    by fastforce
  show ?case
  proof (cases r)
    case (Inl e)
    with Cons.prems q obtain runs2 where "submit C ps runs (out\<lparr>so_failures := so_failures out + 1,
        so_note := Some (''mutation submit failed ('' @ e @ '')'')\<rparr>) w1 = (runs2, out', w')"
      by (auto split: prod.splits)
    from Cons.IH [OF this] show ?thesis by simp
  next
    case (Inr b)
    with Cons.prems q obtain runs2 where "submit C ps runs out w1 = (runs2, out', w')"
      by (auto split: prod.splits)
    from Cons.IH [OF this] show ?thesis .
  qed
qed simp

lemma count_failing_mono: "count_failing ms counted f = (counted', f') \<Longrightarrow> f \<le> f'"
  by (induction ms counted f rule: count_failing.induct) (auto split: if_splits)

lemma poll_runs_keeps:
  "poll_runs fresh runs counted stuck f = (runs', counted', stuck', f') \<Longrightarrow>
     map skel runs' = map skel runs \<and> f \<le> f'"
proof (induction runs arbitrary: runs' counted stuck f)
  case (Cons run runs)
  show ?case
  proof (cases "tr_submitted run")
    case False
    then show ?thesis using Cons by (auto split: prod.splits)
  next
    case True
    define key mine where "key = tableKey (tr_spec run)" and "mine = filter (\<lambda>r. mr_key r = key) fresh"
    obtain c1 f1 where cf: "count_failing mine counted f = (c1, f1)" by fastforce
    define conf where "conf = (mine \<noteq> [] \<and> list_all mr_done mine)"
    define st1 where "st1 = (if \<not> conf \<and> list_ex mr_failed mine then set_add key stuck else stuck)"
    obtain r2 where rest: "poll_runs fresh runs c1 st1 f1 = (r2, counted', stuck', f')"
      and r': "runs' = run\<lparr>tr_confirmed := conf\<rparr> # r2"
      using Cons.prems True cf unfolding key_def mine_def conf_def st1_def
      by (auto simp: Let_def split: prod.splits)
    from Cons.IH [OF rest] count_failing_mono [OF cf] r' show ?thesis by simp
  qed
qed auto

lemma poll_step_keeps:
  "map skel (ps_runs (poll_step known rows st)) = map skel (ps_runs st) \<and> ps_failures st \<le> ps_failures (poll_step known rows st)"
  using poll_runs_keeps by (auto simp: poll_step_def Let_def split: prod.splits)

lemma poll_keeps:
  "poll fuel C cat known clock deadline k st w = Some (st', u, w') \<Longrightarrow>
     map skel (ps_runs st') = map skel (ps_runs st) \<and> ps_failures st \<le> ps_failures st'"
proof (induction fuel C cat known clock deadline k st w rule: poll.induct)
  case (2 fuel C cat known clock deadline k st w)
  then show ?case using poll_step_keeps [of known _ st]
    by (auto simp: Let_def split: prod.splits sum.splits if_splits) (metis order_trans)+
qed simp

text \<open>Enough fuel: the loop ends at the latest at the first clock reading past the deadline.\<close>

lemma poll_total:
  "clock j \<ge> deadline \<Longrightarrow> k \<le> j \<Longrightarrow> j < k + fuel \<Longrightarrow> \<exists>r. poll fuel C cat known clock deadline k st w = Some r"
proof (induction fuel arbitrary: k st w)
  case (Suc fuel)
  obtain r w' where "readMutations C cat w = (r, w')" by fastforce
  moreover have "\<exists>x. poll fuel C cat known clock deadline (Suc k) st' w' = Some x" if "clock k < deadline" for st' w'
  proof (rule Suc.IH)
    show "Suc k \<le> j" using Suc.prems that by (metis le_neq_implies_less not_less_eq_eq not_less order_less_imp_not_less)
  qed (use Suc.prems in auto)
  ultimately show ?case by (cases r) (auto simp: Let_def not_le)
qed simp

lemma plan_runs_skel:
  assumes "plan_runs cols ad plan = (runs, drifted)" "r \<in> set runs"
  shows "tr_survivors r = None" "tr_where r = ch_subjectWhere (tr_spec r) ad"
  using assms by (induction plan arbitrary: runs drifted) (auto split: option.splits prod.splits if_splits)

lemma plan_runs_cover:
  assumes "plan_runs cols ad plan = (runs, 0)" "spec \<in> set plan"
    and "map_of cols (tableKey spec) = Some columns" "columns \<noteq> []"
  shows "snd (effectiveTable spec columns ad) \<and> fst (effectiveTable spec columns ad) \<in> tr_spec ` set runs"
  using assms by (induction plan arbitrary: runs) (auto split: option.splits prod.splits if_splits)

lemma plan_runs_absent:
  "plan_runs cols ad plan = ([], 0) \<Longrightarrow> spec \<in> set plan \<Longrightarrow>
     map_of cols (tableKey spec) = None \<or> map_of cols (tableKey spec) = Some []"
  by (induction plan) (auto split: option.splits prod.splits if_splits)

section \<open>The server\<close>

text \<open>
  \<open>residue spec ad org w\<close> is the number of rows of the table the predicate built for \<open>spec\<close>
  and \<open>ad\<close> selects in the organisation. A count answers with that number, and no statement
  of this module adds a row of a subject whose writes are refused.
\<close>

locale clickhouse_server =
  fixes C :: "'w transport"
    and residue :: "erasure_table \<Rightarrow> subject_address \<Rightarrow> string \<Rightarrow> 'w \<Rightarrow> nat"
  assumes counted: "ch_query C (countSql sp (ch_subjectWhere sp ad)) (ch_params org ad) [] w = (Inr body, w')
      \<Longrightarrow> count_of body = Some (residue sp ad org w')"
    and shrinks: "ch_query C sql ps st w = (r, w') \<Longrightarrow> residue sp ad org w' \<le> residue sp ad org w"
begin

lemma count_shrinks: "count_rows_of C ps run w = (n, w') \<Longrightarrow> residue sp ad org w' \<le> residue sp ad org w"
  by (auto simp: count_rows_of_def split: prod.splits sum.splits dest: shrinks)

lemma verify_shrinks: "verify C ps runs w = (runs', w') \<Longrightarrow> residue sp ad org w' \<le> residue sp ad org w"
proof (induction runs arbitrary: w runs')
  case (Cons run runs)
  then show ?case
    by (auto simp: Let_def split: prod.splits if_splits) (meson count_shrinks order_trans)+
qed simp

lemma verify_counts:
  assumes "verify C (ch_params org ad) runs w = (runs', w')" "r' \<in> set runs'"
    and "\<forall>r \<in> set runs. tr_survivors r = None \<and> tr_where r = ch_subjectWhere (tr_spec r) ad"
    and "tr_survivors r' = Some n"
  shows "residue (tr_spec r') ad org w' \<le> n"
  using assms
proof (induction runs arbitrary: w runs')
  case (Cons run runs)
  obtain m w1 where c: "count_rows_of C (ch_params org ad) run w = (m, w1)" by fastforce
  show ?case
  proof (cases "tr_confirmed run \<or> (tr_before run = Some 0 \<and> tr_submitted run)")
    case False
    then show ?thesis using Cons by (auto split: prod.splits)
  next
    case True
    obtain rs where v: "verify C (ch_params org ad) runs w1 = (rs, w')" and runs': "runs' = run\<lparr>tr_survivors := m\<rparr> # rs"
      using Cons.prems(1) True c by (auto simp: Let_def split: prod.splits)
    show ?thesis
    proof (cases "r' \<in> set rs")
      case True
      with Cons.IH [OF v] Cons.prems(3,4) show ?thesis by auto
    next
      case False
      with Cons.prems(2,4) runs' have r': "r' = run\<lparr>tr_survivors := m\<rparr>" "m = Some n" by auto
      from c r'(2) obtain body where q: "ch_query C (countSql (tr_spec run) (tr_where run)) (ch_params org ad) [] w = (Inr body, w1)"
        "count_of body = Some n"
        by (auto simp: count_rows_of_def split: prod.splits sum.splits)
      with counted [of "tr_spec run" ad org w body w1] Cons.prems(3) have "residue (tr_spec run) ad org w1 = n"
        by simp
      with verify_shrinks [OF v, of "tr_spec run" ad org] r'(1) show ?thesis by simp
    qed
  qed
qed simp

end

section \<open>The outcome\<close>

lemma verify_spec: "verify C ps runs w = (runs', w') \<Longrightarrow> map tr_spec runs' = map tr_spec runs"
  by (induction runs arbitrary: w runs' w') (auto simp: Let_def split: prod.splits if_splits)

lemma report_passed:
  "so_verification (ch_report runs drifted stuck u out) = VPassed \<Longrightarrow> r \<in> set runs \<Longrightarrow> tr_survivors r = Some 0"
  by (auto simp: ch_report_def Let_def filter_empty_conv or_zero_def split: if_splits option.splits)

lemma report_status: "so_status (ch_report runs drifted stuck u out) = (if so_failures out > 0 then SFailed else SDone)"
  by (simp add: ch_report_def Let_def)

lemma sweep_runs_split:
  assumes "sweep_runs fuel C ps cat clock t drifted runs w = Some (o1, w')"
  obtains runs3 w3 runs' stuck u out where "verify C ps runs3 w3 = (runs', w')" "map skel runs3 = map skel runs"
    "int drifted \<le> so_failures out" "o1 = ch_report runs' drifted stuck u out"
proof -
  obtain runs1 w1 where p: "precount C ps runs w = (runs1, w1)" by fastforce
  obtain snap w2 where m: "readMutations C cat w1 = (snap, w2)" by fastforce
  obtain runs2 out2 w3 where sb: "submit C ps runs1 ((pendingStore Clickhouse)\<lparr>so_failures := int drifted\<rparr>) w2
      = (runs2, out2, w3)" by (metis prod_cases3)
  let ?st0 = "\<lparr>ps_runs = runs2, ps_counted = [], ps_stuck = [], ps_failures = so_failures out2\<rparr>"
  have f: "int drifted \<le> so_failures out2" using submit_failures [OF sb] by simp
  have sk: "map skel runs2 = map skel runs" using submit_skel [OF sb] precount_skel [OF p] by simp
  obtain st u w4 where st: "(case snap of Inl _ \<Rightarrow> Some (?st0, True, w3)
      | Inr rows \<Rightarrow> poll fuel C cat (map (\<lambda>r. mr_key r @ ''#'' @ mr_mutationId r) rows) clock (clock 0 + t) 1 ?st0 w3)
      = Some (st, u, w4)"
    using assms p m sb by (auto simp: sweep_runs_def Let_def split: option.splits)
  have k: "map skel (ps_runs st) = map skel runs2 \<and> so_failures out2 \<le> ps_failures st"
  proof (cases snap)
    case (Inl e)
    with st show ?thesis by auto
  next
    case (Inr rows)
    with st poll_keeps [of fuel C cat _ clock "clock 0 + t" 1 ?st0 w3 st u w4] show ?thesis by fastforce
  qed
  obtain runs' w5 where v: "verify C ps (ps_runs st) w4 = (runs', w5)" by fastforce
  have o1: "o1 = ch_report runs' drifted (ps_stuck st) u (out2\<lparr>so_failures := ps_failures st\<rparr>)" and w5: "w5 = w'"
    using assms p m sb st v by (auto simp: sweep_runs_def Let_def)
  show ?thesis by (rule that [OF v [unfolded w5] _ _ o1]) (use k sk f in auto)
qed

lemma sweep_status: "sweep_runs fuel C ps cat clock t drifted runs w = Some (o1, w') \<Longrightarrow> so_status o1 \<in> {SFailed, SDone}"
  by (erule sweep_runs_split) (simp add: report_status)

context clickhouse_server
begin

lemma sweep_passed:
  assumes sw: "sweep_runs fuel C (ch_params org ad) cat clock t drifted runs w = Some (o1, w')"
    and runs: "plan_runs cols ad plan = (runs, drifted)"
    and ok: "so_verification o1 = VPassed" "so_status o1 = SDone"
  shows "drifted = 0 \<and> (\<forall>sp \<in> tr_spec ` set runs. residue sp ad org w' = 0)"
proof -
  obtain runs3 w3 runs' stuck u out where v: "verify C (ch_params org ad) runs3 w3 = (runs', w')"
    and sk: "map skel runs3 = map skel runs" and f: "int drifted \<le> so_failures out"
    and o1: "o1 = ch_report runs' drifted stuck u out"
    by (rule sweep_runs_split [OF sw])
  have "\<forall>r \<in> set runs3. skel r \<in> skel ` set runs" using sk by (metis image_eqI list.set_map)
  then have inv: "\<forall>r \<in> set runs3. tr_survivors r = None \<and> tr_where r = ch_subjectWhere (tr_spec r) ad"
    using plan_runs_skel [OF runs] by (auto simp: skel_def image_iff)
  have specs: "tr_spec ` set runs' = tr_spec ` set runs"
  proof -
    have "map tr_spec runs' = map (fst \<circ> skel) runs3" using verify_spec [OF v] by (simp add: skel_def comp_def)
    also have "\<dots> = map (fst \<circ> skel) runs" using sk by (metis map_map)
    finally have "map tr_spec runs' = map tr_spec runs" by (simp add: skel_def comp_def)
    then show ?thesis by (metis list.set_map)
  qed
  have "residue (tr_spec r) ad org w' \<le> 0" if "r \<in> set runs'" for r
    by (rule verify_counts [OF v that inv report_passed]) (use ok(1) o1 that in auto)
  moreover have "drifted = 0" using ok(2) f o1 by (auto simp: report_status split: if_splits)
  ultimately show ?thesis using specs by (metis (no_types, lifting) imageE le_zero_eq)
qed

end

section \<open>Literals\<close>

text \<open>The server's reading of a quoted literal, for the round trip.\<close>

fun read_literal :: "string \<Rightarrow> (string \<times> string) option" where
  "read_literal [] = None"
| "read_literal (c # cs) =
     (if c = CHR 0x27 then Some ([], cs)
      else if c = CHR 0x5C then (case cs of [] \<Rightarrow> None
        | d # ds \<Rightarrow> (case read_literal ds of None \<Rightarrow> None | Some (v, rest) \<Rightarrow> Some (d # v, rest)))
      else (case read_literal cs of None \<Rightarrow> None | Some (v, rest) \<Rightarrow> Some (c # v, rest)))"

fun read_items :: "nat \<Rightarrow> string \<Rightarrow> string list option" where
  "read_items 0 s = None"
| "read_items (Suc n) s = (case s of
     c # cs \<Rightarrow> if c \<noteq> CHR 0x27 then None else (case read_literal cs of
         None \<Rightarrow> None
       | Some (v, rest) \<Rightarrow> if rest = '']'' then Some [v]
           else (case rest of d # ds \<Rightarrow> if d = CHR '','' then map_option ((#) v) (read_items n ds) else None | [] \<Rightarrow> None))
   | [] \<Rightarrow> None)"

definition read_array :: "string \<Rightarrow> string list option" where
  "read_array s = (if s = ''[]'' then Some [] else case s of
     c # cs \<Rightarrow> if c = CHR ''['' then read_items (length cs) cs else None | [] \<Rightarrow> None)"

lemma read_escaped: "read_literal (escape_literal v @ CHR 0x27 # rest) = Some (v, rest)"
  by (induction v) auto

lemma read_items_join:
  "vs \<noteq> [] \<Longrightarrow> length vs \<le> n \<Longrightarrow>
     read_items n (join '','' (map (\<lambda>v. quote @ escape_literal v @ quote) vs) @ '']'') = Some vs"
proof (induction vs arbitrary: n)
  case (Cons v vs)
  then obtain k where n: "n = Suc k" by (cases n) auto
  show ?case
  proof (cases vs)
    case Nil
    then show ?thesis by (simp add: n quote_def read_escaped)
  next
    case (Cons u us)
    then show ?thesis using Cons.IH [of k] Cons.prems by (simp add: n quote_def read_escaped)
  qed
qed simp

lemma length_join_items: "length vs \<le> length (join '','' (map (\<lambda>v. quote @ escape_literal v @ quote) vs))"
  by (induction vs rule: induct_list012) (auto simp: quote_def)

section \<open>Properties\<close>


text \<open>
  Absent is not broken. ClickHouse is reported \<open>not_provisioned\<close>, which settles the
  erasure, only if no client is configured or the schema probe succeeded and reported no
  column of any table of the plan; such an outcome claims no deletion. Every error, and every
  present table that cannot be addressed, is a failure instead.
\<close>

lemma clickhouse_absent_only_if_proved:
  assumes "eraseClickhouseSubject fuel client clock timeoutMs plan subject org threadIds subjectHash w = Some (o1, w')"
    and "so_status o1 = SNotProvisioned"
  shows "so_deleted o1 = 0 \<and> so_anonymized o1 = 0 \<and> so_verification o1 = VNotApplicable \<and>
    ((case client of None \<Rightarrow> True | Some C \<Rightarrow> \<not> ch_available C) \<or>
     (\<exists>C body w1. client = Some C \<and> ch_query C SYSTEM_COLUMNS_SQL (catalog_params plan) [] w = (Inr body, w1) \<and>
       (\<forall>spec \<in> set plan. map_of (columns_by_table (parseTabSeparated body) []) (tableKey spec) \<in> {None, Some []})))"
proof (cases "(case client of None \<Rightarrow> None | Some C \<Rightarrow> if ch_available C then Some C else None)")
  case None
  with assms show ?thesis
    by (auto simp: eraseClickhouseSubject_def notProvisioned_def split: option.splits if_splits)
next
  case (Some C)
  then have client: "client = Some C" "ch_available C" by (auto split: option.splits if_splits)
  obtain r w1 where q: "ch_query C SYSTEM_COLUMNS_SQL (catalog_params plan) [] w = (r, w1)" by fastforce
  show ?thesis
  proof (cases r)
    case (Inl e)
    with assms client q show ?thesis
      by (auto simp: eraseClickhouseSubject_def ch_failed_def Let_def split: if_splits)
  next
    case (Inr body)
    let ?ad = "subjectAddress subject threadIds subjectHash"
    let ?cols = "columns_by_table (parseTabSeparated body) []"
    obtain runs drifted where runs: "plan_runs ?cols ?ad plan = (runs, drifted)" by fastforce
    from assms client q Inr runs have "runs = [] \<and> drifted = 0 \<and> (\<exists>n. o1 = notProvisioned n)"
      by (auto simp: eraseClickhouseSubject_def ch_failed_def Let_def split: if_splits dest: sweep_status)
    with plan_runs_absent [of ?cols ?ad plan] runs client q Inr show ?thesis
      by (auto simp: notProvisioned_def)
  qed
qed

text \<open>
  C25: The wait is bounded. The polling loop has no bound of its own, but the executor returns
  an outcome as soon as one clock reading is past the deadline: fuel up to that reading is
  enough, whatever the server answers.
\<close>

theorem clickhouse_returns:
  assumes "clock 0 + timeoutMs \<le> clock j" "1 \<le> j" "j \<le> fuel"
  shows "\<exists>o1 w'. eraseClickhouseSubject fuel client clock timeoutMs plan subject org threadIds subjectHash w = Some (o1, w')"
proof -
  have p: "poll fuel C cat known clock (clock 0 + timeoutMs) (Suc 0) st v \<noteq> None"
    for C :: "'a transport" and cat known st v
    using poll_total [where j = j and k = "Suc 0" and fuel = fuel] assms by fastforce
  have "sweep_runs fuel C ps cat clock timeoutMs drifted runs v \<noteq> None" for C :: "'a transport" and ps cat drifted runs v
    unfolding sweep_runs_def Let_def
    by (auto simp: p split: prod.splits sum.splits option.splits)
  then show ?thesis
    by (auto simp: eraseClickhouseSubject_def Let_def split: option.splits prod.splits sum.splits)
qed

text \<open>
  Identifiers cannot leave their literals. Reading the array parameter the way the server
  does, quote by quote with backslash escapes, gives back exactly the list of identifiers,
  whatever characters they contain.
\<close>

lemma clickhouseArrayParam_roundtrip: "read_array (clickhouseArrayParam vs) = Some vs"
proof (cases "vs = []")
  case False
  let ?items = "join '','' (map (\<lambda>v. quote @ escape_literal v @ quote) vs)"
  have "clickhouseArrayParam vs \<noteq> ''[]''"
    using False length_join_items [of vs] by (auto simp: clickhouseArrayParam_def quote_def)
  moreover have "read_items (length (?items @ '']'')) (?items @ '']'') = Some vs"
    by (rule read_items_join [OF False]) (use length_join_items [of vs] in simp)
  ultimately show ?thesis by (simp add: read_array_def clickhouseArrayParam_def)
qed (simp add: read_array_def clickhouseArrayParam_def)

section \<open>A server in memory\<close>

text \<open>
  A stand-in like the one the repository's tests use: the schema is a fixed reply, a mutation
  is logged and applied at once, a count answers from the rows the statement selects.
\<close>

record fake_server =
  fk_columns :: string
  fk_mutations :: "string list"
  fk_rows :: "string \<Rightarrow> nat"

definition mutation_line :: "string \<Rightarrow> nat \<Rightarrow> string" where
  "mutation_line target n = map (\<lambda>c. if c = CHR ''.'' then CHR 0x09 else c) target @ CHR 0x09 # show_nat n
     @ CHR 0x09 # ''1'' @ CHR 0x09 # ''0''"

definition fake_query :: "string \<Rightarrow> bindings \<Rightarrow> bindings \<Rightarrow> fake_server \<Rightarrow> (string + string) \<times> fake_server" where
  "fake_query sql params settings w =
     (if sql = SYSTEM_COLUMNS_SQL then (Inr (fk_columns w), w)
      else if sql = SYSTEM_MUTATIONS_SQL then (Inr (join [CHR 0x0A] (fk_mutations w)), w)
      else if starts_with ''SELECT count()'' sql then (Inr (show_nat (fk_rows w sql) @ [CHR 0x0A]), w)
      else if starts_with ''ALTER TABLE '' sql then
        let target = takeWhile (\<lambda>c. c \<noteq> CHR '' '') (drop 12 sql) in
        (Inr [], w\<lparr>fk_mutations := fk_mutations w @ [mutation_line target (length (fk_mutations w))],
           fk_rows := (\<lambda>s. if starts_with (''SELECT count() FROM '' @ target @ '' WHERE '') s then 0 else fk_rows w s)\<rparr>)
      else (Inl ''ClickhouseQueryError 404'', w))"

definition fake_clickhouse :: "fake_server transport" where
  "fake_clickhouse = \<lparr>ch_available = True, ch_query = fake_query\<rparr>"

lemma trim_solid: "\<forall>c \<in> set s. \<not> js_ws c \<Longrightarrow> trim (s @ [CHR 0x0A]) = s"
proof -
  assume s: "\<forall>c \<in> set s. \<not> js_ws c"
  have lf: "js_ws (CHR 0x0A)" by code_simp
  have id: "dropWhile js_ws t = t" if "\<forall>c \<in> set t. \<not> js_ws c" for t
    using that by (cases t) auto
  have "dropWhile js_ws (s @ [CHR 0x0A]) = (if s = [] then [] else s @ [CHR 0x0A])"
    using s lf by (cases s) auto
  moreover have "dropWhile js_ws (rev (s @ [CHR 0x0A])) = rev s"
    using lf id [of "rev s"] s by simp
  ultimately show ?thesis by (simp add: trim_def)
qed

lemma of_digit_char: "n < 10 \<Longrightarrow> of_char (digit_char n) = (n + 48 :: nat)"
  by (simp add: digit_char_def)

lemma digit_char_props: "n < 10 \<Longrightarrow> is_digit (digit_char n) \<and> \<not> js_ws (digit_char n)"
  unfolding is_digit_def js_ws_def Let_def by (simp add: of_digit_char)

lemma show_nat_digits: "\<forall>c \<in> set (show_nat n). is_digit c \<and> \<not> js_ws c"
proof (induction n rule: show_nat.induct)
  case (1 n)
  then show ?case by (subst show_nat.simps) (auto simp: digit_char_props)
qed

lemma digits_value_show: "digits_value (show_nat n) = n"
proof (induction n rule: show_nat.induct)
  case (1 n)
  then show ?case by (subst show_nat.simps) (auto simp: digits_value_def of_digit_char)
qed

lemma count_of_show: "count_of (show_nat n @ [CHR 0x0A]) = Some n"
  using show_nat_digits [of n] by (simp add: count_of_def trim_solid list_all_iff digits_value_show)

interpretation fk: clickhouse_server fake_clickhouse "\<lambda>sp ad org w. fk_rows w (countSql sp (ch_subjectWhere sp ad))"
proof
  fix sp ad org w body w'
  assume q: "ch_query fake_clickhouse (countSql sp (ch_subjectWhere sp ad)) (ch_params org ad) [] w = (Inr body, w')"
  have "countSql sp (ch_subjectWhere sp ad) \<noteq> SYSTEM_COLUMNS_SQL"
    "countSql sp (ch_subjectWhere sp ad) \<noteq> SYSTEM_MUTATIONS_SQL"
    "starts_with ''SELECT count()'' (countSql sp (ch_subjectWhere sp ad))"
    by (simp_all add: countSql_def SYSTEM_COLUMNS_SQL_def SYSTEM_MUTATIONS_SQL_def starts_with_def)
  with q show "count_of body = Some (fk_rows w' (countSql sp (ch_subjectWhere sp ad)))"
    by (auto simp: fake_clickhouse_def fake_query_def count_of_show)
qed (auto simp: fake_clickhouse_def fake_query_def Let_def split: if_splits)

section \<open>Witnesses\<close>

definition w_ch_subject :: subject_keys where
  "w_ch_subject = \<lparr>platosEndUserIds = [''u1''], legacyUserIds = [''ada''], scopes = []\<rparr>"

definition w_spans :: erasure_table where
  "w_spans = \<lparr>et_database = ''t'', et_table = ''platos_spans_v1'', et_subjectIdColumns = [''user_id''],
     et_threadColumn = Some ''thread_id'', et_subjectHashColumn = None, et_action = DeleteRows\<rparr>"

definition w_tab :: string where
  "w_tab = [CHR 0x09]"

definition w_server :: fake_server where
  "w_server = \<lparr>fk_columns = join [CHR 0x0A] (map (\<lambda>c. ''t'' @ w_tab @ ''platos_spans_v1'' @ w_tab @ c)
     [''user_id'', ''thread_id'', ''organization_id'']), fk_mutations = [], fk_rows = (\<lambda>s. 3)\<rparr>"

abbreviation "w_sweep \<equiv> eraseClickhouseSubject 2 (Some fake_clickhouse) (\<lambda>k. int k * 30000) 30000 [w_spans]
  w_ch_subject ''o'' [''t1''] None w_server"

lemma w_sweep_result: "(case w_sweep of None \<Rightarrow> False | Some (o1, w') \<Rightarrow>
    so_status o1 = SDone \<and> so_verification o1 = VPassed \<and> so_deleted o1 = 3)"
  by code_simp

lemma w_sweep_columns:
  "map_of (columns_by_table (parseTabSeparated (fk_columns w_server)) []) (tableKey w_spans)
     = Some [''user_id'', ''thread_id'', ''organization_id'']"
  by code_simp


theorem clickhouse_returns_witness: "\<exists>o1 w'. w_sweep = Some (o1, w')"
  by (rule clickhouse_returns [where j = 1]) simp_all

text \<open>An empty reply to a count reads as the number zero.\<close>

lemma empty_reply_counts_zero: "count_of [] = Some 0"
  by code_simp

end
