(* ===== verification/Approvals.thy ===== *)
theory Approvals
  imports Table JsValue
begin

text \<open>
  \<open>apps/agent/src/monitoring/approvals.service.ts\<close>: the human-in-the-loop approval ledger,
  with \<open>environmentScopeWhere\<close> of \<open>shared/database.provider.ts\<close> and \<open>isUuid\<close> of
  \<open>shared/pagination.ts\<close>. A row is opened as pending by \<open>recordApproval\<close> or
  \<open>createMcpApproval\<close>, decided by \<open>resolve\<close>, expired by the sweep, and stamped with its
  result by \<open>markMcpConsumed\<close>. The table is a parameter (\<open>approvals\<close>); the laws of its
  ordered reads are the locale \<open>approval_store\<close>, interpreted on the repository's table
  double. Generated ids and the clock are arguments. The two halves of a read-then-write
  operation are separate definitions, so that \<open>approvals_step\<close> interleaves them.
\<close>

section \<open>Rows\<close>

datatype database_status = PENDING | APPROVED | REJECTED | EXPIRED

record approval_row =
  aw_id :: string
  aw_environmentId :: string
  aw_agentId :: "string option"
  aw_threadId :: "string option"
  aw_action :: string
  aw_details :: "string option"
  aw_status :: database_status
  aw_timeoutSeconds :: int
  aw_resolvedAt :: "int option"
  aw_respondedBy :: "string option"
  aw_comment :: "string option"
  aw_toolName :: "string option"
  aw_arguments :: jsval
  aw_resolution :: jsval
  aw_createdAt :: int
  aw_updatedAt :: int

record approval_record =
  ap_id :: string
  ap_approvalId :: jsval
  ap_organizationId :: string
  ap_projectId :: string
  ap_environmentId :: string
  ap_source :: jsval
  ap_agentId :: "string option"
  ap_threadId :: "string option"
  ap_requestedBy :: jsval
  ap_action :: string
  ap_details :: "string option"
  ap_status :: string
  ap_timeoutSeconds :: int
  ap_createdAt :: string
  ap_updatedAt :: string
  ap_resolvedAt :: "string option"
  ap_respondedBy :: "string option"
  ap_comment :: "string option"
  ap_deadlineAt :: "string option"
  ap_secondsRemaining :: "int option"
  ap_expired :: bool
  ap_toolName :: "string option"
  ap_args :: jsval
  ap_resolution :: jsval
  ap_consumedAt :: jsval
  ap_requestedByMcpTokenId :: jsval
  ap_editedArgs :: jsval
  ap_editedByUserId :: jsval

text \<open>
  The client: the table, its reads with an order (\<open>as_newest\<close> is \<open>findFirst\<close> by descending
  creation time, \<open>as_page\<close> is \<open>findMany\<close> with \<open>take\<close> and \<open>skip\<close>), the project and
  organization of an environment, and the printer of dates.
\<close>

record 's approvals =
  as_table :: "('s, approval_row) table"
  as_newest :: "(approval_row \<Rightarrow> bool) \<Rightarrow> 's \<Rightarrow> db_error + approval_row option"
  as_page :: "(approval_row \<Rightarrow> bool) \<Rightarrow> nat \<Rightarrow> nat \<Rightarrow> 's \<Rightarrow> db_error + approval_row list"
  as_count :: "(approval_row \<Rightarrow> bool) \<Rightarrow> 's \<Rightarrow> db_error + nat"
  as_ancestry :: "string \<Rightarrow> string \<times> string"
  as_iso :: "int \<Rightarrow> string"

definition environmentScopeWhere :: "'s approvals \<Rightarrow> scope_tuple \<Rightarrow> approval_row \<Rightarrow> bool" where
  "environmentScopeWhere as scope row = (aw_environmentId row = sc_environmentId scope \<and>
     as_ancestry as (aw_environmentId row) = (sc_projectId scope, sc_organizationId scope))"

section \<open>The arguments column\<close>

definition opt_str :: "string option \<Rightarrow> jsval" where
  "opt_str v = (case v of None \<Rightarrow> JNull | Some s \<Rightarrow> JStr s)"

definition nullish :: "jsval \<Rightarrow> bool" where
  "nullish v = (v = JUndef \<or> v = JNull)"

definition or_null :: "jsval \<Rightarrow> jsval" where
  "or_null v = (if nullish v then JNull else v)"

definition metadata :: "string \<Rightarrow> string \<Rightarrow> string option \<Rightarrow> string option \<Rightarrow> string option \<Rightarrow> (string \<times> jsval) list" where
  "metadata approvalId source requestedBy requestHash requestedByMcpTokenId =
     [(''approvalId'', JStr approvalId), (''source'', JStr source), (''requestedBy'', opt_str requestedBy),
      (''requestHash'', opt_str requestHash), (''requestedByMcpTokenId'', opt_str requestedByMcpTokenId),
      (''consumedAt'', JNull), (''editedArgs'', JNull), (''editedByUserId'', JNull)]"

definition metadata_of :: "approval_row \<Rightarrow> (string \<times> jsval) list" where
  "metadata_of row = (case aw_arguments row of
     JObj fs \<Rightarrow> (case js_get fs ''__platosApproval'' of JObj md \<Rightarrow> md | _ \<Rightarrow> []) | _ \<Rightarrow> [])"

definition metadataWhere :: "string \<Rightarrow> string \<Rightarrow> approval_row \<Rightarrow> bool" where
  "metadataWhere field val row = (js_get (metadata_of row) field = JStr val)"

definition storeArguments :: "(string \<times> jsval) list \<Rightarrow> jsval \<Rightarrow> jsval" where
  "storeArguments md val = JObj [(''__platosApproval'', JObj md), (''value'', val)]"

definition readArguments :: "jsval \<Rightarrow> (string \<times> jsval) list \<times> jsval" where
  "readArguments v = (case v of
     JObj fs \<Rightarrow> (case js_get fs ''__platosApproval'' of
        JObj md \<Rightarrow> if js_truthy (js_get md ''approvalId'') then (md, or_null (js_get fs ''value''))
                    else (metadata [] ''request_approval'' None None None, JNull)
      | _ \<Rightarrow> (metadata [] ''request_approval'' None None None, JNull))
   | _ \<Rightarrow> (metadata [] ''request_approval'' None None None, JNull))"

text \<open>\<open>undefined\<close>, here \<open>None\<close>, leaves the column as it is.\<close>

definition jsonObject :: "jsval \<Rightarrow> jsval option" where
  "jsonObject v = (if nullish v then None else
     case v of JObj fs \<Rightarrow> Some (JObj fs) | _ \<Rightarrow> Some (JObj [(''value'', v)]))"

definition databaseStatus :: "string \<Rightarrow> database_status" where
  "databaseStatus status = (if status = ''approved'' then APPROVED else if status = ''rejected'' then REJECTED
     else if status = ''timed_out'' then EXPIRED else PENDING)"

fun publicStatus :: "database_status \<Rightarrow> string" where
  "publicStatus APPROVED = ''approved''"
| "publicStatus REJECTED = ''rejected''"
| "publicStatus EXPIRED = ''timed_out''"
| "publicStatus PENDING = ''pending''"

definition deadlineMs :: "approval_row \<Rightarrow> int" where
  "deadlineMs row = aw_createdAt row + aw_timeoutSeconds row * 1000"

definition toRecord :: "'s approvals \<Rightarrow> scope_tuple \<Rightarrow> approval_row \<Rightarrow> int \<Rightarrow> approval_record" where
  "toRecord as scope row now =
     (let (md, val) = readArguments (aw_arguments row); status = publicStatus (aw_status row);
          isPending = (status = ''pending''); expired = (isPending \<and> now \<ge> deadlineMs row)
      in \<lparr>ap_id = aw_id row, ap_approvalId = js_get md ''approvalId'',
          ap_organizationId = sc_organizationId scope, ap_projectId = sc_projectId scope,
          ap_environmentId = aw_environmentId row, ap_source = js_get md ''source'',
          ap_agentId = aw_agentId row, ap_threadId = aw_threadId row, ap_requestedBy = js_get md ''requestedBy'',
          ap_action = aw_action row, ap_details = aw_details row, ap_status = status,
          ap_timeoutSeconds = aw_timeoutSeconds row, ap_createdAt = as_iso as (aw_createdAt row),
          ap_updatedAt = as_iso as (aw_updatedAt row), ap_resolvedAt = map_option (as_iso as) (aw_resolvedAt row),
          ap_respondedBy = aw_respondedBy row, ap_comment = aw_comment row,
          ap_deadlineAt = (if isPending then Some (as_iso as (deadlineMs row)) else None),
          ap_secondsRemaining = (if isPending \<and> \<not> expired then Some (max 0 ((deadlineMs row - now) div 1000)) else None),
          ap_expired = expired, ap_toolName = aw_toolName row, ap_args = val, ap_resolution = aw_resolution row,
          ap_consumedAt = js_get md ''consumedAt'', ap_requestedByMcpTokenId = js_get md ''requestedByMcpTokenId'',
          ap_editedArgs = js_get md ''editedArgs'', ap_editedByUserId = js_get md ''editedByUserId''\<rparr>)"

section \<open>Operations\<close>

definition findRawByApprovalId :: "'s approvals \<Rightarrow> scope_tuple \<Rightarrow> string \<Rightarrow> 's \<Rightarrow> db_error + approval_row option" where
  "findRawByApprovalId as scope approvalId =
     findFirst (as_table as) (\<lambda>row. environmentScopeWhere as scope row \<and> metadataWhere ''approvalId'' approvalId row)"

record approval_input =
  ri_scope :: scope_tuple
  ri_approvalId :: string
  ri_source :: string
  ri_agentId :: "string option"
  ri_threadId :: "string option"
  ri_requestedBy :: "string option"
  ri_action :: string
  ri_details :: "string option"
  ri_timeoutSeconds :: "rat option"

definition js_round :: "rat \<Rightarrow> int" where
  "js_round q = \<lfloor>q + 1 / 2\<rfloor>"

definition opt_else :: "'a option \<Rightarrow> 'a \<Rightarrow> 'a" where
  "opt_else v d = (case v of None \<Rightarrow> d | Some x \<Rightarrow> x)"

definition recordApproval :: "'s approvals \<Rightarrow> approval_input \<Rightarrow> string \<Rightarrow> int \<Rightarrow> 's \<Rightarrow> string option \<times> 's" where
  "recordApproval as inp newId now s =
     (case create (as_table as)
        \<lparr>aw_id = newId, aw_environmentId = sc_environmentId (ri_scope inp), aw_agentId = ri_agentId inp,
         aw_threadId = ri_threadId inp, aw_action = ri_action inp, aw_details = ri_details inp,
         aw_status = PENDING, aw_timeoutSeconds = max 1 (js_round (opt_else (ri_timeoutSeconds inp) 300)),
         aw_resolvedAt = None, aw_respondedBy = None, aw_comment = None, aw_toolName = None,
         aw_arguments = storeArguments
           (metadata (ri_approvalId inp) (ri_source inp) (ri_requestedBy inp) None None) JNull,
         aw_resolution = JNull, aw_createdAt = now, aw_updatedAt = now\<rparr> s of
        Inl e \<Rightarrow> (None, s) | Inr s' \<Rightarrow> (Some newId, s'))"

record resolve_input =
  rs_scope :: scope_tuple
  rs_approvalId :: string
  rs_status :: string
  rs_respondedBy :: "string option"
  rs_comment :: "string option"
  rs_editedArgs :: "(string \<times> jsval) list option"
  rs_editedByUserId :: "string option"

definition resolved_row :: "resolve_input \<Rightarrow> approval_row \<Rightarrow> int \<Rightarrow> approval_row \<Rightarrow> approval_row" where
  "resolved_row inp read now row =
     (let (md, val) = readArguments (aw_arguments read);
          persistEdits = (rs_status inp = ''approved'' \<and> rs_editedArgs inp \<noteq> None);
          edited = (if persistEdits then JObj (opt_else (rs_editedArgs inp) []) else JNull);
          editor = (if persistEdits then opt_str (case rs_editedByUserId inp of None \<Rightarrow> rs_respondedBy inp | e \<Rightarrow> e)
                    else JNull)
      in row\<lparr>aw_status := databaseStatus (rs_status inp), aw_respondedBy := rs_respondedBy inp,
          aw_comment := rs_comment inp, aw_resolvedAt := Some now,
          aw_arguments := storeArguments
            (AList.update ''editedByUserId'' editor (AList.update ''editedArgs'' edited md)) val,
          aw_updatedAt := now\<rparr>)"

definition resolve_write :: "'s approvals \<Rightarrow> resolve_input \<Rightarrow> approval_row \<Rightarrow> int \<Rightarrow> 's \<Rightarrow> bool \<times> 's" where
  "resolve_write as inp read now s =
     (case updateMany (as_table as) (\<lambda>row. aw_id row = aw_id read \<and> aw_status row = PENDING)
        (resolved_row inp read now) s of
        Inl e \<Rightarrow> (False, s) | Inr (n, s') \<Rightarrow> (n = 1, s'))"

definition resolve :: "'s approvals \<Rightarrow> resolve_input \<Rightarrow> int \<Rightarrow> 's \<Rightarrow> bool \<times> 's" where
  "resolve as inp now s =
     (case findRawByApprovalId as (rs_scope inp) (rs_approvalId inp) s of
        Inr (Some row) \<Rightarrow> if aw_status row \<noteq> PENDING then (False, s) else resolve_write as inp row now s
      | _ \<Rightarrow> (False, s))"

definition hexes :: "nat \<Rightarrow> string \<Rightarrow> bool" where
  "hexes n s = (length s = n \<and> list_all (\<lambda>c. lower_char c \<in> set ''0123456789abcdef'') s)"

definition isUuid :: "string \<Rightarrow> bool" where
  "isUuid v = (case split_on (CHR ''-'') v of
     [a, b, c, d, e] \<Rightarrow> hexes 8 a \<and> hexes 4 b \<and> hexes 4 c \<and> hd c \<in> set ''12345678'' \<and>
       hexes 4 d \<and> lower_char (hd d) \<in> set ''89ab'' \<and> hexes 12 e
   | _ \<Rightarrow> False)"

record approval_filters =
  fl_threadId :: string
  fl_agentId :: string
  fl_status :: string
  fl_source :: string
  fl_search :: string
  fl_sinceDays :: "int option"
  fl_limit :: "int option"
  fl_offset :: "int option"

definition contains_insensitive :: "string \<Rightarrow> string \<Rightarrow> bool" where
  "contains_insensitive s n = str_includes (to_lower s) (to_lower n)"

text \<open>An absent filter string is the empty string: the code tests each for truth.\<close>

definition listWhere :: "'s approvals \<Rightarrow> scope_tuple \<Rightarrow> approval_filters \<Rightarrow> int \<Rightarrow> approval_row \<Rightarrow> bool" where
  "listWhere as scope fl now row = (environmentScopeWhere as scope row \<and>
     aw_createdAt row \<ge> now - opt_else (fl_sinceDays fl) 30 * 86400000 \<and>
     (fl_threadId fl = [] \<or> aw_threadId row = Some (fl_threadId fl)) \<and>
     (fl_agentId fl = [] \<or> aw_agentId row = Some (fl_agentId fl)) \<and>
     (fl_status fl = [] \<or> aw_status row = databaseStatus (fl_status fl)) \<and>
     (fl_source fl = [] \<or> metadataWhere ''source'' (fl_source fl) row) \<and>
     (fl_search fl = [] \<or> (isUuid (fl_search fl) \<and> aw_id row = to_lower (fl_search fl)) \<or>
        contains_insensitive (aw_action row) (fl_search fl) \<or>
        (case aw_details row of None \<Rightarrow> False | Some d \<Rightarrow> contains_insensitive d (fl_search fl))))"

record approval_page =
  pg_rows :: "approval_record list"
  pg_total :: nat
  pg_pendingCount :: nat
  pg_limit :: nat
  pg_offset :: nat

definition listApprovals ::
    "'s approvals \<Rightarrow> scope_tuple \<Rightarrow> approval_filters \<Rightarrow> int \<Rightarrow> int \<Rightarrow> 's \<Rightarrow> db_error + approval_page" where
  "listApprovals as scope fl now later s =
     (let limit = nat (min (max (opt_else (fl_limit fl) 50) 1) 200); offset = nat (max (opt_else (fl_offset fl) 0) 0);
          w = listWhere as scope fl now
      in case as_count as w s of Inl e \<Rightarrow> Inl e | Inr matching \<Rightarrow>
         (case as_count as (\<lambda>row. environmentScopeWhere as scope row \<and> aw_status row = PENDING) s of
            Inl e \<Rightarrow> Inl e
          | Inr pending \<Rightarrow> (case as_page as w limit offset s of
               Inl e \<Rightarrow> Inl e
             | Inr rows \<Rightarrow> Inr \<lparr>pg_rows = map (\<lambda>row. toRecord as scope row later) rows, pg_total = matching,
                 pg_pendingCount = pending, pg_limit = limit, pg_offset = offset\<rparr>)))"

definition getById :: "'s approvals \<Rightarrow> scope_tuple \<Rightarrow> string \<Rightarrow> int \<Rightarrow> 's \<Rightarrow> db_error + approval_record option" where
  "getById as scope approvalId now s =
     map_res (map_option (\<lambda>row. toRecord as scope row now)) (findRawByApprovalId as scope approvalId s)"

definition overdue :: "int \<Rightarrow> approval_row \<Rightarrow> bool" where
  "overdue now row = (now - aw_createdAt row > aw_timeoutSeconds row * 1000)"

definition expired_row :: "int \<Rightarrow> approval_row \<Rightarrow> approval_row" where
  "expired_row now row = row\<lparr>aw_status := EXPIRED, aw_resolvedAt := Some now, aw_updatedAt := now\<rparr>"

definition expire_write :: "'s approvals \<Rightarrow> string list \<Rightarrow> int \<Rightarrow> 's \<Rightarrow> nat \<times> 's" where
  "expire_write as expiredIds now s =
     (case updateMany (as_table as) (\<lambda>row. aw_id row \<in> set expiredIds \<and> aw_status row = PENDING)
        (expired_row now) s of
        Inl e \<Rightarrow> (0, s) | Inr (n, s') \<Rightarrow> (n, s'))"

definition sweepExpired :: "'s approvals \<Rightarrow> scope_tuple \<Rightarrow> int \<Rightarrow> 's \<Rightarrow> nat \<times> 's" where
  "sweepExpired as scope now s =
     (case findMany (as_table as) (\<lambda>row. environmentScopeWhere as scope row \<and> aw_status row = PENDING) s of
        Inl e \<Rightarrow> (0, s)
      | Inr rows \<Rightarrow> (let expiredIds = map aw_id (filter (overdue now) rows)
          in if expiredIds = [] then (0, s) else expire_write as expiredIds now s))"

definition scope_of_environment :: "'s approvals \<Rightarrow> string \<Rightarrow> scope_tuple" where
  "scope_of_environment as env = (case as_ancestry as env of (proj, org) \<Rightarrow>
     \<lparr>sc_organizationId = org, sc_projectId = proj, sc_environmentId = env\<rparr>)"

fun sweep_scopes :: "'s approvals \<Rightarrow> scope_tuple list \<Rightarrow> int \<Rightarrow> 's \<Rightarrow> (scope_tuple \<times> nat) list \<times> 's" where
  "sweep_scopes as [] now s = ([], s)"
| "sweep_scopes as (sc # scs) now s =
     (case sweepExpired as sc now s of (n, s') \<Rightarrow>
        (case sweep_scopes as scs now s' of (res, s'') \<Rightarrow> ((sc, n) # res, s'')))"

text \<open>The result: how many scopes were scanned, the total, and the count per scope.\<close>

definition sweepExpiredAllScopes :: "'s approvals \<Rightarrow> int \<Rightarrow> 's \<Rightarrow> (nat \<times> nat \<times> (scope_tuple \<times> nat) list) \<times> 's" where
  "sweepExpiredAllScopes as now s =
     (case findMany (as_table as) (\<lambda>row. aw_status row = PENDING) s of
        Inl e \<Rightarrow> ((0, 0, []), s)
      | Inr rows \<Rightarrow> (let tuples = map (scope_of_environment as) (nub (map aw_environmentId rows))
          in case sweep_scopes as tuples now s of (res, s') \<Rightarrow>
             ((length tuples, sum_list (map snd res), res), s')))"

definition computeRequestHash ::
    "(string \<Rightarrow> string) \<Rightarrow> (rat \<Rightarrow> string) \<Rightarrow> scope_tuple \<Rightarrow> string \<Rightarrow> jsval \<Rightarrow> string" where
  "computeRequestHash sha256 ns scope toolName redactedArgs =
     sha256 (opt_else (stringify ns (JObj [(''o'', JStr (sc_organizationId scope)), (''p'', JStr (sc_projectId scope)),
       (''e'', JStr (sc_environmentId scope)), (''t'', JStr toolName), (''a'', redactedArgs)])) [])"

definition pending_request :: "'s approvals \<Rightarrow> scope_tuple \<Rightarrow> string \<Rightarrow> approval_row \<Rightarrow> bool" where
  "pending_request as scope requestHash row = (environmentScopeWhere as scope row \<and> aw_status row = PENDING \<and>
     metadataWhere ''requestHash'' requestHash row \<and> metadataWhere ''source'' ''mcp_tool_call'' row)"

definition findPendingByRequestHash ::
    "'s approvals \<Rightarrow> scope_tuple \<Rightarrow> string \<Rightarrow> int \<Rightarrow> 's \<Rightarrow> db_error + approval_record option" where
  "findPendingByRequestHash as scope requestHash now s =
     map_res (\<lambda>found. case found of None \<Rightarrow> None | Some row \<Rightarrow>
        (let rec = toRecord as scope row now in if ap_expired rec then None else Some rec))
       (as_newest as (pending_request as scope requestHash) s)"

record mcp_input =
  mi_scope :: scope_tuple
  mi_toolName :: string
  mi_args :: jsval
  mi_requestHash :: string
  mi_requestedByUserId :: "string option"
  mi_requestedByMcpTokenId :: "string option"
  mi_timeoutSeconds :: "rat option"
  mi_actionLabel :: "string option"

definition mcp_row :: "mcp_input \<Rightarrow> string \<Rightarrow> string \<Rightarrow> int \<Rightarrow> approval_row" where
  "mcp_row inp newId rand now =
     \<lparr>aw_id = newId, aw_environmentId = sc_environmentId (mi_scope inp), aw_agentId = None, aw_threadId = None,
      aw_action = opt_else (mi_actionLabel inp) (''MCP tool call: '' @ mi_toolName inp), aw_details = None,
      aw_status = PENDING, aw_timeoutSeconds = max 60 (js_round (opt_else (mi_timeoutSeconds inp) 3600)),
      aw_resolvedAt = None, aw_respondedBy = None, aw_comment = None, aw_toolName = Some (mi_toolName inp),
      aw_arguments = storeArguments (metadata (''appr_mcp_'' @ rand) ''mcp_tool_call'' (mi_requestedByUserId inp)
        (Some (mi_requestHash inp)) (mi_requestedByMcpTokenId inp)) (mi_args inp),
      aw_resolution = JNull, aw_createdAt = now, aw_updatedAt = now\<rparr>"

definition createMcpApproval ::
    "'s approvals \<Rightarrow> mcp_input \<Rightarrow> string \<Rightarrow> string \<Rightarrow> int \<Rightarrow> 's \<Rightarrow> (db_error + approval_record) \<times> 's" where
  "createMcpApproval as inp newId rand now s =
     (case findPendingByRequestHash as (mi_scope inp) (mi_requestHash inp) now s of
        Inl e \<Rightarrow> (Inl e, s)
      | Inr (Some existing) \<Rightarrow> (Inr existing, s)
      | Inr None \<Rightarrow> (case create (as_table as) (mcp_row inp newId rand now) s of
           Inr s' \<Rightarrow> (Inr (toRecord as (mi_scope inp) (mcp_row inp newId rand now) now), s')
         | Inl err \<Rightarrow> (case findPendingByRequestHash as (mi_scope inp) (mi_requestHash inp) now s of
              Inl e \<Rightarrow> (Inl e, s) | Inr (Some fallback) \<Rightarrow> (Inr fallback, s) | Inr None \<Rightarrow> (Inl err, s))))"

definition consume_write :: "'s approvals \<Rightarrow> approval_row \<Rightarrow> jsval \<Rightarrow> int \<Rightarrow> 's \<Rightarrow> 's" where
  "consume_write as read resolution now s =
     (let (md, val) = readArguments (aw_arguments read)
      in case updateMany (as_table as) (\<lambda>row. aw_id row = aw_id read)
           (\<lambda>row. row\<lparr>aw_arguments := storeArguments (AList.update ''consumedAt'' (JStr (as_iso as now)) md) val,
              aw_resolution := opt_else (jsonObject resolution) (aw_resolution row), aw_updatedAt := now\<rparr>) s of
           Inl e \<Rightarrow> s | Inr (n, s') \<Rightarrow> s')"

definition markMcpConsumed :: "'s approvals \<Rightarrow> scope_tuple \<Rightarrow> string \<Rightarrow> jsval \<Rightarrow> int \<Rightarrow> 's \<Rightarrow> 's" where
  "markMcpConsumed as scope approvalId resolution now s =
     (case findRawByApprovalId as scope approvalId s of
        Inr (Some row) \<Rightarrow> consume_write as row resolution now s | _ \<Rightarrow> s)"

text \<open>Rows of a scope with an approval id, and whether a row's approval was spent.\<close>

definition approval_matches :: "'s approvals \<Rightarrow> scope_tuple \<Rightarrow> string \<Rightarrow> approval_row \<Rightarrow> bool" where
  "approval_matches as scope i row = (environmentScopeWhere as scope row \<and> metadataWhere ''approvalId'' i row)"

definition consumed :: "approval_row \<Rightarrow> bool" where
  "consumed row = js_truthy (js_get (fst (readArguments (aw_arguments row))) ''consumedAt'')"

lemma readArguments_stored:
  "js_truthy (js_get md ''approvalId'') \<Longrightarrow> readArguments (storeArguments md val) = (md, or_null val)"
  by (simp add: readArguments_def storeArguments_def js_get_def)

lemma readArguments_matches:
  assumes "approval_matches as scope i row" "i \<noteq> []"
  shows "js_get (fst (readArguments (aw_arguments row))) ''approvalId'' = JStr i"
  using assms by (auto simp: approval_matches_def metadataWhere_def metadata_of_def readArguments_def js_get_def
      split: jsval.splits option.splits)

section \<open>The contract of the table\<close>

locale approval_store = prisma_table "as_table as" rows aw_id
  for as :: "'s approvals" and rows :: "'s \<Rightarrow> approval_row multiset" +
  assumes newest_none: "as_newest as p s = Inr None \<Longrightarrow> \<forall>r. r \<in># rows s \<longrightarrow> \<not> p r"
    and newest_some: "as_newest as p s = Inr (Some r) \<Longrightarrow> r \<in># rows s \<and> p r \<and>
      (\<forall>r'. r' \<in># rows s \<longrightarrow> p r' \<longrightarrow> aw_createdAt r' \<le> aw_createdAt r)"
    and paged: "as_page as p n k s = Inr rs \<Longrightarrow> length rs \<le> n \<and> (\<forall>r. r \<in> set rs \<longrightarrow> r \<in># rows s \<and> p r)"
    and counted: "as_count as p s = Inr n \<Longrightarrow> n = size (filter_mset p (rows s))"

section \<open>Interleavings\<close>

text \<open>
  One step is one statement that writes. A write whose row was read earlier takes that row
  as an argument, whatever happened to the table since, so a run of steps is any interleaving
  of the service's operations.
\<close>

definition decisive :: "string \<Rightarrow> bool" where
  "decisive status = (databaseStatus status \<noteq> PENDING)"

inductive approvals_step :: "'s approvals \<Rightarrow> 's \<Rightarrow> 's \<Rightarrow> bool" for as where
  open_step: "recordApproval as inp newId now s = (r, s') \<Longrightarrow> approvals_step as s s'"
| mcp_step: "createMcpApproval as mi newId rand now s = (a, s') \<Longrightarrow> approvals_step as s s'"
| resolve_step: "decisive (rs_status ri) \<Longrightarrow> resolve_write as ri read now s = (b, s') \<Longrightarrow> approvals_step as s s'"
| expire_step: "expire_write as expiredIds now s = (n, s') \<Longrightarrow> approvals_step as s s'"
| consume_step: "consume_write as read res now s = s' \<Longrightarrow> approvals_step as s s'"

definition decision_of :: "approval_row \<Rightarrow> database_status \<times> string option \<times> string option \<times> int option" where
  "decision_of row = (aw_status row, aw_respondedBy row, aw_comment row, aw_resolvedAt row)"

text \<open>No statement is rejected.\<close>

definition accepting :: "'s approvals \<Rightarrow> bool" where
  "accepting as \<longleftrightarrow> (\<forall>p s. \<exists>r. findFirst (as_table as) p s = Inr r) \<and> (\<forall>p s. \<exists>rs. findMany (as_table as) p s = Inr rs) \<and>
     (\<forall>p f s. \<exists>res. updateMany (as_table as) p f s = Inr res)"

lemma accepting_first: "accepting as \<Longrightarrow> findFirst (as_table as) p s \<noteq> Inl e"
  unfolding accepting_def by (metis Inl_Inr_False)

lemma accepting_update: "accepting as \<Longrightarrow> updateMany (as_table as) p f s \<noteq> Inl e"
  unfolding accepting_def by (metis Inl_Inr_False)

text \<open>A row is sealed by its decision.\<close>

definition seal_of :: "approval_row \<Rightarrow> (database_status \<times> string option \<times> string option \<times> int option) option" where
  "seal_of row = (if aw_status row = PENDING then None else Some (decision_of row))"

lemma resolved_row_simps [simp]:
  "aw_id (resolved_row inp read now r) = aw_id r"
  "aw_status (resolved_row inp read now r) = databaseStatus (rs_status inp)"
  "decision_of (resolved_row inp read now r) =
     (databaseStatus (rs_status inp), rs_respondedBy inp, rs_comment inp, Some now)"
  by (simp_all add: resolved_row_def decision_of_def Let_def split: prod.splits)

lemma expired_row_simps [simp]:
  "aw_id (expired_row now r) = aw_id r" "aw_status (expired_row now r) = EXPIRED"
  "aw_environmentId (expired_row now r) = aw_environmentId r"
  by (simp_all add: expired_row_def)

lemma inj_on_keep: "inj_on key A \<Longrightarrow> (\<And>r. key (f r) = key r) \<Longrightarrow> inj_on key (f ` A)"
  unfolding inj_on_def by (metis imageE)

lemma toRecord_simps [simp]:
  "ap_id (toRecord as sc row now) = aw_id row"
  "ap_expired (toRecord as sc row now) \<longleftrightarrow> aw_status row = PENDING \<and> now \<ge> deadlineMs row"
  "ap_status (toRecord as sc row now) = publicStatus (aw_status row)"
  "ap_toolName (toRecord as sc row now) = aw_toolName row"
  by (cases "aw_status row"; simp add: toRecord_def Let_def split: prod.splits)+

lemma resolve_run: "decisive (rs_status inp) \<Longrightarrow> resolve as inp now s = (b, s') \<Longrightarrow> (approvals_step as)\<^sup>*\<^sup>* s s'"
  by (auto simp: resolve_def split: sum.splits option.splits if_splits intro: resolve_step)

lemma sweep_run: "sweepExpired as sc now s = (n, s') \<Longrightarrow> (approvals_step as)\<^sup>*\<^sup>* s s'"
  by (auto simp: sweepExpired_def Let_def split: sum.splits if_splits intro: expire_step)

lemma sweep_scopes_run: "sweep_scopes as scs now s = (n, s') \<Longrightarrow> (approvals_step as)\<^sup>*\<^sup>* s s'"
proof (induction scs arbitrary: s n)
  case (Cons sc scs)
  then show ?case by (auto split: prod.splits intro: rtranclp_trans [OF sweep_run])
qed simp

lemma sweep_all_run: "sweepExpiredAllScopes as now s = (n, s') \<Longrightarrow> (approvals_step as)\<^sup>*\<^sup>* s s'"
  by (auto simp: sweepExpiredAllScopes_def Let_def split: sum.splits prod.splits intro: sweep_scopes_run)

lemma consumed_run: "markMcpConsumed as sc i res now s = s' \<Longrightarrow> (approvals_step as)\<^sup>*\<^sup>* s s'"
  by (auto simp: markMcpConsumed_def split: sum.splits option.splits intro: consume_step)

lemma createMcp_cases:
  assumes "createMcpApproval as inp newId rand now s = (a, s')"
  shows "s' = s \<or> create (as_table as) (mcp_row inp newId rand now) s = Inr s'"
  using assms by (auto simp: createMcpApproval_def split: sum.splits option.splits)

lemma record_cases:
  assumes "recordApproval as inp newId now s = (a, s')"
  shows "s' = s \<or> (\<exists>row. create (as_table as) row s = Inr s')"
  using assms by (auto simp: recordApproval_def split: sum.splits)

context approval_store
begin

lemma update_seals:
  assumes "case updateMany (as_table as) p g s of Inl e \<Rightarrow> s' = s | Inr (n, t) \<Rightarrow> s' = t"
    and "\<And>r. aw_id (g r) = aw_id r" "\<And>r. p r \<Longrightarrow> seal_of r \<noteq> None \<Longrightarrow> seal_of (g r) = seal_of r"
  shows "ledger_write aw_id seal_of (rows s) (rows s')"
proof (cases "updateMany (as_table as) p g s")
  case (Inl e)
  then show ?thesis using assms(1) by (simp add: ledger_same)
next
  case (Inr res)
  then obtain n where u: "updateMany (as_table as) p g s = Inr (n, s')" using assms(1) by (cases res) simp
  show ?thesis by (rule ledger_update [OF prisma_table_axioms u]) (fact assms)+
qed

end

sublocale approval_store \<subseteq> led: sealed_ledger rows aw_id seal_of "approvals_step as"
proof
  fix s s' assume "approvals_step as s s'"
  then show "ledger_write aw_id seal_of (rows s) (rows s')"
  proof cases
    case (open_step inp newId now r)
    then show ?thesis using record_cases [OF open_step] ledger_create [OF prisma_table_axioms] ledger_same by metis
  next
    case (mcp_step mi newId rand now a)
    then show ?thesis using createMcp_cases [OF mcp_step] ledger_create [OF prisma_table_axioms] ledger_same by metis
  next
    case (resolve_step ri read now b)
    show ?thesis
      by (rule update_seals [where p = "\<lambda>row. aw_id row = aw_id read \<and> aw_status row = PENDING" and g = "resolved_row ri read now"])
        (use resolve_step(2) in \<open>auto simp: resolve_write_def seal_of_def split: sum.splits\<close>)
  next
    case (expire_step expiredIds now n)
    show ?thesis
      by (rule update_seals [where p = "\<lambda>row. aw_id row \<in> set expiredIds \<and> aw_status row = PENDING" and g = "expired_row now"])
        (use expire_step in \<open>auto simp: expire_write_def seal_of_def split: sum.splits\<close>)
  next
    case (consume_step read res now)
    obtain md val where mv: "readArguments (aw_arguments read) = (md, val)" by fastforce
    show ?thesis
      by (rule update_seals [where p = "\<lambda>row. aw_id row = aw_id read" and
            g = "\<lambda>row. row\<lparr>aw_arguments := storeArguments (AList.update ''consumedAt'' (JStr (as_iso as now)) md) val,
              aw_resolution := opt_else (jsonObject res) (aw_resolution row), aw_updatedAt := now\<rparr>"])
        (use consume_step mv in \<open>auto simp: consume_write_def seal_of_def decision_of_def split: sum.splits\<close>)
  qed
qed

context approval_store
begin

lemma axioms_ledger: "sealed_ledger rows aw_id seal_of (approvals_step as)"
  by (rule led.sealed_ledger_axioms)

lemma closed_refuses: "sealed_key aw_id seal_of (rows s) (aw_id read) \<Longrightarrow> \<not> fst (resolve_write as inp read now s)"
proof (cases "updateMany (as_table as) (\<lambda>row. aw_id row = aw_id read \<and> aw_status row = PENDING)
    (resolved_row inp read now) s")
  case (Inr p)
  assume cl: "sealed_key aw_id seal_of (rows s) (aw_id read)"
  obtain n t where p: "p = (n, t)" by (cases p)
  have "n = 0" using updated_positive [OF Inr [unfolded p]] cl by (auto simp: sealed_key_def seal_of_def)
  then show ?thesis using Inr p by (simp add: resolve_write_def)
qed (simp add: resolve_write_def)

lemma resolve_wins:
  assumes "resolve as inp now s = (True, s1)" "decisive (rs_status inp)"
  obtains r where "r \<in># rows s" "aw_status r = PENDING" "environmentScopeWhere as (rs_scope inp) r"
    "metadataWhere ''approvalId'' (rs_approvalId inp) r" "resolved_row inp r now r \<in># rows s1" "sealed_key aw_id seal_of (rows s1) (aw_id r)"
proof -
  obtain r where r: "findRawByApprovalId as (rs_scope inp) (rs_approvalId inp) s = Inr (Some r)"
    "aw_status r = PENDING" "resolve_write as inp r now s = (True, s1)"
    using assms(1) by (auto simp: resolve_def split: sum.splits option.splits if_splits)
  note row = first_some [OF r(1) [unfolded findRawByApprovalId_def]]
  obtain n where u: "updateMany (as_table as) (\<lambda>row. aw_id row = aw_id r \<and> aw_status row = PENDING)
      (resolved_row inp r now) s = Inr (n, s1)"
    using r(3) by (auto simp: resolve_write_def split: sum.splits)
  have hit: "resolved_row inp r now r \<in># rows s1"
    using updated_hit [OF u] row r(2) by blast
  moreover have "sealed_key aw_id seal_of (rows s1) (aw_id r)"
    unfolding sealed_key_def
  proof (intro conjI allI impI)
    show "aw_id r \<in> aw_id ` set_mset (rows s1)" using hit by (force intro: image_eqI [of _ _ "resolved_row inp r now r"])
    fix x assume "x \<in># rows s1" "aw_id x = aw_id r"
    then show "seal_of x \<noteq> None" using updated_row [OF u, of x] assms(2)
      by (auto simp: decisive_def seal_of_def simp del: split_paired_Ex)
  qed
  ultimately show ?thesis using that row r(2) by blast
qed

lemma getById_row:
  assumes "getById as scope i now s = Inr (Some a)"
  obtains r where "r \<in># rows s" "approval_matches as scope i r" "a = toRecord as scope r now"
proof -
  obtain r where "findRawByApprovalId as scope i s = Inr (Some r)" "a = toRecord as scope r now"
    using assms by (cases "findRawByApprovalId as scope i s") (auto simp: getById_def)
  then show ?thesis using that first_some by (auto simp: findRawByApprovalId_def approval_matches_def)
qed

lemma consumed_marks:
  assumes acc: "accepting as" and i: "i \<noteq> []" and iso: "as_iso as now \<noteq> []"
    and uniq: "\<And>r r'. r \<in># rows s \<Longrightarrow> r' \<in># rows s \<Longrightarrow> approval_matches as scope i r \<Longrightarrow> approval_matches as scope i r' \<Longrightarrow> r = r'"
    and r: "r \<in># rows (markMcpConsumed as scope i res now s)" "approval_matches as scope i r"
  shows "consumed r"
proof (cases "findRawByApprovalId as scope i s")
  case (Inr found)
  show ?thesis
  proof (cases found)
    case None
    then show ?thesis using first_none [OF Inr [unfolded None findRawByApprovalId_def]] r Inr
      by (auto simp: markMcpConsumed_def approval_matches_def)
  next
    case (Some row)
    have row: "row \<in># rows s" "approval_matches as scope i row"
      using first_some [OF Inr [unfolded Some findRawByApprovalId_def]] by (auto simp: approval_matches_def)
    obtain md val where mv: "readArguments (aw_arguments row) = (md, val)" by fastforce
    let ?upd = "\<lambda>row. row\<lparr>aw_arguments := storeArguments (AList.update ''consumedAt'' (JStr (as_iso as now)) md) val,
      aw_resolution := opt_else (jsonObject res) (aw_resolution row), aw_updatedAt := now\<rparr>"
    obtain n s' where u: "updateMany (as_table as) (\<lambda>x. aw_id x = aw_id row) ?upd s = Inr (n, s')"
      using acc unfolding accepting_def by fastforce
    then have s': "markMcpConsumed as scope i res now s = s'"
      using Inr Some mv by (simp add: markMcpConsumed_def consume_write_def)
    have "js_get md ''approvalId'' = JStr i" using readArguments_matches [OF row(2) i] mv by simp
    then have spent: "consumed (?upd x)" for x
      using i iso by (simp add: consumed_def readArguments_stored js_get_def)
    from updated_row [OF u r(1) [unfolded s']] show ?thesis using spent uniq row r(2) by auto
  qed
next
  case (Inl e)
  then show ?thesis using accepting_first [OF acc] by (simp add: findRawByApprovalId_def)
qed

lemma sweep_effect:
  assumes acc: "accepting as" and uniq: "inj_on aw_id (set_mset (rows s))"
    and sw: "sweepExpired as sc now s = (n, s')"
  shows "rows s' = image_mset (\<lambda>r. if environmentScopeWhere as sc r \<and> aw_status r = PENDING \<and> overdue now r
    then expired_row now r else r) (rows s)"
proof -
  let ?p = "\<lambda>row. environmentScopeWhere as sc row \<and> aw_status row = PENDING"
  obtain rs where rs: "findMany (as_table as) ?p s = Inr rs" using acc unfolding accepting_def by blast
  define expiredIds where "expiredIds = map aw_id (filter (overdue now) rs)"
  have ids: "aw_id r \<in> set expiredIds \<longleftrightarrow> ?p r \<and> overdue now r" if "r \<in># rows s" for r
    using many_iff [OF rs] that uniq by (auto simp: expiredIds_def inj_on_def)
  show ?thesis
  proof (cases "expiredIds = []")
    case True
    then have "s' = s" using sw rs by (simp add: sweepExpired_def expiredIds_def Let_def)
    moreover have "image_mset (\<lambda>r. if ?p r \<and> overdue now r then expired_row now r else r) (rows s) =
        image_mset (\<lambda>r. r) (rows s)"
      by (rule image_mset_cong) (use ids True in auto)
    ultimately show ?thesis by (simp add: conj_assoc)
  next
    case False
    then have "updateMany (as_table as) (\<lambda>row. aw_id row \<in> set expiredIds \<and> aw_status row = PENDING)
        (expired_row now) s = Inr (n, s')"
      using sw rs accepting_update [OF acc]
      by (auto simp: sweepExpired_def expire_write_def expiredIds_def [symmetric] Let_def split: sum.splits)
    then have "rows s' = image_mset (\<lambda>r. if aw_id r \<in> set expiredIds \<and> aw_status r = PENDING
        then expired_row now r else r) (rows s)" by (simp add: updated)
    also have "\<dots> = image_mset (\<lambda>r. if environmentScopeWhere as sc r \<and> aw_status r = PENDING \<and> overdue now r
        then expired_row now r else r) (rows s)"
      by (rule image_mset_cong) (use ids in auto)
    finally show ?thesis .
  qed
qed

lemma sweep_scopes_effect:
  assumes "accepting as" "inj_on aw_id (set_mset (rows s))" "sweep_scopes as scs now s = (res, s')"
  shows "rows s' = image_mset (\<lambda>r. if list_ex (\<lambda>sc. environmentScopeWhere as sc r) scs \<and>
    aw_status r = PENDING \<and> overdue now r then expired_row now r else r) (rows s)"
  using assms(2,3)
proof (induction scs arbitrary: s res)
  case (Cons sc scs)
  obtain n t res' where t: "sweepExpired as sc now s = (n, t)" "sweep_scopes as scs now t = (res', s')"
    using Cons.prems(2) by (auto split: prod.splits)
  note rt = sweep_effect [OF assms(1) Cons.prems(1) t(1)]
  have "inj_on aw_id (set_mset (rows t))"
    unfolding rt set_image_mset by (rule inj_on_keep [OF Cons.prems(1)]) simp
  note rs = Cons.IH [OF this t(2)]
  show ?case unfolding rs unfolding rt multiset.map_comp
    by (rule image_mset_cong) (auto simp: environmentScopeWhere_def)
qed simp

lemma sweep_all_effect:
  assumes acc: "accepting as" and uniq: "inj_on aw_id (set_mset (rows s))"
    and sw: "sweepExpiredAllScopes as now s = (out, s')"
  shows "rows s' = image_mset (\<lambda>r. if aw_status r = PENDING \<and> overdue now r then expired_row now r else r) (rows s)"
proof -
  obtain rs where rs: "findMany (as_table as) (\<lambda>row. aw_status row = PENDING) s = Inr rs"
    using acc unfolding accepting_def by blast
  let ?scs = "map (scope_of_environment as) (nub (map aw_environmentId rs))"
  obtain res where sc: "sweep_scopes as ?scs now s = (res, s')"
    using sw rs by (auto simp: sweepExpiredAllScopes_def Let_def split: prod.splits)
  have own: "list_ex (\<lambda>sc. environmentScopeWhere as sc r) ?scs" if "r \<in># rows s" "aw_status r = PENDING" for r
    using many_iff [OF rs, of r] that
    by (auto simp: list_ex_iff environmentScopeWhere_def scope_of_environment_def split: prod.splits)
  show ?thesis unfolding sweep_scopes_effect [OF acc uniq sc]
    by (rule image_mset_cong) (use own in auto)
qed

lemma mcp_rejoins:
  assumes anc: "as_ancestry as (sc_environmentId (mi_scope inp)) = (sc_projectId (mi_scope inp), sc_organizationId (mi_scope inp))"
    and clk: "\<And>r. r \<in># rows s \<Longrightarrow> aw_createdAt r < now"
    and c1: "createMcpApproval as inp i1 rd1 now s = (Inr a, s')"
    and live: "\<And>r. r \<in># rows s' \<Longrightarrow> aw_id r = ap_id a \<Longrightarrow> now2 < deadlineMs r"
    and c2: "createMcpApproval as inp i2 rd2 now2 s' = (Inr b, s2)"
  shows "s2 = s' \<and> ap_id b = ap_id a"
proof -
  let ?p = "pending_request as (mi_scope inp) (mi_requestHash inp)"
  have rejoin: ?thesis if "as_newest as ?p s' = Inr (Some r)" "aw_id r = ap_id a" for r
    using c2 that live [of r] newest_some [OF that(1)]
    by (auto simp: createMcpApproval_def findPendingByRequestHash_def Let_def pending_request_def)
  show ?thesis
  proof (cases "s' = s")
    case True
    then have "create (as_table as) (mcp_row inp i1 rd1 now) s \<noteq> Inr s'" using created by fastforce
    with True obtain r where "as_newest as ?p s' = Inr (Some r)" "aw_id r = ap_id a"
      using c1 by (auto simp: createMcpApproval_def findPendingByRequestHash_def Let_def map_res_def
          split: sum.splits option.splits if_splits)
    then show ?thesis by (rule rejoin)
  next
    case False
    then have cr: "create (as_table as) (mcp_row inp i1 rd1 now) s = Inr s'" "ap_id a = i1"
      using c1 by (auto simp: createMcpApproval_def mcp_row_def split: sum.splits option.splits)
    have new: "mcp_row inp i1 rd1 now \<in># rows s'" "?p (mcp_row inp i1 rd1 now)"
      using created [OF cr(1)] anc
      by (simp_all add: pending_request_def environmentScopeWhere_def metadataWhere_def metadata_of_def mcp_row_def
          storeArguments_def metadata_def js_get_def opt_str_def)
    obtain f where f: "as_newest as ?p s' = Inr f"
      using c2 by (cases "as_newest as ?p s'") (simp_all add: createMcpApproval_def findPendingByRequestHash_def)
    obtain r where r: "f = Some r" using newest_none [of ?p s'] f new by (cases f) auto
    have "now \<le> aw_createdAt r" using newest_some [OF f [unfolded r]] new by (fastforce simp: mcp_row_def)
    then have "r = mcp_row inp i1 rd1 now"
      using newest_some [OF f [unfolded r]] created [OF cr(1)] clk [of r] by auto
    then show ?thesis using rejoin [OF f [unfolded r]] cr(2) by (simp add: mcp_row_def)
  qed
qed

end

section \<open>The table double\<close>

definition newer :: "approval_row \<Rightarrow> approval_row \<Rightarrow> bool" where
  "newer a b = (aw_createdAt b \<le> aw_createdAt a)"

definition double_newest :: "(approval_row \<Rightarrow> bool) \<Rightarrow> approval_row list \<Rightarrow> db_error + approval_row option" where
  "double_newest w rs = Inr (case sort_by newer (filter w rs) of [] \<Rightarrow> None | r # _ \<Rightarrow> Some r)"

definition double_approvals :: "(string \<Rightarrow> string \<times> string) \<Rightarrow> (int \<Rightarrow> string) \<Rightarrow> approval_row list approvals" where
  "double_approvals ancestry prt = \<lparr>as_table = double_table aw_id, as_newest = double_newest,
     as_page = (\<lambda>w n k rs. Inr (take n (drop k (sort_by newer (filter w rs))))),
     as_count = (\<lambda>w rs. Inr (length (filter w rs))), as_ancestry = ancestry, as_iso = prt\<rparr>"

lemma newer_order: "total_preorder newer"
  by (auto simp: total_preorder_def newer_def)

lemma double_newest_first:
  assumes "sort_by newer (filter w rs) = r # rest"
  shows "r \<in> set rs \<and> w r \<and> (\<forall>r'. r' \<in> set rs \<longrightarrow> w r' \<longrightarrow> aw_createdAt r' \<le> aw_createdAt r)"
proof -
  have "set (sort_by newer (filter w rs)) = {x \<in> set rs. w x}" by simp
  moreover have "sorted_wrt newer (r # rest)" using sorted_sort_by [OF newer_order, of "filter w rs"] assms by simp
  ultimately show ?thesis using assms by (auto simp: newer_def)
qed

lemma double_approvals_sel [simp]:
  "as_table (double_approvals ancestry prt) = double_table aw_id"
  "as_newest (double_approvals ancestry prt) = double_newest"
  "as_ancestry (double_approvals ancestry prt) = ancestry"
  by (simp_all add: double_approvals_def)

interpretation apr: approval_store "double_approvals ancestry prt" mset
proof (unfold approval_store_def double_approvals_sel, intro conjI dbl.prisma_table_axioms, unfold_locales)
  fix p :: "approval_row \<Rightarrow> bool" and s :: "approval_row list"
  assume "as_newest (double_approvals ancestry prt) p s = Inr None"
  then have "sort_by newer (filter p s) = []" by (simp add: double_newest_def split: list.splits)
  then have "filter p s = []" by (metis length_sort_by length_0_conv)
  then show "\<forall>r. r \<in># mset s \<longrightarrow> \<not> p r" by (simp add: filter_empty_conv)
next
  fix p :: "approval_row \<Rightarrow> bool" and s :: "approval_row list" and r
  assume "as_newest (double_approvals ancestry prt) p s = Inr (Some r)"
  then show "r \<in># mset s \<and> p r \<and> (\<forall>r'. r' \<in># mset s \<longrightarrow> p r' \<longrightarrow> aw_createdAt r' \<le> aw_createdAt r)"
    using double_newest_first by (auto simp: double_newest_def split: list.splits)
next
  fix p :: "approval_row \<Rightarrow> bool" and s rs :: "approval_row list" and n k :: nat
  assume "as_page (double_approvals ancestry prt) p n k s = Inr rs"
  then have "rs = take n (drop k (sort_by newer (filter p s)))" by (simp add: double_approvals_def)
  then show "length rs \<le> n \<and> (\<forall>r. r \<in> set rs \<longrightarrow> r \<in># mset s \<and> p r)"
    by (auto dest!: in_set_takeD in_set_dropD)
next
  fix p :: "approval_row \<Rightarrow> bool" and s :: "approval_row list" and n :: nat
  assume "as_count (double_approvals ancestry prt) p s = Inr n"
  then show "n = size (filter_mset p (mset s))" by (simp add: double_approvals_def flip: mset_filter)
qed

lemma double_accepting: "accepting (double_approvals ancestry prt)"
  by (simp add: accepting_def double_defs)

section \<open>A concrete ledger\<close>

definition w_scope :: scope_tuple where
  "w_scope = \<lparr>sc_organizationId = ''o'', sc_projectId = ''p'', sc_environmentId = ''e''\<rparr>"

definition w_approvals :: "approval_row list approvals" where
  "w_approvals = double_approvals (\<lambda>_. (''p'', ''o'')) (\<lambda>_. ''t'')"

definition w_request :: mcp_input where
  "w_request = \<lparr>mi_scope = w_scope, mi_toolName = ''gdpr.erase'', mi_args = JObj [(''user'', JStr ''alice'')],
     mi_requestHash = ''h'', mi_requestedByUserId = Some ''u'', mi_requestedByMcpTokenId = Some ''k'',
     mi_timeoutSeconds = Some 60, mi_actionLabel = None\<rparr>"

definition w_opened :: "approval_row list" where
  "w_opened = snd (createMcpApproval w_approvals w_request ''1'' ''7'' 1 [])"

definition w_approve :: resolve_input where
  "w_approve = \<lparr>rs_scope = w_scope, rs_approvalId = ''appr_mcp_7'', rs_status = ''approved'', rs_respondedBy = Some ''op'',
     rs_comment = None, rs_editedArgs = None, rs_editedByUserId = None\<rparr>"

definition w_approved :: "approval_row list" where
  "w_approved = snd (resolve w_approvals w_approve 5 w_opened)"

lemma w_store: "approval_store w_approvals mset"
  unfolding w_approvals_def by (rule apr.approval_store_axioms)

lemma w_opened_eq: "w_opened = [mcp_row w_request ''1'' ''7'' 1]"
  by code_simp

section \<open>Properties\<close>

text \<open>
  C4: A decision is taken once and stays. When \<open>resolve\<close> reports success, a pending row of
  the caller's scope with that approval id took the decision; after any interleaving of
  further operations the row still carries the decision, its author, comment and time, and
  no other resolution of that row succeeds, not even one that read the row while it was
  still pending.
\<close>

theorem resolve_once:
  assumes "approval_store as rows" "decisive (rs_status inp)"
    and "resolve as inp now s = (True, s1)" "(approvals_step as)\<^sup>*\<^sup>* s1 s2"
  shows "\<exists>r. r \<in># rows s \<and> aw_status r = PENDING \<and> environmentScopeWhere as (rs_scope inp) r \<and>
    metadataWhere ''approvalId'' (rs_approvalId inp) r \<and>
    (\<exists>r'. r' \<in># rows s2 \<and> aw_id r' = aw_id r \<and>
       decision_of r' = (databaseStatus (rs_status inp), rs_respondedBy inp, rs_comment inp, Some now)) \<and>
    (\<forall>inp2 read2 now2. aw_id read2 = aw_id r \<longrightarrow> \<not> fst (resolve_write as inp2 read2 now2 s2))"
proof -
  obtain r where r: "r \<in># rows s" "aw_status r = PENDING" "environmentScopeWhere as (rs_scope inp) r"
    "metadataWhere ''approvalId'' (rs_approvalId inp) r" "resolved_row inp r now r \<in># rows s1" "sealed_key aw_id seal_of (rows s1) (aw_id r)"
    by (rule approval_store.resolve_wins [OF assms(1,3,2)])
  let ?d = "(databaseStatus (rs_status inp), rs_respondedBy inp, rs_comment inp, Some now)"
  have ledger: "sealed_ledger rows aw_id seal_of (approvals_step as)"
    using assms(1) by (rule approval_store.axioms_ledger)
  have "seal_of (resolved_row inp r now r) = Some ?d" using assms(2) by (simp add: decisive_def seal_of_def)
  then obtain r' where r': "r' \<in># rows s2" "aw_id r' = aw_id r" "seal_of r' = Some ?d"
    using sealed_ledger.seal_run [OF ledger assms(4) r(5)] by auto
  then have kept: "decision_of r' = ?d" by (simp add: seal_of_def split: if_splits)
  note shut = sealed_ledger.sealed_run [OF ledger assms(4) r(6)]
  have "\<not> fst (resolve_write as inp2 read2 now2 s2)" if "aw_id read2 = aw_id r" for inp2 read2 now2
    by (rule approval_store.closed_refuses [OF assms(1)]) (simp add: that shut)
  with r r' kept show ?thesis by blast
qed

theorem resolve_once_witness:
  "fst (resolve w_approvals w_approve 5 w_opened) \<and>
   \<not> fst (resolve_write w_approvals w_approve (mcp_row w_request ''1'' ''7'' 1) 6 w_approved)"
proof
  show won: "fst (resolve w_approvals w_approve 5 w_opened)" by code_simp
  then have "resolve w_approvals w_approve 5 w_opened = (True, w_approved)"
    by (simp add: w_approved_def prod_eq_iff)
  moreover have "decisive (rs_status w_approve)" by code_simp
  ultimately obtain r where "r \<in># mset w_opened"
    "\<forall>inp2 read2 now2. aw_id read2 = aw_id r \<longrightarrow> \<not> fst (resolve_write w_approvals inp2 read2 now2 w_approved)"
    using resolve_once [OF w_store, of w_approve 5 w_opened w_approved w_approved] by blast
  then show "\<not> fst (resolve_write w_approvals w_approve (mcp_row w_request ''1'' ''7'' 1) 6 w_approved)"
    by (auto simp: w_opened_eq)
qed

text \<open>
  C31: The sweep over all scopes expires exactly the approvals that are overdue: every
  pending row whose time ran out is closed, in whatever scope it lives, and no other row is
  touched. The hypotheses say that ids are unique and that no statement is rejected (a
  rejected statement makes the sweep report zero for that scope and leave it to the next one).
\<close>

theorem sweep_exact:
  assumes "approval_store as rows" "accepting as" "inj_on aw_id (set_mset (rows s))"
    and "sweepExpiredAllScopes as now s = (out, s')"
  shows "rows s' = image_mset (\<lambda>r. if aw_status r = PENDING \<and> overdue now r then expired_row now r else r) (rows s)"
  using assms(1) by (rule approval_store.sweep_all_effect) (fact assms)+

theorem sweep_exact_witness:
  "mset (snd (sweepExpiredAllScopes w_approvals 60002 w_opened)) = {#expired_row 60002 (mcp_row w_request ''1'' ''7'' 1)#}"
proof -
  have "aw_status (mcp_row w_request ''1'' ''7'' 1) = PENDING \<and> overdue 60002 (mcp_row w_request ''1'' ''7'' 1)"
    by code_simp
  then show ?thesis
    using sweep_exact [OF w_store, of w_opened 60002]
    by (simp add: w_opened_eq w_approvals_def double_accepting prod_eq_iff)
qed

text \<open>
  A retried tool call rejoins its approval. After \<open>createMcpApproval\<close> returned an
  approval, a repeat of the same request before that approval's deadline opens no second row
  and returns the same approval. The hypotheses say that the scope names the environment's
  own project and organization, and that earlier rows have earlier creation times.
\<close>

lemma mcp_retry_rejoins:
  assumes "approval_store as rows"
    and "as_ancestry as (sc_environmentId (mi_scope inp)) = (sc_projectId (mi_scope inp), sc_organizationId (mi_scope inp))"
    and "\<And>r. r \<in># rows s \<Longrightarrow> aw_createdAt r < now"
    and "createMcpApproval as inp i1 rd1 now s = (Inr a, s')"
    and "\<And>r. r \<in># rows s' \<Longrightarrow> aw_id r = ap_id a \<Longrightarrow> now2 < deadlineMs r"
    and "createMcpApproval as inp i2 rd2 now2 s' = (Inr b, s2)"
  shows "s2 = s' \<and> ap_id b = ap_id a"
  using assms(1) by (rule approval_store.mcp_rejoins) (fact assms)+

end
