(* ===== verification/SchemaValidator.thy ===== *)
theory SchemaValidator
  imports JsValue
begin

text \<open>
  \<open>apps/agent/src/mcp-platform/schema-validator.ts\<close>: the JSON Schema subset that checks the
  arguments of every tool call. \<open>validateNode\<close> collects the errors of a value against a
  schema, both JavaScript values; its recursion follows the schema and ends by its size. The
  printer of numbers \<open>ns\<close> and \<open>Date.parse\<close> (\<open>dp\<close>) are parameters. \<open>conforms\<close> says what a
  schema means, without paths or messages, and the validator accepts exactly what conforms.
\<close>

section \<open>Types and equality\<close>

definition is_integer :: "jsval \<Rightarrow> bool" where
  "is_integer v = (case v of JNum (Fin q) \<Rightarrow> of_int \<lfloor>q\<rfloor> = q | _ \<Rightarrow> False)"

definition is_array :: "jsval \<Rightarrow> bool" where
  "is_array v = (case v of JArr _ \<Rightarrow> True | _ \<Rightarrow> False)"

definition typeOfValue :: "jsval \<Rightarrow> string" where
  "typeOfValue v = (if v = JNull then ''null'' else if is_array v then ''array''
     else if is_integer v then ''integer'' else js_typeof v)"

fun typeMatches :: "jsval \<Rightarrow> jsval \<Rightarrow> bool" where
  "typeMatches (JArr ts) v = list_ex (\<lambda>t. typeMatches t v) ts"
| "typeMatches (JStr want) v =
     (let got = typeOfValue v in
      if want = ''number'' then got = ''number'' \<or> got = ''integer''
      else if want = ''integer'' then got = ''integer'' else want = got)"
| "typeMatches _ v = False"

text \<open>\<open>o[k]\<close> and \<open>Object.keys(o)\<close> of an object or an array.\<close>

definition js_prop :: "jsval \<Rightarrow> string \<Rightarrow> jsval" where
  "js_prop v k = (case v of JObj fs \<Rightarrow> js_get fs k
     | JArr xs \<Rightarrow> (if k = ''length'' then JNum (Fin (of_nat (length xs)))
         else js_get (map (\<lambda>(i, x). (show_nat i, x)) (List.enumerate 0 xs)) k)
     | _ \<Rightarrow> JUndef)"

definition js_keys :: "jsval \<Rightarrow> string list" where
  "js_keys v = (case v of JObj fs \<Rightarrow> map fst fs | JArr xs \<Rightarrow> map show_nat [0..<length xs] | _ \<Rightarrow> [])"

definition strict_equal :: "jsval \<Rightarrow> jsval \<Rightarrow> bool" where
  "strict_equal a b = (case (a, b) of (JArr _, _) \<Rightarrow> False | (JObj _, _) \<Rightarrow> False
     | (JNum x, JNum y) \<Rightarrow> x \<noteq> NaN \<and> x = y | _ \<Rightarrow> a = b)"

text \<open>Two objects are never identical: one comes from the schema, the other from the call.\<close>

fun deepEqual :: "jsval \<Rightarrow> jsval \<Rightarrow> bool"
  and deep_items :: "jsval list \<Rightarrow> jsval list \<Rightarrow> bool"
  and deep_indices :: "nat \<Rightarrow> jsval list \<Rightarrow> jsval \<Rightarrow> bool"
  and deep_fields :: "(string \<times> jsval) list \<Rightarrow> jsval \<Rightarrow> bool" where
  "deepEqual (JArr xs) b = (case b of JArr ys \<Rightarrow> length xs = length ys \<and> deep_items xs ys
     | JObj fs \<Rightarrow> length xs = length fs \<and> deep_indices 0 xs b | _ \<Rightarrow> False)"
| "deepEqual (JObj fs) b = (js_typeof b = ''object'' \<and> b \<noteq> JNull \<and> length fs = length (js_keys b) \<and> deep_fields fs b)"
| "deepEqual a b = strict_equal a b"
| "deep_items (x # xs) (y # ys) = (deepEqual x y \<and> deep_items xs ys)"
| "deep_items _ _ = True"
| "deep_indices i [] b = True"
| "deep_indices i (x # xs) b = (deepEqual x (js_prop b (show_nat i)) \<and> deep_indices (Suc i) xs b)"
| "deep_fields [] b = True"
| "deep_fields ((k, v) # fs) b = (deepEqual v (js_prop b k) \<and> deep_fields fs b)"

section \<open>Facets\<close>

record validation_error =
  ve_path :: string
  ve_message :: string

definition at_path :: "string \<Rightarrow> string \<Rightarrow> validation_error" where
  "at_path path msg = \<lparr>ve_path = (if path = [] then ''(root)'' else path), ve_message = msg\<rparr>"

definition at_key :: "string \<Rightarrow> string \<Rightarrow> string" where
  "at_key path k = (if path = [] then k else path @ ''.'' @ k)"

definition show_num :: "(rat \<Rightarrow> string) \<Rightarrow> jsnum \<Rightarrow> string" where
  "show_num ns x = (case x of NaN \<Rightarrow> ''NaN'' | PInf \<Rightarrow> ''Infinity'' | NInf \<Rightarrow> ''-Infinity'' | Fin q \<Rightarrow> ns q)"

definition json_text :: "(rat \<Rightarrow> string) \<Rightarrow> jsval \<Rightarrow> string" where
  "json_text ns v = (case stringify ns v of None \<Rightarrow> ''undefined'' | Some t \<Rightarrow> t)"

fun num_less :: "jsnum \<Rightarrow> jsnum \<Rightarrow> bool" where
  "num_less NaN _ = False"
| "num_less _ NaN = False"
| "num_less _ NInf = False"
| "num_less NInf _ = True"
| "num_less PInf _ = False"
| "num_less (Fin _) PInf = True"
| "num_less (Fin a) (Fin b) = (a < b)"

definition len_num :: "'a list \<Rightarrow> jsnum" where
  "len_num xs = Fin (of_nat (length xs))"

text \<open>The pattern \<open>[^\s@]+@[^\s@]+\.[^\s@]+\<close>, anchored at both ends.\<close>

definition email_ok :: "string \<Rightarrow> bool" where
  "email_ok v = (case split_on (CHR ''@'') v of
     [l, d] \<Rightarrow> l \<noteq> [] \<and> list_all (\<lambda>c. \<not> js_ws c) v \<and> list_ex (\<lambda>i. d ! i = CHR ''.'') [1..<length d - 1]
   | _ \<Rightarrow> False)"

definition is_digit :: "char \<Rightarrow> bool" where
  "is_digit c = (c \<in> set ''0123456789'')"

definition date_prefix :: "string \<Rightarrow> bool" where
  "date_prefix v = (10 < length v \<and> list_all is_digit (take 4 v) \<and> v ! 4 = CHR ''-'' \<and> list_all is_digit (take 2 (drop 5 v)) \<and>
     v ! 7 = CHR ''-'' \<and> list_all is_digit (take 2 (drop 8 v)) \<and> v ! 10 = CHR ''T'')"

definition date_ok :: "(string \<Rightarrow> jsnum) \<Rightarrow> string \<Rightarrow> bool" where
  "date_ok dp v = (date_prefix v \<and> is_finite (dp v))"

definition bound_error :: "bool \<Rightarrow> string \<Rightarrow> string \<Rightarrow> validation_error list" where
  "bound_error bad path msg = (if bad then [at_path path msg] else [])"

definition below :: "(string \<times> jsval) list \<Rightarrow> string \<Rightarrow> jsnum \<Rightarrow> bool" where
  "below fs k x = (case js_get fs k of JNum y \<Rightarrow> num_less x y | _ \<Rightarrow> False)"

definition above :: "(string \<times> jsval) list \<Rightarrow> string \<Rightarrow> jsnum \<Rightarrow> bool" where
  "above fs k x = (case js_get fs k of JNum y \<Rightarrow> num_less y x | _ \<Rightarrow> False)"

definition shown :: "(rat \<Rightarrow> string) \<Rightarrow> (string \<times> jsval) list \<Rightarrow> string \<Rightarrow> string" where
  "shown ns fs k = (case js_get fs k of JNum y \<Rightarrow> show_num ns y | _ \<Rightarrow> [])"

definition enum_errors :: "(rat \<Rightarrow> string) \<Rightarrow> (string \<times> jsval) list \<Rightarrow> jsval \<Rightarrow> string \<Rightarrow> validation_error list" where
  "enum_errors ns fs v path = (case js_get fs ''enum'' of
     JArr es \<Rightarrow> bound_error (\<not> list_ex (\<lambda>e. deepEqual e v) es) path (''value must be one of '' @ json_text ns (JArr es))
   | _ \<Rightarrow> [])"

definition string_errors ::
    "(rat \<Rightarrow> string) \<Rightarrow> (string \<Rightarrow> jsnum) \<Rightarrow> (string \<times> jsval) list \<Rightarrow> jsval \<Rightarrow> string \<Rightarrow> validation_error list" where
  "string_errors ns dp fs v path = (case v of
     JStr s \<Rightarrow> bound_error (below fs ''minLength'' (len_num s)) path (''string length < minLength '' @ shown ns fs ''minLength'') @
       bound_error (above fs ''maxLength'' (len_num s)) path (''string length > maxLength '' @ shown ns fs ''maxLength'') @
       bound_error (js_get fs ''format'' = JStr ''email'' \<and> \<not> email_ok s) path ''string must be a valid email'' @
       bound_error (js_get fs ''format'' = JStr ''date-time'' \<and> \<not> date_ok dp s) path ''string must be a valid date-time''
   | _ \<Rightarrow> [])"

definition number_errors :: "(rat \<Rightarrow> string) \<Rightarrow> (string \<times> jsval) list \<Rightarrow> jsval \<Rightarrow> string \<Rightarrow> validation_error list" where
  "number_errors ns fs v path = (case v of
     JNum x \<Rightarrow> bound_error (below fs ''minimum'' x) path (''value < minimum '' @ shown ns fs ''minimum'') @
       bound_error (above fs ''maximum'' x) path (''value > maximum '' @ shown ns fs ''maximum'')
   | _ \<Rightarrow> [])"

definition array_errors :: "(rat \<Rightarrow> string) \<Rightarrow> (string \<times> jsval) list \<Rightarrow> jsval \<Rightarrow> string \<Rightarrow> validation_error list" where
  "array_errors ns fs v path = (case v of
     JArr xs \<Rightarrow> bound_error (below fs ''minItems'' (len_num xs)) path (''array length < minItems '' @ shown ns fs ''minItems'') @
       bound_error (above fs ''maxItems'' (len_num xs)) path (''array length > maxItems '' @ shown ns fs ''maxItems'')
   | _ \<Rightarrow> [])"

definition object_typed :: "(string \<times> jsval) list \<Rightarrow> bool" where
  "object_typed fs = (js_get fs ''type'' = JUndef \<or> js_get fs ''type'' = JStr ''object'')"

definition schema_properties :: "(string \<times> jsval) list \<Rightarrow> (string \<times> jsval) list" where
  "schema_properties fs = (case js_get fs ''properties'' of JObj ps \<Rightarrow> ps | _ \<Rightarrow> [])"

definition schema_required :: "(string \<times> jsval) list \<Rightarrow> string list" where
  "schema_required fs = (case js_get fs ''required'' of JArr ks \<Rightarrow> map str_of ks | _ \<Rightarrow> [])"

definition object_errors :: "(string \<times> jsval) list \<Rightarrow> (string \<times> jsval) list \<Rightarrow> string \<Rightarrow> validation_error list" where
  "object_errors fs obj path =
     map (\<lambda>k. \<lparr>ve_path = at_key path k, ve_message = ''required property '' @ [CHR 0x27] @ k @ [CHR 0x27] @ '' is missing''\<rparr>)
       (filter (\<lambda>k. js_get obj k = JUndef) (schema_required fs)) @
     (if js_get fs ''additionalProperties'' = JBool False
      then map (\<lambda>k. \<lparr>ve_path = at_key path k, ve_message = ''unknown property '' @ [CHR 0x27] @ k @ [CHR 0x27] @ '' (additionalProperties: false)''\<rparr>)
        (filter (\<lambda>k. k \<notin> set (map fst (schema_properties fs))) (map fst obj))
      else [])"

section \<open>The validator\<close>

lemma size_field: "(k, v) \<in> set fs \<Longrightarrow> size v < size (JObj fs)"
  by (induction fs) auto

lemma size_item: "v \<in> set xs \<Longrightarrow> size v < size (JArr xs)"
  by (induction xs) auto

lemma size_js_get: "size (js_get fs k) < size (JObj fs)"
  by (auto simp: js_get_def split: option.splits dest!: map_of_SomeD size_field)

lemma size_js_get_item: "js_get fs k = JArr bs \<Longrightarrow> b \<in> set bs \<Longrightarrow> size b < size (JObj fs)"
  using size_js_get [of fs k] size_item [of b bs] by simp

lemma size_property: "(k, sub) \<in> set (schema_properties fs) \<Longrightarrow> size sub < size (JObj fs)"
  using size_js_get [of fs "''properties''"]
  by (auto simp: schema_properties_def split: jsval.splits dest!: size_field)

function (sequential) validateNode ::
    "(rat \<Rightarrow> string) \<Rightarrow> (string \<Rightarrow> jsnum) \<Rightarrow> jsval \<Rightarrow> jsval \<Rightarrow> string \<Rightarrow> validation_error list" where
  "validateNode ns dp (JObj fs) v path =
     (let matches = (case js_get fs ''oneOf'' of
            JArr bs \<Rightarrow> Some (length (filter (\<lambda>b. validateNode ns dp b v path = []) bs)) | _ \<Rightarrow> None) in
      if matches \<noteq> None \<and> matches \<noteq> Some 1
      then [at_path path (''value must match exactly one oneOf branch (matched '' @
              (case matches of None \<Rightarrow> [] | Some n \<Rightarrow> show_nat n) @ '')'')]
      else if js_get fs ''type'' \<noteq> JUndef \<and> \<not> typeMatches (js_get fs ''type'') v
      then [at_path path (''expected type '' @ json_text ns (js_get fs ''type'') @ '' but got '' @ typeOfValue v)]
      else enum_errors ns fs v path @ string_errors ns dp fs v path @ number_errors ns fs v path @
        (case v of JArr xs \<Rightarrow> if js_truthy (js_get fs ''items'')
             then concat (map (\<lambda>(i, x). validateNode ns dp (js_get fs ''items'') x (path @ ''['' @ show_nat i @ '']''))
                    (List.enumerate 0 xs))
             else []
         | _ \<Rightarrow> []) @
        array_errors ns fs v path @
        (case v of JObj obj \<Rightarrow> if object_typed fs
             then object_errors fs obj path @
               concat (map (\<lambda>(k, sub). if js_get obj k \<noteq> JUndef then validateNode ns dp sub (js_get obj k) (at_key path k) else [])
                 (schema_properties fs))
             else []
         | _ \<Rightarrow> []))"
| "validateNode ns dp _ v path = []"
  by pat_completeness auto

termination
  by (relation "measure (\<lambda>(ns, dp, schema, v, path). size schema)")
    (auto simp: size_js_get size_js_get_item size_property simp del: jsval.size)

record validation_result =
  vr_valid :: bool
  vr_errors :: "validation_error list"

definition compileSchema ::
    "(rat \<Rightarrow> string) \<Rightarrow> (string \<Rightarrow> jsnum) \<Rightarrow> jsval \<Rightarrow> jsval \<Rightarrow> validation_result" where
  "compileSchema ns dp schema input =
     (if \<not> js_truthy schema then \<lparr>vr_valid = True, vr_errors = []\<rparr>
      else let errors = validateNode ns dp schema (if input = JUndef then JObj [] else input) []
        in \<lparr>vr_valid = (errors = []), vr_errors = errors\<rparr>)"

section \<open>What a schema means\<close>

text \<open>
  The declarative reading of the supported keywords. Object keywords apply under an absent
  type or the type \<open>object\<close> only, as in the code.
\<close>

definition enum_ok :: "(string \<times> jsval) list \<Rightarrow> jsval \<Rightarrow> bool" where
  "enum_ok fs v = (case js_get fs ''enum'' of JArr es \<Rightarrow> list_ex (\<lambda>e. deepEqual e v) es | _ \<Rightarrow> True)"

definition string_ok :: "(string \<Rightarrow> jsnum) \<Rightarrow> (string \<times> jsval) list \<Rightarrow> string \<Rightarrow> bool" where
  "string_ok dp fs s = (\<not> below fs ''minLength'' (len_num s) \<and> \<not> above fs ''maxLength'' (len_num s) \<and>
     (js_get fs ''format'' = JStr ''email'' \<longrightarrow> email_ok s) \<and> (js_get fs ''format'' = JStr ''date-time'' \<longrightarrow> date_ok dp s))"

definition keys_ok :: "(string \<times> jsval) list \<Rightarrow> (string \<times> jsval) list \<Rightarrow> bool" where
  "keys_ok fs obj = (list_all (\<lambda>k. js_get obj k \<noteq> JUndef) (schema_required fs) \<and>
     (js_get fs ''additionalProperties'' = JBool False \<longrightarrow>
        list_all (\<lambda>k. k \<in> set (map fst (schema_properties fs))) (map fst obj)))"

function (sequential) conforms :: "(string \<Rightarrow> jsnum) \<Rightarrow> jsval \<Rightarrow> jsval \<Rightarrow> bool" where
  "conforms dp (JObj fs) v =
     ((case js_get fs ''oneOf'' of JArr bs \<Rightarrow> length (filter (\<lambda>b. conforms dp b v) bs) = 1 | _ \<Rightarrow> True) \<and>
      (js_get fs ''type'' \<noteq> JUndef \<longrightarrow> typeMatches (js_get fs ''type'') v) \<and> enum_ok fs v \<and>
      (case v of JStr s \<Rightarrow> string_ok dp fs s
       | JNum x \<Rightarrow> \<not> below fs ''minimum'' x \<and> \<not> above fs ''maximum'' x
       | JArr xs \<Rightarrow> (js_truthy (js_get fs ''items'') \<longrightarrow> list_all (\<lambda>x. conforms dp (js_get fs ''items'') x) xs) \<and>
           \<not> below fs ''minItems'' (len_num xs) \<and> \<not> above fs ''maxItems'' (len_num xs)
       | JObj obj \<Rightarrow> object_typed fs \<longrightarrow> keys_ok fs obj \<and>
           list_all (\<lambda>(k, sub). js_get obj k \<noteq> JUndef \<longrightarrow> conforms dp sub (js_get obj k)) (schema_properties fs)
       | _ \<Rightarrow> True))"
| "conforms dp _ v = True"
  by pat_completeness auto

termination
  by (relation "measure (\<lambda>(dp, schema, v). size schema)")
    (auto simp: size_js_get size_js_get_item size_property simp del: jsval.size)

section \<open>Properties\<close>

lemma bound_error_Nil [simp]: "bound_error bad path msg = [] \<longleftrightarrow> \<not> bad"
  by (simp add: bound_error_def)

lemma enum_errors_Nil [simp]: "enum_errors ns fs v path = [] \<longleftrightarrow> enum_ok fs v"
  by (simp add: enum_errors_def enum_ok_def split: jsval.splits)

lemma object_errors_Nil [simp]: "object_errors fs obj path = [] \<longleftrightarrow> keys_ok fs obj"
  by (auto simp: object_errors_def keys_ok_def filter_empty_conv list_all_iff)

lemma enumerate_all: "(\<forall>p \<in> set (List.enumerate n xs). P (snd p)) \<longleftrightarrow> list_all P xs"
  by (simp add: list_all_iff enumerate_eq_zip set_zip) (metis in_set_conv_nth nth_mem)

lemma validateNode_conforms: "validateNode ns dp schema v path = [] \<longleftrightarrow> conforms dp schema v"
proof (induction schema arbitrary: v path rule: measure_induct_rule [where f = size])
  case (less schema)
  show ?case
  proof (cases schema)
    case (JObj fs)
    note ih = less.IH [unfolded JObj]
    let ?one = "case js_get fs ''oneOf'' of JArr bs \<Rightarrow> length (filter (\<lambda>b. conforms dp b v) bs) = 1 | _ \<Rightarrow> True"
    have alt: "filter (\<lambda>b. validateNode ns dp b v path = []) bs = filter (\<lambda>b. conforms dp b v) bs"
      if "js_get fs ''oneOf'' = JArr bs" for bs
      by (rule filter_cong [OF refl]) (rule ih [OF size_js_get_item [OF that]])
    have one: "(case js_get fs ''oneOf'' of JArr bs \<Rightarrow> Some (length (filter (\<lambda>b. validateNode ns dp b v path = []) bs)) | _ \<Rightarrow> None) =
        (case js_get fs ''oneOf'' of JArr bs \<Rightarrow> Some (length (filter (\<lambda>b. conforms dp b v) bs)) | _ \<Rightarrow> None)"
      by (cases "js_get fs ''oneOf''") (simp_all add: alt)
    have items: "concat (map (\<lambda>(i, x). validateNode ns dp (js_get fs ''items'') x (path @ CHR ''['' # show_nat i @ '']''))
        (List.enumerate 0 xs)) = [] \<longleftrightarrow> list_all (\<lambda>x. conforms dp (js_get fs ''items'') x) xs" for xs
      using enumerate_all [of 0 xs "\<lambda>x. conforms dp (js_get fs ''items'') x"]
      by (auto simp: ih [OF size_js_get] case_prod_unfold)
    have props: "concat (map (\<lambda>(k, sub). if js_get obj k \<noteq> JUndef then validateNode ns dp sub (js_get obj k) (at_key path k) else [])
        (schema_properties fs)) = [] \<longleftrightarrow>
        list_all (\<lambda>(k, sub). js_get obj k \<noteq> JUndef \<longrightarrow> conforms dp sub (js_get obj k)) (schema_properties fs)" for obj
      unfolding list_all_iff using ih [OF size_property] by auto
    have facets: "validateNode ns dp (JObj fs) v path = [] \<longleftrightarrow> ?one \<and>
        (js_get fs ''type'' \<noteq> JUndef \<longrightarrow> typeMatches (js_get fs ''type'') v) \<and> enum_ok fs v \<and>
        string_errors ns dp fs v path = [] \<and> number_errors ns fs v path = [] \<and>
        (case v of JArr xs \<Rightarrow> js_truthy (js_get fs ''items'') \<longrightarrow> list_all (\<lambda>x. conforms dp (js_get fs ''items'') x) xs | _ \<Rightarrow> True) \<and>
        array_errors ns fs v path = [] \<and>
        (case v of JObj obj \<Rightarrow> object_typed fs \<longrightarrow> keys_ok fs obj \<and>
           list_all (\<lambda>(k, sub). js_get obj k \<noteq> JUndef \<longrightarrow> conforms dp sub (js_get obj k)) (schema_properties fs) | _ \<Rightarrow> True)"
      unfolding validateNode.simps(1) one Let_def
      by (cases v; cases "js_get fs ''oneOf''") (simp_all add: items props del: concat_eq_Nil_conv split: if_splits)
    show ?thesis
      unfolding facets JObj conforms.simps(1)
      by (cases v) (auto simp: string_errors_def number_errors_def array_errors_def string_ok_def)
  qed simp_all
qed

lemma conforms_object:
  assumes "conforms dp (JObj fs) (JObj obj)" "object_typed fs"
  shows "keys_ok fs obj" "(k, sub) \<in> set (schema_properties fs) \<Longrightarrow> js_get obj k \<noteq> JUndef \<Longrightarrow> conforms dp sub (js_get obj k)"
  using assms by (auto simp: list_all_iff)

lemma validated_conforms:
  "input \<noteq> JUndef \<Longrightarrow> vr_valid (compileSchema ns dp schema input) \<longleftrightarrow> conforms dp schema input"
  by (cases schema) (simp_all add: compileSchema_def validateNode_conforms Let_def del: validateNode.simps(1) conforms.simps(1))


end
