(* ===== verification/McpRouter.thy ===== *)
theory McpRouter
  imports Approvals SchemaValidator McpTokens
begin

text \<open>
  \<open>apps/agent/src/mcp-platform/mcp-router.ts\<close>: the dispatcher of the platform MCP endpoint.
  \<open>handle\<close> answers one JSON-RPC request; \<open>tools_call\<close> takes a call through the token's
  permissions, the tool's schema, the permission gateway and the approval gate before its
  handler runs. The gate is the interface \<open>approval_gate\<close>, as in the source; \<open>controller_gate\<close>
  is its implementation in \<open>mcp-platform.controller.ts\<close> over the approval ledger, and
  \<open>approvals_resolve\<close> is the tool of \<open>tools/platos-control.ts\<close> that decides approvals.
  Handlers are parameters: functions of arguments, scope, token and state that return a value
  or throw. Logging is left out.
\<close>

section \<open>Requests, tokens, handlers\<close>

datatype rpc_throw = MemoryNotFound | OtherError

record 's mcp_handler =
  mh_name :: string
  mh_description :: string
  mh_inputSchema :: jsval
  mh_requiresAdminTier :: bool
  mh_category :: "string option"
  mh_macroRecordable :: "bool option"
  mh_execute :: "jsval \<Rightarrow> scope_tuple \<Rightarrow> verified_token \<Rightarrow> 's \<Rightarrow> (rpc_throw + jsval) \<times> 's"

record rpc_request =
  rq_id :: jsval
  rq_method :: string
  rq_params :: jsval

record rpc_error =
  re_code :: int
  re_message :: string
  re_data :: "jsval option"

record rpc_response =
  rr_id :: jsval
  rr_result :: "jsval option"
  rr_error :: "rpc_error option"

record request_context =
  cx_approvalId :: "string option"
  cx_dashboardOrigin :: "string option"

record 's approval_gate =
  ga_get :: "scope_tuple \<Rightarrow> string \<Rightarrow> 's \<Rightarrow> rpc_throw + approval_record option"
  ga_create :: "mcp_input \<Rightarrow> 's \<Rightarrow> (rpc_throw + approval_record) \<times> 's"
  ga_markConsumed :: "scope_tuple \<Rightarrow> string \<Rightarrow> jsval \<Rightarrow> 's \<Rightarrow> 's"
  ga_hash :: "scope_tuple \<Rightarrow> string \<Rightarrow> jsval \<Rightarrow> string"

record 's router =
  rt_handlers :: "(string \<times> 's mcp_handler) list"
  rt_gateway :: "'s gateway"
  rt_gate :: "'s approval_gate option"
  rt_approvalTtlSeconds :: rat
  rt_recorder :: "(verified_token \<Rightarrow> string \<Rightarrow> jsval \<Rightarrow> 's \<Rightarrow> 's) option"
  rt_showNumber :: "rat \<Rightarrow> string"
  rt_dateParse :: "string \<Rightarrow> jsnum"

definition INVALID_PARAMS :: int where "INVALID_PARAMS = -32602"
definition METHOD_NOT_FOUND :: int where "METHOD_NOT_FOUND = -32601"
definition INTERNAL_ERROR :: int where "INTERNAL_ERROR = -32603"
definition TOOL_BLOCKED :: int where "TOOL_BLOCKED = -32000"
definition PERMISSION_DENIED :: int where "PERMISSION_DENIED = -32001"
definition AWAITING_APPROVAL :: int where "AWAITING_APPROVAL = -32002"

definition answer :: "jsval \<Rightarrow> jsval \<Rightarrow> rpc_response" where
  "answer i result = \<lparr>rr_id = i, rr_result = Some result, rr_error = None\<rparr>"

definition refuse :: "jsval \<Rightarrow> int \<Rightarrow> string \<Rightarrow> jsval option \<Rightarrow> rpc_response" where
  "refuse i code msg data = \<lparr>rr_id = i, rr_result = None, rr_error = Some \<lparr>re_code = code, re_message = msg, re_data = data\<rparr>\<rparr>"

definition quoted :: "string \<Rightarrow> string" where
  "quoted s = CHR 0x27 # s @ [CHR 0x27]"

section \<open>Registration\<close>

definition setApprovalGate :: "'s router \<Rightarrow> 's approval_gate option \<Rightarrow> rat option \<Rightarrow> 's router" where
  "setApprovalGate rt gate ttlSeconds = (let rt' = rt\<lparr>rt_gate := gate\<rparr> in
     case ttlSeconds of None \<Rightarrow> rt' | Some t \<Rightarrow>
       if t \<ge> 60 then rt'\<lparr>rt_approvalTtlSeconds := of_int (js_round t)\<rparr> else rt')"

definition setMacroRecorder :: "'s router \<Rightarrow> (verified_token \<Rightarrow> string \<Rightarrow> jsval \<Rightarrow> 's \<Rightarrow> 's) option \<Rightarrow> 's router" where
  "setMacroRecorder rt recorder = rt\<lparr>rt_recorder := recorder\<rparr>"

definition register :: "'s router \<Rightarrow> 's mcp_handler \<Rightarrow> 's router" where
  "register rt h = rt\<lparr>rt_handlers := AList.update (mh_name h) h (rt_handlers rt)\<rparr>"

definition registerAll :: "'s router \<Rightarrow> 's mcp_handler list \<Rightarrow> 's router" where
  "registerAll rt hs = fold (\<lambda>h r. register r h) hs rt"

definition getRegisteredTools :: "'s router \<Rightarrow> 's mcp_handler list" where
  "getRegisteredTools rt = map snd (rt_handlers rt)"

section \<open>Redaction\<close>

definition REDACTABLE_KEYS :: "string list" where
  "REDACTABLE_KEYS = [''apikey'', ''api_key'', ''api-key'', ''secret'', ''token'', ''password'', ''passphrase'',
     ''clientsecret'', ''client_secret'', ''client-secret'', ''signingkey'', ''signing_key'', ''signing-key'',
     ''webhooksecret'', ''webhook_secret'', ''webhook-secret'', ''authorization'']"

definition redactable :: "string \<Rightarrow> bool" where
  "redactable k = list_ex (\<lambda>w. str_includes (to_lower k) w) REDACTABLE_KEYS"

text \<open>The ellipsis, in UTF-8.\<close>

definition ellipsis :: string where
  "ellipsis = [CHR 0xE2, CHR 0x80, CHR 0xA6]"

definition redact_secret :: "jsval \<Rightarrow> jsval" where
  "redact_secret v = JStr (case v of
     JStr s \<Rightarrow> if 4 < length s then take 4 s @ ellipsis @ ''<redacted>'' else ''<redacted>'' | _ \<Rightarrow> ''<redacted>'')"

fun redactValue :: "jsval \<Rightarrow> nat \<Rightarrow> jsval"
  and redact_items :: "jsval list \<Rightarrow> nat \<Rightarrow> jsval list"
  and redact_fields :: "(string \<times> jsval) list \<Rightarrow> nat \<Rightarrow> nat \<Rightarrow> (string \<times> jsval) list" where
  "redactValue (JArr xs) depth = (if 6 < depth then JStr ''<truncated>'' else JArr (take 200 (redact_items xs depth)))"
| "redactValue (JObj fs) depth = (if 6 < depth then JStr ''<truncated>'' else JObj (redact_fields fs depth 0))"
| "redactValue (JStr s) depth = (if 6 < depth then JStr ''<truncated>''
     else if 4096 < length s then JStr (take 4096 s @ ellipsis @ ''<truncated>'') else JStr s)"
| "redactValue v depth = (if 6 < depth then JStr ''<truncated>'' else v)"
| "redact_items [] depth = []"
| "redact_items (x # xs) depth = redactValue x (Suc depth) # redact_items xs depth"
| "redact_fields [] depth seen = []"
| "redact_fields ((k, v) # fs) depth seen =
     (if 200 \<le> seen then [(''__truncated__'', JBool True)]
      else (k, if redactable k then redact_secret v else redactValue v (Suc depth)) # redact_fields fs depth (Suc seen))"

definition redactArgsForAudit :: "jsval \<Rightarrow> jsval" where
  "redactArgsForAudit args = (case redactValue args 0 of JObj fs \<Rightarrow> JObj fs | out \<Rightarrow> JObj [(''__nonObjectArgs'', out)])"

definition buildApprovalDashboardUrl :: "string option \<Rightarrow> scope_tuple \<Rightarrow> string \<Rightarrow> string" where
  "buildApprovalDashboardUrl origin scope approvalId =
     (let path = ''/orgs/'' @ sc_organizationId scope @ ''/projects/'' @ sc_projectId scope @ ''/env/'' @
            sc_environmentId scope @ ''/approvals/'' @ approvalId
      in case origin of None \<Rightarrow> path | Some base \<Rightarrow>
        if starts_with ''http://'' (to_lower base) \<or> starts_with ''https://'' (to_lower base)
        then (if ends_with ''/'' base then butlast base else base) @ path else path)"

section \<open>The approval gate\<close>

text \<open>
  What the gate decides: answer now, or go on with a cached result, or with arguments that
  an operator may have edited.
\<close>

datatype gate_outcome = Respond rpc_response | Cached jsval | Proceed jsval bool

definition inbound_id :: "request_context \<Rightarrow> string option" where
  "inbound_id ctx = (let i = trim (opt_else (cx_approvalId ctx) []) in if i = [] then None else Some i)"

definition approval_status :: "string \<Rightarrow> string \<Rightarrow> (string \<times> jsval) list \<Rightarrow> jsval option" where
  "approval_status i status extra = Some (JObj ([(''approvalId'', JStr i), (''status'', JStr status)] @ extra))"

definition retry_meta :: "jsval \<Rightarrow> (string \<times> jsval) list" where
  "retry_meta i = [(''retryHeader'', JStr ''X-Platos-Approval-Id''), (''retryMeta'', JObj [(''platosApprovalId'', i)])]"

definition gate_row :: "jsval \<Rightarrow> string \<Rightarrow> string \<Rightarrow> jsval \<Rightarrow> approval_record \<Rightarrow> gate_outcome" where
  "gate_row i name apprId args row =
     (if ap_status row = ''rejected'' then
        Respond (refuse i AWAITING_APPROVAL (''approval '' @ apprId @ '' was rejected'')
          (approval_status apprId ''rejected'' [(''reason'', opt_str (ap_comment row)), (''respondedBy'', opt_str (ap_respondedBy row))]))
      else if ap_status row = ''timed_out'' \<or> ap_expired row then
        Respond (refuse i AWAITING_APPROVAL (''approval '' @ apprId @ '' expired before resolution'')
          (approval_status apprId ''timed_out'' []))
      else if ap_status row = ''pending'' then
        Respond (refuse i AWAITING_APPROVAL (''approval '' @ apprId @ '' still pending'')
          (approval_status apprId ''pending'' ((''expiresAt'', opt_str (ap_deadlineAt row)) # retry_meta (JStr apprId))))
      else if ap_toolName row \<noteq> None \<and> ap_toolName row \<noteq> Some [] \<and> ap_toolName row \<noteq> Some name then
        Respond (refuse i AWAITING_APPROVAL
          (''approval '' @ apprId @ '' was for tool '' @ quoted (opt_else (ap_toolName row) []) @ '', not '' @ quoted name)
          (approval_status apprId ''tool_mismatch'' []))
      else if js_truthy (ap_consumedAt row) then Cached (or_null (ap_resolution row))
      else case ap_editedArgs row of JObj fs \<Rightarrow> Proceed (JObj fs) True | _ \<Rightarrow> Proceed args False)"

definition open_approval ::
    "'s router \<Rightarrow> 's approval_gate \<Rightarrow> jsval \<Rightarrow> verified_token \<Rightarrow> scope_tuple \<Rightarrow> request_context \<Rightarrow>
     resolved_permission \<Rightarrow> string \<Rightarrow> jsval \<Rightarrow> 's \<Rightarrow> (rpc_throw + gate_outcome) \<times> 's" where
  "open_approval rt gate i token scope ctx perm name redactedArgs s =
     (case ga_create gate \<lparr>mi_scope = scope, mi_toolName = name, mi_args = redactedArgs,
          mi_requestHash = ga_hash gate scope name redactedArgs, mi_requestedByUserId = Some (vt_mintedByUserId token),
          mi_requestedByMcpTokenId = Some (vt_id token), mi_timeoutSeconds = Some (rt_approvalTtlSeconds rt),
          mi_actionLabel = None\<rparr> s of
        (Inl e, s') \<Rightarrow> (Inl e, s')
      | (Inr row, s') \<Rightarrow> (Inr (Respond (refuse i AWAITING_APPROVAL (''approval required for tool '' @ quoted name)
          (Some (JObj ([(''approvalId'', ap_approvalId row), (''status'', JStr ''pending''),
             (''expiresAt'', opt_str (ap_deadlineAt row)),
             (''dashboardUrl'', JStr (buildApprovalDashboardUrl (cx_dashboardOrigin ctx) scope (str_of (ap_approvalId row))))] @
             retry_meta (ap_approvalId row) @
             [(''tier'', JNum (Fin (of_nat (rp_tier perm)))), (''reason'', JStr (rp_reason perm))]))))), s'))"

definition approval_step ::
    "'s router \<Rightarrow> 's approval_gate \<Rightarrow> jsval \<Rightarrow> verified_token \<Rightarrow> scope_tuple \<Rightarrow> request_context \<Rightarrow>
     resolved_permission \<Rightarrow> string \<Rightarrow> jsval \<Rightarrow> 's \<Rightarrow> (rpc_throw + gate_outcome) \<times> 's" where
  "approval_step rt gate i token scope ctx perm name args s =
     (case inbound_id ctx of
        Some apprId \<Rightarrow> (case ga_get gate scope apprId s of
            Inl e \<Rightarrow> (Inl e, s)
          | Inr None \<Rightarrow> (Inr (Respond (refuse i AWAITING_APPROVAL (''approval '' @ apprId @ '' not found in this scope'')
               (approval_status apprId ''not_found'' []))), s)
          | Inr (Some row) \<Rightarrow> (Inr (gate_row i name apprId args row), s))
      | None \<Rightarrow> open_approval rt gate i token scope ctx perm name (redactArgsForAudit args) s)"

section \<open>Running a tool\<close>

definition error_json :: "validation_error \<Rightarrow> jsval" where
  "error_json e = JObj [(''path'', JStr (ve_path e)), (''message'', JStr (ve_message e))]"

definition result_text :: "'s router \<Rightarrow> jsval \<Rightarrow> jsval" where
  "result_text rt result = (case result of JStr s \<Rightarrow> JStr s
     | _ \<Rightarrow> (case stringify (rt_showNumber rt) result of None \<Rightarrow> JUndef | Some t \<Rightarrow> JStr t))"

definition record_macro :: "'s router \<Rightarrow> verified_token \<Rightarrow> 's mcp_handler \<Rightarrow> string \<Rightarrow> jsval \<Rightarrow> 's \<Rightarrow> 's" where
  "record_macro rt token h name args s = (case rt_recorder rt of
     None \<Rightarrow> s
   | Some record \<Rightarrow> if \<not> starts_with ''macros.'' name \<and> mh_macroRecordable h \<noteq> Some False then record token name args s else s)"

definition consume_approval :: "'s router \<Rightarrow> scope_tuple \<Rightarrow> request_context \<Rightarrow> resolved_permission \<Rightarrow> jsval \<Rightarrow> 's \<Rightarrow> 's" where
  "consume_approval rt scope ctx perm result s =
     (if rp_state perm = RequireApproval \<and> opt_else (cx_approvalId ctx) [] \<noteq> []
      then (case rt_gate rt of None \<Rightarrow> s | Some gate \<Rightarrow> ga_markConsumed gate scope (opt_else (cx_approvalId ctx) []) result s)
      else s)"

definition run_tool ::
    "'s router \<Rightarrow> jsval \<Rightarrow> verified_token \<Rightarrow> scope_tuple \<Rightarrow> request_context \<Rightarrow> resolved_permission \<Rightarrow>
     's mcp_handler \<Rightarrow> string \<Rightarrow> jsval \<Rightarrow> gate_outcome \<Rightarrow> 's \<Rightarrow> (rpc_throw + rpc_response) \<times> 's" where
  "run_tool rt i token scope ctx perm h name args out s =
     (let finish = (\<lambda>executionArgs result s'. (Inr (answer i (JObj [(''content'', JArr [JObj [(''type'', JStr ''text''),
            (''text'', result_text rt result)]])])), record_macro rt token h name executionArgs s'))
      in case out of
        Respond r \<Rightarrow> (Inr r, s)
      | Cached result \<Rightarrow> finish args result s
      | Proceed executionArgs edited \<Rightarrow>
          (let v = compileSchema (rt_showNumber rt) (rt_dateParse rt) (mh_inputSchema h) executionArgs in
           if edited \<and> \<not> vr_valid v
           then (Inr (refuse i INVALID_PARAMS (''operator-edited arguments for tool '' @ quoted name @ '' failed validation'')
                  (Some (JObj [(''errors'', JArr (map error_json (vr_errors v))), (''source'', JStr ''edited_args'')]))), s)
           else (case mh_execute h executionArgs scope token s of
                (Inl e, s') \<Rightarrow> (Inl e, s')
              | (Inr result, s') \<Rightarrow> finish executionArgs result (consume_approval rt scope ctx perm result s'))))"

section \<open>Dispatch\<close>

definition permission_input :: "verified_token \<Rightarrow> scope_tuple \<Rightarrow> string \<Rightarrow> permission_input" where
  "permission_input token scope name = \<lparr>pi_scope = scope, pi_agentId = None, pi_toolName = name,
     pi_sessionOverrides = None, pi_tokenTier = Some (vt_tier token)\<rparr>"

definition call_arguments :: "jsval \<Rightarrow> jsval" where
  "call_arguments params = (let a = js_prop params ''arguments'' in if nullish a then JObj [] else a)"

definition authorized_call ::
    "'s router \<Rightarrow> jsval \<Rightarrow> verified_token \<Rightarrow> request_context \<Rightarrow> 's mcp_handler \<Rightarrow> string \<Rightarrow> jsval \<Rightarrow> 's \<Rightarrow>
     (rpc_throw + rpc_response) \<times> 's" where
  "authorized_call rt i token ctx h name args s =
     (let scope = vt_scope token in
      case resolvePermission (rt_gateway rt) (permission_input token scope name) s of
        Inl e \<Rightarrow> (Inl OtherError, s)
      | Inr perm \<Rightarrow>
          if rp_state perm = Block
          then (Inr (refuse i TOOL_BLOCKED (''tool '' @ quoted name @ '' blocked by tier-'' @ show_nat (rp_tier perm) @ '' policy'')
                 (Some (JObj [(''tier'', JNum (Fin (of_nat (rp_tier perm)))), (''reason'', JStr (rp_reason perm))]))), s)
          else (case (if rp_state perm = RequireApproval then rt_gate rt else None) of
               None \<Rightarrow> run_tool rt i token scope ctx perm h name args (Proceed args False) s
             | Some gate \<Rightarrow> (case approval_step rt gate i token scope ctx perm name args s of
                  (Inl e, s') \<Rightarrow> (Inl e, s')
                | (Inr out, s') \<Rightarrow> run_tool rt i token scope ctx perm h name args out s')))"

definition tools_call ::
    "'s router \<Rightarrow> jsval \<Rightarrow> jsval \<Rightarrow> verified_token \<Rightarrow> request_context \<Rightarrow> 's \<Rightarrow> (rpc_throw + rpc_response) \<times> 's" where
  "tools_call rt i params token ctx s =
     (case js_prop params ''name'' of
        JStr name \<Rightarrow>
          if name = [] then (Inr (refuse i INVALID_PARAMS ''tools/call: `name` is required'' None), s)
          else if \<not> allows (vt_permissions token) name
          then (Inr (refuse i PERMISSION_DENIED (''token does not allow tool '' @ quoted name) None), s)
          else (case map_of (rt_handlers rt) name of
             None \<Rightarrow> (Inr (refuse i METHOD_NOT_FOUND (''tool '' @ quoted name @ '' not found'') None), s)
           | Some h \<Rightarrow>
               if mh_requiresAdminTier h \<and> vt_tier token \<noteq> AdminTier
               then (Inr (refuse i PERMISSION_DENIED (''tool '' @ quoted name @ '' requires an admin-tier MCP token'') None), s)
               else (let args = call_arguments params;
                         v = compileSchema (rt_showNumber rt) (rt_dateParse rt) (mh_inputSchema h) args in
                 if \<not> vr_valid v
                 then (Inr (refuse i INVALID_PARAMS (''invalid arguments for tool '' @ quoted name)
                        (Some (JObj [(''errors'', JArr (map error_json (vr_errors v)))]))), s)
                 else authorized_call rt i token ctx h name args s))
      | _ \<Rightarrow> (Inr (refuse i INVALID_PARAMS ''tools/call: `name` is required'' None), s))"

definition tools_list :: "'s router \<Rightarrow> verified_token \<Rightarrow> jsval" where
  "tools_list rt token = JObj [(''tools'', JArr (map (\<lambda>h. JObj [(''name'', JStr (mh_name h)),
       (''description'', JStr (mh_description h)), (''inputSchema'', mh_inputSchema h),
       (''category'', JStr (opt_else (mh_category h) ''uncategorized''))])
     (filter (\<lambda>h. if mh_requiresAdminTier h \<and> vt_tier token \<noteq> AdminTier then False
        else allows (vt_permissions token) (mh_name h)) (getRegisteredTools rt))))]"

definition handshake :: jsval where
  "handshake = JObj [(''protocolVersion'', JStr ''2025-06-18''),
     (''capabilities'', JObj [(''tools'', JObj []), (''logging'', JObj [])]),
     (''serverInfo'', JObj [(''name'', JStr ''platos-platform-mcp''), (''version'', JStr ''0.1.0'')])]"

definition dispatch ::
    "'s router \<Rightarrow> rpc_request \<Rightarrow> jsval \<Rightarrow> verified_token \<Rightarrow> request_context \<Rightarrow> 's \<Rightarrow> (rpc_throw + rpc_response) \<times> 's" where
  "dispatch rt req i token ctx s =
     (if rq_method req = ''initialize'' then (Inr (answer i handshake), s)
      else if rq_method req = ''notifications/ping'' \<or> rq_method req = ''ping'' \<or> rq_method req = ''notifications/initialized''
      then (Inr (answer i (JObj [])), s)
      else if rq_method req = ''tools/list'' then (Inr (answer i (tools_list rt token)), s)
      else if rq_method req = ''tools/call'' then tools_call rt i (rq_params req) token ctx s
      else (Inr (refuse i METHOD_NOT_FOUND (''method '' @ quoted (rq_method req) @ '' not supported'') None), s))"

definition handle :: "'s router \<Rightarrow> rpc_request \<Rightarrow> verified_token \<Rightarrow> request_context \<Rightarrow> 's \<Rightarrow> rpc_response \<times> 's" where
  "handle rt req token ctx s =
     (let i = or_null (rq_id req) in
      case dispatch rt req i token ctx s of
        (Inr r, s') \<Rightarrow> (r, s')
      | (Inl MemoryNotFound, s') \<Rightarrow> (refuse i 404 ''memory not found''
           (Some (JObj [(''code'', JStr ''MEMORY_NOT_FOUND''), (''status'', JNum (Fin 404))])), s')
      | (Inl OtherError, s') \<Rightarrow> (refuse i INTERNAL_ERROR ''internal error'' None, s'))"

section \<open>The gate of the controller\<close>

definition lift_db :: "db_error + 'a \<Rightarrow> rpc_throw + 'a" where
  "lift_db r = (case r of Inl _ \<Rightarrow> Inl OtherError | Inr x \<Rightarrow> Inr x)"

text \<open>
  The ids and times the ledger draws are functions of the state here: \<open>fresh\<close> gives the row
  id and the random part of the approval id, \<open>clock\<close> the time.
\<close>

definition controller_gate ::
    "'s approvals \<Rightarrow> ('s \<Rightarrow> string \<times> string) \<Rightarrow> ('s \<Rightarrow> int) \<Rightarrow> (string \<Rightarrow> string) \<Rightarrow> (rat \<Rightarrow> string) \<Rightarrow> rat \<Rightarrow> 's approval_gate" where
  "controller_gate as fresh clock sha256 ns ttlSeconds =
     \<lparr>ga_get = (\<lambda>scope apprId s. lift_db (getById as scope apprId (clock s) s)),
      ga_create = (\<lambda>inp s. case createMcpApproval as (inp\<lparr>mi_timeoutSeconds := Some (opt_else (mi_timeoutSeconds inp) ttlSeconds)\<rparr>)
         (fst (fresh s)) (snd (fresh s)) (clock s) s of (r, s') \<Rightarrow> (lift_db r, s')),
      ga_markConsumed = (\<lambda>scope apprId resolution s. markMcpConsumed as scope apprId resolution (clock s) s),
      ga_hash = (\<lambda>scope name args. computeRequestHash sha256 ns scope name args)\<rparr>"

text \<open>The body of the \<open>approvals.resolve\<close> tool.\<close>

definition approvals_resolve ::
    "'s approvals \<Rightarrow> ('s \<Rightarrow> int) \<Rightarrow> (string \<times> jsval) list \<Rightarrow> scope_tuple \<Rightarrow> verified_token \<Rightarrow> 's \<Rightarrow> (rpc_throw + jsval) \<times> 's" where
  "approvals_resolve as clock params scope token s =
     (let i = str_of (js_get params ''approvalId''); rawStatus = str_of (js_get params ''status'');
          isEditPath = (rawStatus = ''approved_with_edits'');
          persistStatus = (if isEditPath then ''approved'' else rawStatus);
          run = (\<lambda>edited. case resolve as \<lparr>rs_scope = scope, rs_approvalId = i, rs_status = persistStatus,
                rs_respondedBy = Some (vt_mintedByUserId token),
                rs_comment = (case js_get params ''comment'' of JStr c \<Rightarrow> Some c | _ \<Rightarrow> None),
                rs_editedArgs = edited, rs_editedByUserId = (if edited = None then None else Some (vt_mintedByUserId token))\<rparr>
                (clock s) s of (_, s') \<Rightarrow>
              (Inr (JObj ([(''ok'', JBool True), (''approvalId'', JStr i), (''status'', JStr persistStatus)] @
                 (if edited = None then [] else [(''editedArgsApplied'', JBool True)]))), s'))
      in if isEditPath
         then (case js_get params ''editedArgs'' of JObj fs \<Rightarrow> run (Some fs) | _ \<Rightarrow> (Inl OtherError, s))
         else run None)"

section \<open>When a handler runs\<close>

text \<open>
  \<open>rewire f rt\<close> is the router with other handler bodies. A request runs a handler exactly when
  its outcome can depend on the bodies: \<open>handle (rewire f rt) \<noteq> handle (rewire g rt)\<close> for some
  bodies \<open>f\<close> and \<open>g\<close>.
\<close>

type_synonym 's handler_body = "jsval \<Rightarrow> scope_tuple \<Rightarrow> verified_token \<Rightarrow> 's \<Rightarrow> (rpc_throw + jsval) \<times> 's"

definition rewire :: "(string \<Rightarrow> 's handler_body) \<Rightarrow> 's router \<Rightarrow> 's router" where
  "rewire f rt = rt\<lparr>rt_handlers := map (\<lambda>(n, h). (n, h\<lparr>mh_execute := f n\<rparr>)) (rt_handlers rt)\<rparr>"

definition approves :: "string \<Rightarrow> approval_record \<Rightarrow> bool" where
  "approves name row = (ap_status row \<noteq> ''rejected'' \<and> ap_status row \<noteq> ''timed_out'' \<and> ap_status row \<noteq> ''pending'' \<and>
     \<not> ap_expired row \<and> (ap_toolName row = None \<or> ap_toolName row = Some [] \<or> ap_toolName row = Some name) \<and>
     \<not> js_truthy (ap_consumedAt row))"

lemma rewire_sel [simp]:
  "rt_gateway (rewire f rt) = rt_gateway rt" "rt_gate (rewire f rt) = rt_gate rt"
  "rt_recorder (rewire f rt) = rt_recorder rt" "rt_showNumber (rewire f rt) = rt_showNumber rt"
  "rt_dateParse (rewire f rt) = rt_dateParse rt" "rt_approvalTtlSeconds (rewire f rt) = rt_approvalTtlSeconds rt"
  by (simp_all add: rewire_def)

lemma rewire_handler: "map_of (rt_handlers (rewire f rt)) n = map_option (\<lambda>h. h\<lparr>mh_execute := f n\<rparr>) (map_of (rt_handlers rt) n)"
proof -
  have "map_of (map (\<lambda>(n, h). (n, h\<lparr>mh_execute := f n\<rparr>)) hs) n = map_option (\<lambda>h. h\<lparr>mh_execute := f n\<rparr>) (map_of hs n)" for hs
    by (induction hs) auto
  then show ?thesis by (simp add: rewire_def)
qed

lemma rewire_parts [simp]:
  "approval_step (rewire f rt) = approval_step rt" "result_text (rewire f rt) = result_text rt"
  "record_macro (rewire f rt) tk (h\<lparr>mh_execute := e\<rparr>) = record_macro rt tk h"
  "consume_approval (rewire f rt) = consume_approval rt"
  "tools_list (rewire f rt) token = tools_list rt token"
proof -
  show "approval_step (rewire f rt) = approval_step rt"
    unfolding approval_step_def open_approval_def rewire_sel by (rule refl)
  show "result_text (rewire f rt) = result_text rt"
    unfolding result_text_def rewire_sel by (rule refl)
  show "record_macro (rewire f rt) tk (h\<lparr>mh_execute := e\<rparr>) = record_macro rt tk h"
    by (intro ext, cases "rt_recorder rt") (simp_all add: record_macro_def)
  show "consume_approval (rewire f rt) = consume_approval rt"
    unfolding consume_approval_def rewire_sel by (rule refl)
  show "tools_list (rewire f rt) token = tools_list rt token"
    by (simp add: tools_list_def getRegisteredTools_def rewire_def comp_def filter_map case_prod_unfold)
qed

lemma gate_row_Proceed:
  "gate_row i name a args row = Proceed x e \<Longrightarrow> approves name row \<and> (if e then x \<noteq> JUndef else x = args)"
  by (cases "ap_editedArgs row") (auto simp: gate_row_def approves_def split: if_splits)

lemma approval_step_Proceed:
  assumes "approval_step rt gate i token scope ctx perm name args s = (Inr (Proceed x e), s')"
  shows "s' = s \<and> (if e then x \<noteq> JUndef else x = args) \<and>
    (\<exists>a row. inbound_id ctx = Some a \<and> ga_get gate scope a s = Inr (Some row) \<and> approves name row)"
  using assms by (auto simp: approval_step_def open_approval_def dest!: gate_row_Proceed
      split: option.splits sum.splits prod.splits)

lemma run_tool_diff:
  assumes "run_tool (rewire f rt) i token scope ctx perm (h\<lparr>mh_execute := f n\<rparr>) name args out s \<noteq>
    run_tool (rewire g rt) i token scope ctx perm (h\<lparr>mh_execute := g n\<rparr>) name args out s"
  shows "\<exists>x e. out = Proceed x e \<and> f n x scope token s \<noteq> g n x scope token s \<and>
    (e \<longrightarrow> vr_valid (compileSchema (rt_showNumber rt) (rt_dateParse rt) (mh_inputSchema h) x))"
proof (cases out)
  case (Proceed x e)
  then show ?thesis using assms unfolding run_tool_def Let_def rewire_parts by (auto split: if_splits)
qed (use assms in \<open>simp_all add: run_tool_def Let_def\<close>)

lemma authorized_call_diff:
  assumes diff: "authorized_call (rewire f rt) i token ctx (h\<lparr>mh_execute := f n\<rparr>) name args s \<noteq>
      authorized_call (rewire g rt) i token ctx (h\<lparr>mh_execute := g n\<rparr>) name args s"
  shows "\<exists>perm x. resolvePermission (rt_gateway rt) (permission_input token (vt_scope token) name) s = Inr perm \<and>
    rp_state perm \<noteq> Block \<and> f n x (vt_scope token) token s \<noteq> g n x (vt_scope token) token s \<and>
    (x = args \<or> x \<noteq> JUndef \<and> vr_valid (compileSchema (rt_showNumber rt) (rt_dateParse rt) (mh_inputSchema h) x)) \<and>
    (\<forall>gate. rt_gate rt = Some gate \<longrightarrow> rp_state perm = RequireApproval \<longrightarrow>
      (\<exists>a row. inbound_id ctx = Some a \<and> ga_get gate (vt_scope token) a s = Inr (Some row) \<and> approves name row))"
proof -
  let ?run = "\<lambda>f perm out t. run_tool (rewire f rt) i token (vt_scope token) ctx perm (h\<lparr>mh_execute := f n\<rparr>) name args out t"
  obtain perm where perm: "resolvePermission (rt_gateway rt) (permission_input token (vt_scope token) name) s = Inr perm"
    "rp_state perm \<noteq> Block"
  proof (cases "resolvePermission (rt_gateway rt) (permission_input token (vt_scope token) name) s")
    case (Inr perm)
    moreover have "rp_state perm \<noteq> Block"
      using diff Inr by (intro notI) (simp add: authorized_call_def Let_def)
    ultimately show ?thesis by (rule that)
  qed (use diff in \<open>simp add: authorized_call_def Let_def\<close>)
  have eq: "authorized_call (rewire f rt) i token ctx (h\<lparr>mh_execute := f n\<rparr>) name args s =
      (case (if rp_state perm = RequireApproval then rt_gate rt else None) of
         None \<Rightarrow> ?run f perm (Proceed args False) s
       | Some gate \<Rightarrow> (case approval_step rt gate i token (vt_scope token) ctx perm name args s of
            (Inl e, s') \<Rightarrow> (Inl e, s') | (Inr out, s') \<Rightarrow> ?run f perm out s'))" for f
    unfolding authorized_call_def Let_def rewire_sel rewire_parts perm(1) using perm(2) by simp
  show ?thesis
  proof (cases "if rp_state perm = RequireApproval then rt_gate rt else None")
    case None
    then have "?run f perm (Proceed args False) s \<noteq> ?run g perm (Proceed args False) s"
      using diff unfolding eq by simp
    from run_tool_diff [OF this] have "f n args (vt_scope token) token s \<noteq> g n args (vt_scope token) token s" by auto
    then show ?thesis using perm None by (auto split: if_splits)
  next
    case (Some gate)
    obtain r s' where st: "approval_step rt gate i token (vt_scope token) ctx perm name args s = (r, s')" by fastforce
    obtain out where out: "r = Inr out" "?run f perm out s' \<noteq> ?run g perm out s'"
      using diff unfolding eq Some by (cases r) (simp_all add: st)
    obtain x e where x: "out = Proceed x e" "f n x (vt_scope token) token s' \<noteq> g n x (vt_scope token) token s'"
      "e \<longrightarrow> vr_valid (compileSchema (rt_showNumber rt) (rt_dateParse rt) (mh_inputSchema h) x)"
      using run_tool_diff [OF out(2)] by blast
    note st' = approval_step_Proceed [OF st [unfolded out(1) x(1)]]
    have "rp_state perm = RequireApproval" "rt_gate rt = Some gate" using Some by (auto split: if_splits)
    then show ?thesis using perm x(2,3) st' by (cases e) auto
  qed
qed

lemma handle_diff:
  assumes diff: "handle (rewire f rt) req token ctx s \<noteq> handle (rewire g rt) req token ctx s"
  shows "\<exists>name h perm x. rq_method req = ''tools/call'' \<and> js_prop (rq_params req) ''name'' = JStr name \<and>
    allows (vt_permissions token) name \<and> map_of (rt_handlers rt) name = Some h \<and>
    (mh_requiresAdminTier h \<longrightarrow> vt_tier token = AdminTier) \<and>
    resolvePermission (rt_gateway rt) (permission_input token (vt_scope token) name) s = Inr perm \<and> rp_state perm \<noteq> Block \<and>
    f name x (vt_scope token) token s \<noteq> g name x (vt_scope token) token s \<and>
    conforms (rt_dateParse rt) (mh_inputSchema h) x \<and>
    conforms (rt_dateParse rt) (mh_inputSchema h) (call_arguments (rq_params req)) \<and>
    (\<forall>gate. rt_gate rt = Some gate \<longrightarrow> rp_state perm = RequireApproval \<longrightarrow>
      (\<exists>a row. inbound_id ctx = Some a \<and> ga_get gate (vt_scope token) a s = Inr (Some row) \<and> approves name row))"
proof -
  let ?i = "or_null (rq_id req)"
  have call: "rq_method req = ''tools/call''"
    "tools_call (rewire f rt) ?i (rq_params req) token ctx s \<noteq> tools_call (rewire g rt) ?i (rq_params req) token ctx s"
    using diff by (auto simp: handle_def dispatch_def Let_def split: if_splits)
  obtain name where name: "js_prop (rq_params req) ''name'' = JStr name"
    using call(2) by (cases "js_prop (rq_params req) ''name''") (auto simp: tools_call_def)
  obtain h where h: "map_of (rt_handlers rt) name = Some h"
    using call(2) unfolding tools_call_def name by (cases "map_of (rt_handlers rt) name") (auto simp: rewire_handler split: if_splits)
  let ?args = "call_arguments (rq_params req)"
  have rest: "allows (vt_permissions token) name" "mh_requiresAdminTier h \<longrightarrow> vt_tier token = AdminTier"
    "vr_valid (compileSchema (rt_showNumber rt) (rt_dateParse rt) (mh_inputSchema h) ?args)"
    "authorized_call (rewire f rt) ?i token ctx (h\<lparr>mh_execute := f name\<rparr>) name ?args s \<noteq>
     authorized_call (rewire g rt) ?i token ctx (h\<lparr>mh_execute := g name\<rparr>) name ?args s"
    using call(2) name h by (auto simp: tools_call_def rewire_handler Let_def split: if_splits)
  have args: "?args \<noteq> JUndef" by (simp add: call_arguments_def nullish_def Let_def)
  show ?thesis
    using authorized_call_diff [OF rest(4)] call(1) name h rest(1-3) args
    by (metis validated_conforms)
qed

section \<open>The ledger behind the gate\<close>

lemma controller_get:
  "ga_get (controller_gate as fresh clock sha256 ns ttl) scope a s = Inr (Some row) \<longleftrightarrow>
   getById as scope a (clock s) s = Inr (Some row)"
  by (auto simp: controller_gate_def lift_db_def split: sum.splits)

lemma controller_consume:
  "ga_markConsumed (controller_gate as fresh clock sha256 ns ttl) scope a res s = markMcpConsumed as scope a res (clock s) s"
  by (simp add: controller_gate_def)

lemma toRecord_consumed: "js_truthy (ap_consumedAt (toRecord as sc r now)) \<longleftrightarrow> consumed r"
  by (simp add: toRecord_def consumed_def Let_def split: prod.splits)

lemma approves_row:
  "approves name (toRecord as sc r now) \<longleftrightarrow> aw_status r = APPROVED \<and>
     (aw_toolName r = None \<or> aw_toolName r = Some [] \<or> aw_toolName r = Some name) \<and> \<not> consumed r"
  by (cases "aw_status r") (simp_all add: approves_def toRecord_consumed)

lemma inbound_Some: "inbound_id ctx = Some a \<longleftrightarrow> a = trim (opt_else (cx_approvalId ctx) []) \<and> a \<noteq> []"
  by (auto simp: inbound_id_def Let_def)

lemma approved_row:
  assumes "approval_store as rows" "rt_gate rt = Some (controller_gate as fresh clock sha256 ns ttl)"
    and "resolvePermission (rt_gateway rt) (permission_input token (vt_scope token) name) s = Inr perm"
    and "rp_state perm = RequireApproval" "js_prop (rq_params req) ''name'' = JStr name"
    and "handle (rewire f rt) req token ctx s \<noteq> handle (rewire g rt) req token ctx s"
  shows "\<exists>r. r \<in># rows s \<and> approval_matches as (vt_scope token) (trim (opt_else (cx_approvalId ctx) [])) r \<and>
    aw_status r = APPROVED \<and> (aw_toolName r = None \<or> aw_toolName r = Some [] \<or> aw_toolName r = Some name) \<and> \<not> consumed r"
proof -
  obtain row where row: "getById as (vt_scope token) (trim (opt_else (cx_approvalId ctx) [])) (clock s) s = Inr (Some row)"
    "approves name row"
    using handle_diff [OF assms(6)] assms(2-5) by (auto simp: controller_get inbound_Some)
  show ?thesis
    by (rule approval_store.getById_row [OF assms(1) row(1)]) (use row(2) in \<open>auto simp: approves_row\<close>)
qed

lemma gate_row_Respond: "gate_row i name a args row = Respond r \<Longrightarrow> rr_error r \<noteq> None"
  by (cases "ap_editedArgs row") (auto simp: gate_row_def refuse_def split: if_splits)

lemma gate_row_Cached: "gate_row i name a args row = Cached v \<Longrightarrow> js_truthy (ap_consumedAt row)"
  by (auto simp: gate_row_def split: if_splits jsval.splits)

lemma approval_step_row:
  assumes st: "approval_step rt gate i token scope ctx perm name args s = (Inr out, s')"
  shows "(\<exists>r. out = Respond r \<and> rr_error r \<noteq> None) \<or>
    (\<exists>a row. inbound_id ctx = Some a \<and> ga_get gate scope a s = Inr (Some row) \<and> out = gate_row i name a args row \<and> s' = s)"
proof (cases "inbound_id ctx")
  case None
  then show ?thesis
    using st by (auto simp: approval_step_def open_approval_def refuse_def split: prod.splits sum.splits)
next
  case (Some a)
  then show ?thesis
    using st by (cases "ga_get gate scope a s") (auto simp: approval_step_def refuse_def split: option.splits)
qed

text \<open>
  An answered call under the gate went through a row of the ledger; either the row was spent
  already or the handler ran and the row was then stamped.
\<close>

lemma answered_call:
  assumes h: "handle rt req token ctx s = (resp, s1)" "rr_error resp = None" "rq_method req = ''tools/call''"
    and n: "js_prop (rq_params req) ''name'' = JStr name" and g: "rt_gate rt = Some gate"
    and p: "resolvePermission (rt_gateway rt) (permission_input token (vt_scope token) name) s = Inr perm"
      "rp_state perm = RequireApproval"
  shows "\<exists>hd args a row. map_of (rt_handlers rt) name = Some hd \<and> inbound_id ctx = Some a \<and>
    ga_get gate (vt_scope token) a s = Inr (Some row) \<and>
    (js_truthy (ap_consumedAt row) \<and> s1 = record_macro rt token hd name args s \<or>
     (\<exists>res s'. mh_execute hd args (vt_scope token) token s = (Inr res, s') \<and>
        s1 = record_macro rt token hd name args (consume_approval rt (vt_scope token) ctx perm res s')))"
proof -
  let ?i = "or_null (rq_id req)" and ?args = "call_arguments (rq_params req)"
  have call: "tools_call rt ?i (rq_params req) token ctx s = (Inr resp, s1)"
    using h by (auto simp: handle_def dispatch_def Let_def refuse_def split: sum.splits prod.splits rpc_throw.splits)
  obtain hd where hd: "map_of (rt_handlers rt) name = Some hd"
    "authorized_call rt ?i token ctx hd name ?args s = (Inr resp, s1)"
    using call h(2) n by (auto simp: tools_call_def refuse_def Let_def split: if_splits option.splits)
  obtain out s' where out: "approval_step rt gate ?i token (vt_scope token) ctx perm name ?args s = (Inr out, s')"
    "run_tool rt ?i token (vt_scope token) ctx perm hd name ?args out s' = (Inr resp, s1)"
    using hd(2) p g by (auto simp: authorized_call_def Let_def split: prod.splits sum.splits)
  have nr: "out \<noteq> Respond r \<or> rr_error r = None" for r
    using out(2) h(2) by (auto simp: run_tool_def Let_def)
  then obtain a row where row: "inbound_id ctx = Some a" "ga_get gate (vt_scope token) a s = Inr (Some row)"
    "out = gate_row ?i name a ?args row" "s' = s"
    using approval_step_row [OF out(1)] by metis
  show ?thesis
  proof (cases out)
    case (Cached v)
    then have "js_truthy (ap_consumedAt row)" "s1 = record_macro rt token hd name ?args s"
      using row out(2) gate_row_Cached [of ?i name a ?args row v] by (simp_all add: run_tool_def Let_def)
    then show ?thesis using row(1,2) hd(1) by blast
  next
    case (Proceed x e)
    then obtain res s' where "mh_execute hd x (vt_scope token) token s = (Inr res, s')"
      "s1 = record_macro rt token hd name x (consume_approval rt (vt_scope token) ctx perm res s')"
      using row(4) out(2) h(2) by (auto simp: run_tool_def Let_def refuse_def split: if_splits prod.splits sum.splits)
    then show ?thesis using row(1,2) hd(1) by blast
  next
    case (Respond r)
    then show ?thesis using nr [of r] gate_row_Respond [OF row(3) [symmetric, unfolded Respond]] by simp
  qed
qed

section \<open>A concrete router\<close>

definition w_schema :: jsval where
  "w_schema = JObj [(''type'', JStr ''object''), (''required'', JArr [JStr ''user'']),
     (''properties'', JObj [(''user'', JObj [(''type'', JStr ''string'')])]), (''additionalProperties'', JBool False)]"

definition approvals_resolve_schema :: jsval where
  "approvals_resolve_schema = JObj [(''type'', JStr ''object''), (''required'', JArr [JStr ''approvalId'', JStr ''status'']),
     (''properties'', JObj [(''approvalId'', JObj [(''type'', JStr ''string'')]),
        (''status'', JObj [(''type'', JStr ''string''),
           (''enum'', JArr [JStr ''approved'', JStr ''rejected'', JStr ''timed_out'', JStr ''approved_with_edits''])]),
        (''comment'', JObj [(''type'', JStr ''string'')]), (''editedArgs'', JObj [(''type'', JStr ''object'')])]),
     (''additionalProperties'', JBool False)]"

definition w_erase :: "approval_row list handler_body" where
  "w_erase args scope token s = (Inr (js_prop args ''user''), s)"

definition w_gate :: "approval_row list approval_gate" where
  "w_gate = controller_gate w_approvals (\<lambda>_. (''1'', ''7'')) (\<lambda>_. 5) (\<lambda>x. x) (\<lambda>_. ''0'') 3600"

definition w_router :: "approval_row list router" where
  "w_router = registerAll \<lparr>rt_handlers = [],
      rt_gateway = \<lparr>gw_policies = focus (\<lambda>_. []) (\<lambda>_ s. s) (double_table po_id),
        gw_bindings = focus (\<lambda>_. []) (\<lambda>_ s. s) (double_table bd_agentId)\<rparr>,
      rt_gate = Some w_gate, rt_approvalTtlSeconds = 3600, rt_recorder = None, rt_showNumber = (\<lambda>_. ''0''),
      rt_dateParse = (\<lambda>_. NaN)\<rparr>
     [\<lparr>mh_name = ''gdpr.erase'', mh_description = [], mh_inputSchema = w_schema, mh_requiresAdminTier = False,
        mh_category = None, mh_macroRecordable = None, mh_execute = w_erase\<rparr>,
      \<lparr>mh_name = ''approvals.resolve'', mh_description = [], mh_inputSchema = approvals_resolve_schema,
        mh_requiresAdminTier = False, mh_category = None, mh_macroRecordable = None,
        mh_execute = (\<lambda>args. approvals_resolve w_approvals (\<lambda>_. 5) (case args of JObj fs \<Rightarrow> fs | _ \<Rightarrow> []))\<rparr>]"

definition w_token :: verified_token where
  "w_token = \<lparr>vt_id = ''k'', vt_scope = w_scope, vt_permissions = [''*''], vt_mintedByUserId = ''u'',
     vt_expiresAt = None, vt_tier = ScopeTier, vt_credential = None\<rparr>"

definition w_call :: "string \<Rightarrow> jsval \<Rightarrow> rpc_request" where
  "w_call name args = \<lparr>rq_id = JNull, rq_method = ''tools/call'', rq_params = JObj [(''name'', JStr name), (''arguments'', args)]\<rparr>"

definition w_erase_call :: "string \<Rightarrow> rpc_request" where
  "w_erase_call user = w_call ''gdpr.erase'' (JObj [(''user'', JStr user)])"

definition w_context :: "string option \<Rightarrow> request_context" where
  "w_context i = \<lparr>cx_approvalId = i, cx_dashboardOrigin = None\<rparr>"

definition answered_text :: "rpc_response \<Rightarrow> jsval" where
  "answered_text r = (case rr_result r of Some (JObj [(_, JArr [JObj [_, (_, t)]])]) \<Rightarrow> t | _ \<Rightarrow> JUndef)"

definition w_requested :: "approval_row list" where
  "w_requested = snd (handle w_router (w_erase_call ''alice'') w_token (w_context None) [])"

definition w_granted :: "approval_row list" where
  "w_granted = snd (resolve w_approvals w_approve 5 w_requested)"

definition w_spent :: "approval_row list" where
  "w_spent = snd (handle w_router (w_erase_call ''alice'') w_token (w_context (Some ''appr_mcp_7'')) w_granted)"

definition w_failing :: "approval_row list handler_body" where
  "w_failing args scope token s = (Inl OtherError, s)"

definition w_permission :: resolved_permission where
  "w_permission = \<lparr>rp_state = RequireApproval, rp_tier = 1, rp_reason = ''tier-1 require_approval''\<rparr>"

lemma w_token_scope: "vt_scope w_token = w_scope"
  by (simp add: w_token_def)

lemma w_router_gate: "rt_gate w_router = Some (controller_gate w_approvals (\<lambda>_. (''1'', ''7'')) (\<lambda>_. 5) (\<lambda>x. x) (\<lambda>_. ''0'') 3600)"
  by (simp add: w_router_def registerAll_def register_def w_gate_def)

lemma w_router_handlers:
  "map_of (rt_handlers w_router) name = Some h \<Longrightarrow> (name = ''gdpr.erase'' \<and> mh_inputSchema h = w_schema \<and> mh_execute h = w_erase) \<or>
     (name = ''approvals.resolve'' \<and> mh_inputSchema h = approvals_resolve_schema)"
  by (auto simp: w_router_def registerAll_def register_def split: if_splits)

lemma w_erase_name: "js_prop (rq_params (w_erase_call user)) ''name'' = JStr ''gdpr.erase''"
  by (simp add: w_erase_call_def w_call_def js_prop_def js_get_def)

lemma w_granted_permission:
  "resolvePermission (rt_gateway w_router) (permission_input w_token (vt_scope w_token) ''gdpr.erase'') w_granted = Inr w_permission"
  by code_simp

lemma w_spent_permission:
  "resolvePermission (rt_gateway w_router) (permission_input w_token (vt_scope w_token) ''gdpr.erase'') w_spent = Inr w_permission"
  by code_simp

lemma w_granted_runs:
  "handle (rewire (\<lambda>_. w_erase) w_router) (w_erase_call ''alice'') w_token (w_context (Some ''appr_mcp_7'')) w_granted \<noteq>
   handle (rewire (\<lambda>_. w_failing) w_router) (w_erase_call ''alice'') w_token (w_context (Some ''appr_mcp_7'')) w_granted"
proof -
  have "answered_text (fst (handle (rewire (\<lambda>_. w_erase) w_router) (w_erase_call ''alice'') w_token
      (w_context (Some ''appr_mcp_7'')) w_granted)) = JStr ''alice''" by code_simp
  moreover have "answered_text (fst (handle (rewire (\<lambda>_. w_failing) w_router) (w_erase_call ''alice'') w_token
      (w_context (Some ''appr_mcp_7'')) w_granted)) = JUndef" by code_simp
  ultimately show ?thesis by auto
qed

lemma object_only: "typeMatches (JStr ''object'') v \<Longrightarrow> \<exists>fs. v = JObj fs"
  by (cases v) (auto simp: typeOfValue_def is_array_def is_integer_def Let_def split: if_splits)

lemma conforms_type: "conforms dp (JObj fs) v \<Longrightarrow> js_get fs ''type'' \<noteq> JUndef \<Longrightarrow> typeMatches (js_get fs ''type'') v"
  by simp

section \<open>Properties\<close>

text \<open>
  C3: A tool runs only when every guard let it through. If the outcome of a request depends
  on the handlers' bodies, it is a call of a registered tool that the token's permissions
  allow, an administrator tool is called with an administrator token, the arguments conform
  to the tool's schema, the permission gateway did not block it, and when an approval is
  required and the gate is wired, the request carries the id of an approval of the token's
  scope that is approved, not expired, not spent and not for another tool.
\<close>

theorem call_guards:
  assumes "handle (rewire f rt) req token ctx s \<noteq> handle (rewire g rt) req token ctx s"
  shows "\<exists>name h perm. rq_method req = ''tools/call'' \<and> js_prop (rq_params req) ''name'' = JStr name \<and>
    allows (vt_permissions token) name \<and> map_of (rt_handlers rt) name = Some h \<and>
    (mh_requiresAdminTier h \<longrightarrow> vt_tier token = AdminTier) \<and>
    conforms (rt_dateParse rt) (mh_inputSchema h) (call_arguments (rq_params req)) \<and>
    resolvePermission (rt_gateway rt) (permission_input token (vt_scope token) name) s = Inr perm \<and> rp_state perm \<noteq> Block \<and>
    (\<forall>gate. rt_gate rt = Some gate \<longrightarrow> rp_state perm = RequireApproval \<longrightarrow>
      (\<exists>a row. inbound_id ctx = Some a \<and> ga_get gate (vt_scope token) a s = Inr (Some row) \<and> approves name row))"
  using handle_diff [OF assms] by blast

theorem call_guards_witness:
  "\<exists>a row. inbound_id (w_context (Some ''appr_mcp_7'')) = Some a \<and>
     ga_get w_gate w_scope a w_granted = Inr (Some row) \<and> approves ''gdpr.erase'' row"
  using call_guards [OF w_granted_runs] w_granted_permission w_router_gate
  by (auto simp: w_erase_name w_token_scope w_gate_def w_permission_def)

text \<open>
  C28: A handler only ever sees arguments that conform to its schema, whether they come from
  the call or from an operator's edit: two routers whose handlers agree on conforming
  arguments answer every request alike.
\<close>

theorem handlers_see_conforming_arguments:
  assumes "\<And>name h args scope tk st. map_of (rt_handlers rt) name = Some h \<Longrightarrow>
    conforms (rt_dateParse rt) (mh_inputSchema h) args \<Longrightarrow> f name args scope tk st = g name args scope tk st"
  shows "handle (rewire f rt) req token ctx s = handle (rewire g rt) req token ctx s"
  using handle_diff [of f rt req token ctx s g] assms by blast

theorem handlers_see_conforming_arguments_witness:
  "handle (rewire (\<lambda>_. w_erase) w_router) (w_call ''gdpr.erase'' (JStr ''x'')) w_token (w_context None) [] =
   handle (rewire (\<lambda>_ args. case args of JObj _ \<Rightarrow> w_erase args | _ \<Rightarrow> w_failing args) w_router)
     (w_call ''gdpr.erase'' (JStr ''x'')) w_token (w_context None) []"
proof (rule handlers_see_conforming_arguments)
  fix name h args scope tk st
  assume h: "map_of (rt_handlers w_router) name = Some h" and c: "conforms (rt_dateParse w_router) (mh_inputSchema h) args"
  obtain fs where fs: "mh_inputSchema h = JObj fs" "js_get fs ''type'' = JStr ''object''"
    using w_router_handlers [OF h] by (auto simp: w_schema_def approvals_resolve_schema_def js_get_def)
  have "typeMatches (JStr ''object'') args" using conforms_type [OF c [unfolded fs(1)]] fs(2) by simp
  then show "w_erase args scope tk st = (case args of JObj _ \<Rightarrow> w_erase args | _ \<Rightarrow> w_failing args) scope tk st"
    using object_only by fastforce
qed

text \<open>
  C1: With the gate of the controller wired, a call that requires an approval runs its handler
  only if the ledger holds, in the token's own scope, an approved and unspent row with the
  approval id the request carries, opened for that tool or for no tool in particular.
\<close>

theorem runs_only_approved:
  assumes "approval_store as rows" "rt_gate rt = Some (controller_gate as fresh clock sha256 ns ttl)"
    and "resolvePermission (rt_gateway rt) (permission_input token (vt_scope token) name) s = Inr perm"
    and "rp_state perm = RequireApproval" "js_prop (rq_params req) ''name'' = JStr name"
    and "handle (rewire f rt) req token ctx s \<noteq> handle (rewire g rt) req token ctx s"
  shows "\<exists>r. r \<in># rows s \<and> approval_matches as (vt_scope token) (trim (opt_else (cx_approvalId ctx) [])) r \<and>
    aw_status r = APPROVED \<and> (aw_toolName r = None \<or> aw_toolName r = Some [] \<or> aw_toolName r = Some name) \<and> \<not> consumed r"
  by (rule approved_row [OF assms])

theorem runs_only_approved_witness:
  "\<exists>r. r \<in># mset w_granted \<and> approval_matches w_approvals w_scope (trim ''appr_mcp_7'') r \<and> aw_status r = APPROVED \<and> \<not> consumed r"
  using runs_only_approved [OF w_store w_router_gate w_granted_permission _ w_erase_name w_granted_runs]
  by (auto simp: w_permission_def w_context_def opt_else_def w_token_scope)





text \<open>
  The gate trims the approval id but the stamp uses it as it came, so an id with a leading
  blank passes the gate and is never spent.
\<close>

lemma padded_id_never_spent:
  "answered_text (fst (handle w_router (w_erase_call ''bob'') w_token (w_context (Some '' appr_mcp_7''))
     (snd (handle w_router (w_erase_call ''alice'') w_token (w_context (Some '' appr_mcp_7'')) w_granted)))) = JStr ''bob''"
  by code_simp

text \<open>The tool that decides approvals reports success for an approval that does not exist.\<close>

lemma approvals_resolve_reports_ok:
  "approvals_resolve w_approvals (\<lambda>_. 5) [(''approvalId'', JStr ''none''), (''status'', JStr ''approved'')] w_scope w_token [] =
   (Inr (JObj [(''ok'', JBool True), (''approvalId'', JStr ''none''), (''status'', JStr ''approved'')]), [])"
  by code_simp

text \<open>A cached result that was not an object comes back wrapped, unlike the first answer.\<close>

lemma cached_answer_differs:
  "answered_text (fst (handle w_router (w_erase_call ''alice'') w_token (w_context (Some ''appr_mcp_7'')) w_spent)) \<noteq> JStr ''alice''"
  by code_simp

end
