(* ===== verification/UrlGuard.thy ===== *)
theory UrlGuard
  imports Prelude "HOL-Library.Word"
begin

text \<open>
  \<open>apps/agent/src/shared/url-validator.ts\<close>: the check on every URL a user supplies, and the fetch
  that repeats it on each redirect and pins the addresses it has checked. The URL parser, the
  resolver and the transport are parameters over a world \<open>'w\<close>, so that two resolutions of one
  name may differ. The address grammar of \<open>node:net\<close> is modelled by parsers into octets and
  groups. The theorems compare the IPv4 classifier with the blocks it names and show what the
  transport is ever asked to do.
\<close>

section \<open>Addresses\<close>

definition digit_of :: "char \<Rightarrow> nat option" where
  "digit_of c = (let n = of_char c :: nat in if 48 \<le> n \<and> n \<le> 57 then Some (n - 48) else None)"

fun read_base :: "nat \<Rightarrow> (char \<Rightarrow> nat option) \<Rightarrow> nat \<Rightarrow> string \<Rightarrow> nat option" where
  "read_base b dig acc [] = Some acc"
| "read_base b dig acc (c # cs) = (case dig c of None \<Rightarrow> None | Some d \<Rightarrow> read_base b dig (b * acc + d) cs)"

fun all_some :: "'a option list \<Rightarrow> 'a list option" where
  "all_some [] = Some []"
| "all_some (x # xs) = (case (x, all_some xs) of (Some y, Some ys) \<Rightarrow> Some (y # ys) | _ \<Rightarrow> None)"

text \<open>An octet has no leading zero and is at most 255.\<close>

definition octet :: "string \<Rightarrow> nat option" where
  "octet s = (if s = [] \<or> 3 < length s \<or> (1 < length s \<and> hd s = CHR ''0'') then None
     else case read_base 10 digit_of 0 s of Some n \<Rightarrow> if n \<le> 255 then Some n else None | None \<Rightarrow> None)"

definition ipv4_octets :: "string \<Rightarrow> nat list option" where
  "ipv4_octets s = (case all_some (map octet (split_on CHR ''.'' s)) of
     Some os \<Rightarrow> if length os = 4 then Some os else None | None \<Rightarrow> None)"

definition isIPv4 :: "string \<Rightarrow> bool" where
  "isIPv4 s \<longleftrightarrow> ipv4_octets s \<noteq> None"

definition v6_seg :: "string \<Rightarrow> nat option" where
  "v6_seg s = (if s = [] \<or> 4 < length s then None else read_base 16 hex_value 0 s)"

text \<open>The groups of a part between double colons; only the very last may be a dotted quad.\<close>

fun v6_part :: "bool \<Rightarrow> string list \<Rightarrow> nat list option" where
  "v6_part final [] = Some []"
| "v6_part final [x] = (case v6_seg x of Some n \<Rightarrow> Some [n]
     | None \<Rightarrow> if final then (case ipv4_octets x of
           Some os \<Rightarrow> Some [256 * os ! 0 + os ! 1, 256 * os ! 2 + os ! 3] | None \<Rightarrow> None) else None)"
| "v6_part final (x # y # ys) = (case (v6_seg x, v6_part final (y # ys)) of
     (Some n, Some ns) \<Rightarrow> Some (n # ns) | _ \<Rightarrow> None)"

fun cut_double :: "string \<Rightarrow> (string \<times> string) option" where
  "cut_double (a # b # cs) = (if a = CHR '':'' \<and> b = CHR '':'' then Some ([], cs)
     else map_option (\<lambda>(l, r). (a # l, r)) (cut_double (b # cs)))"
| "cut_double _ = None"

definition v6_split :: "string \<Rightarrow> string list" where
  "v6_split s = (if s = [] then [] else split_on CHR '':'' s)"

definition zone_char :: "char \<Rightarrow> bool" where
  "zone_char c \<longleftrightarrow> (let n = of_char c :: nat in
     (48 \<le> n \<and> n \<le> 57) \<or> (65 \<le> n \<and> n \<le> 90) \<or> (97 \<le> n \<and> n \<le> 122) \<or> c = CHR ''-'' \<or> c = CHR ''.'' \<or> c = CHR '':'')"

definition zone_ok :: "string \<Rightarrow> bool" where
  "zone_ok z \<longleftrightarrow> z = [] \<or> (tl z \<noteq> [] \<and> list_all zone_char (tl z))"

text \<open>The eight groups of an IPv6 address.\<close>

definition ipv6_groups :: "string \<Rightarrow> nat list option" where
  "ipv6_groups s =
     (let adr = takeWhile (\<lambda>c. c \<noteq> CHR ''%'') s; zone = dropWhile (\<lambda>c. c \<noteq> CHR ''%'') s in
      if \<not> zone_ok zone then None
      else case cut_double adr of
        None \<Rightarrow> (case v6_part True (v6_split adr) of
           Some gs \<Rightarrow> if length gs = 8 then Some gs else None | None \<Rightarrow> None)
      | Some (l, r) \<Rightarrow> (case (v6_part False (v6_split l), v6_part True (v6_split r)) of
           (Some ls, Some rs) \<Rightarrow> if length ls + length rs \<le> 7
             then Some (ls @ replicate (8 - length ls - length rs) 0 @ rs) else None
         | _ \<Rightarrow> None))"

definition isIPv6 :: "string \<Rightarrow> bool" where
  "isIPv6 s \<longleftrightarrow> ipv6_groups s \<noteq> None"

definition isIP :: "string \<Rightarrow> bool" where
  "isIP s \<longleftrightarrow> isIPv4 s \<or> isIPv6 s"

definition unbracketHost :: "string \<Rightarrow> string" where
  "unbracketHost hostname = (if starts_with ''['' hostname \<and> ends_with '']'' hostname then butlast (tl hostname) else hostname)"

definition BLOCKED_PORTS :: "nat list" where
  "BLOCKED_PORTS = [22, 23, 25, 53, 69, 110, 143, 389, 445, 465, 587, 636, 1433, 1521, 2375, 2376,
     3306, 3389, 5432, 5984, 6379, 7000, 7001, 7199, 8086, 9042, 9092, 9200, 9300,
     10250, 10255, 11211, 27017, 27018, 27019]"

definition private_v4 :: "string \<Rightarrow> nat list \<Rightarrow> bool" where
  "private_v4 ip os = (let a = os ! 0; b = os ! 1 in
     a = 10 \<or> a = 127 \<or> a = 0 \<or> (a = 169 \<and> b = 254) \<or> (a = 172 \<and> 16 \<le> b \<and> b \<le> 31) \<or> (a = 192 \<and> b = 168) \<or>
     (a = 100 \<and> 64 \<le> b \<and> b \<le> 127) \<or> 224 \<le> a \<or> (a = 198 \<and> (b = 18 \<or> b = 19)) \<or>
     (a = 192 \<and> b = 0 \<and> starts_with ''192.0.2'' ip) \<or> (a = 198 \<and> b = 51 \<and> starts_with ''198.51.100'' ip) \<or>
     (a = 203 \<and> b = 0 \<and> starts_with ''203.0.113'' ip))"

definition isPrivateOrReservedIp :: "string \<Rightarrow> bool" where
  "isPrivateOrReservedIp ip =
     (case ipv4_octets ip of
        Some os \<Rightarrow> private_v4 ip os
      | None \<Rightarrow>
          isIPv6 ip \<and> (let lower = to_lower ip in
            lower = ''::1'' \<or> lower = ''::'' \<or> starts_with ''fc'' lower \<or> starts_with ''fd'' lower \<or>
            starts_with ''fe80'' lower \<or> starts_with ''ff'' lower \<or>
            (starts_with ''::ffff:'' lower \<and> (let v4 = last (split_on CHR '':'' ip) in
               case ipv4_octets v4 of Some os \<Rightarrow> private_v4 v4 os | None \<Rightarrow> False))))"

section \<open>Validation\<close>

record url =
  u_protocol :: string
  u_username :: string
  u_password :: string
  u_port :: string
  u_hostname :: string

datatype url_error = InvalidUrl string | SchemeBlocked string | CredentialsForbidden | PortBlocked nat
  | IpPrivateOrReserved string | DnsResolvesToPrivate string

record response =
  re_status :: nat
  re_location :: "string option"

type_synonym pins = "(string \<times> string list) list"

text \<open>
  What the code calls: the URL parser, the resolution of a reference against a base, the three
  resolvers, the environment variable, and the transport, which is given the pins its lookup reads.
\<close>

record 'w net_env =
  ne_parseUrl :: "string \<Rightarrow> url option"
  ne_resolveUrl :: "string \<Rightarrow> string \<Rightarrow> string option"
  ne_resolve4 :: "string \<Rightarrow> 'w \<Rightarrow> string list option \<times> 'w"
  ne_resolve6 :: "string \<Rightarrow> 'w \<Rightarrow> string list option \<times> 'w"
  ne_lookup :: "string \<Rightarrow> 'w \<Rightarrow> string list option \<times> 'w"
  ne_allowHttp :: "string option"
  ne_fetch :: "string \<Rightarrow> pins \<Rightarrow> 'w \<Rightarrow> (string + response) \<times> 'w"

definition port_of :: "url \<Rightarrow> nat" where
  "port_of u = (if u_port u \<noteq> [] then (case read_base 10 digit_of 0 (u_port u) of Some n \<Rightarrow> n | None \<Rightarrow> 0)
     else if u_protocol u = ''https:'' then 443 else 80)"

definition scheme_allowed :: "bool \<Rightarrow> url \<Rightarrow> bool" where
  "scheme_allowed allowHttp u \<longleftrightarrow> u_protocol u = ''https:'' \<or> (allowHttp \<and> u_protocol u = ''http:'')"

definition addresses_of :: "'w net_env \<Rightarrow> string \<Rightarrow> 'w \<Rightarrow> string list \<times> 'w" where
  "addresses_of E hostname w =
     (let (v4, w1) = ne_resolve4 E hostname w; (v6, w2) = ne_resolve6 E hostname w1;
          addrs = (case v4 of Some xs \<Rightarrow> xs | None \<Rightarrow> []) @ (case v6 of Some xs \<Rightarrow> xs | None \<Rightarrow> []) in
      if addrs \<noteq> [] then (addrs, w2)
      else (let (looked, w3) = ne_lookup E hostname w2 in (case looked of Some xs \<Rightarrow> xs | None \<Rightarrow> [], w3)))"

definition http_allowed :: "'w net_env \<Rightarrow> bool option \<Rightarrow> bool" where
  "http_allowed E opt = (case opt of Some b \<Rightarrow> b | None \<Rightarrow> ne_allowHttp E = Some ''true'' \<or> ne_allowHttp E = Some ''1'')"

text \<open>\<open>Inr (url, addresses)\<close> is the accepted result; the addresses are absent for a literal address.\<close>

definition validatePublicUrl ::
    "'w net_env \<Rightarrow> string \<Rightarrow> bool option \<Rightarrow> 'w \<Rightarrow> (url_error + (url \<times> string list option)) \<times> 'w" where
  "validatePublicUrl E raw allowHttp w =
     (case ne_parseUrl E raw of
        None \<Rightarrow> (Inl (InvalidUrl ''not a valid URL''), w)
      | Some u \<Rightarrow>
          if \<not> scheme_allowed (http_allowed E allowHttp) u
          then (Inl (SchemeBlocked (takeWhile (\<lambda>c. c \<noteq> CHR '':'') (u_protocol u) @ tl (dropWhile (\<lambda>c. c \<noteq> CHR '':'') (u_protocol u)))), w)
          else if u_username u \<noteq> [] \<or> u_password u \<noteq> [] then (Inl CredentialsForbidden, w)
          else if port_of u \<in> set BLOCKED_PORTS then (Inl (PortBlocked (port_of u)), w)
          else (let hostIp = unbracketHost (u_hostname u) in
            if isIP hostIp then
              (if isPrivateOrReservedIp hostIp then (Inl (IpPrivateOrReserved hostIp), w) else (Inr (u, None), w))
            else (let (addrs, w') = addresses_of E (u_hostname u) w in
              (case find isPrivateOrReservedIp addrs of
                 Some ip \<Rightarrow> Inl (DnsResolvesToPrivate ip) | None \<Rightarrow> Inr (u, Some addrs), w'))))"

definition describeUrlValidationError :: "url_error \<Rightarrow> string" where
  "describeUrlValidationError err = (case err of
       InvalidUrl reason \<Rightarrow> ''invalid URL ('' @ reason @ '')''
     | SchemeBlocked scheme \<Rightarrow> ''URL scheme \"'' @ scheme @ ''\" is not allowed (expected https)''
     | CredentialsForbidden \<Rightarrow> ''URL must not contain credentials (user:pass@host)''
     | PortBlocked port \<Rightarrow> ''port '' @ show_nat port @ '' is blocked''
     | IpPrivateOrReserved ip \<Rightarrow> ''host resolves to a private / reserved IP ('' @ ip @ '')''
     | DnsResolvesToPrivate ip \<Rightarrow> ''host DNS-resolves to a private / reserved IP ('' @ ip @ '')'')"

section \<open>The pinned fetch\<close>

definition pin_set :: "string \<Rightarrow> string list \<Rightarrow> pins \<Rightarrow> pins" where
  "pin_set host addrs ps = (host, addrs) # ps"

text \<open>The lookup of the agent: the addresses pinned for the host, of the family asked for.\<close>

definition pinLookup :: "pins \<Rightarrow> string \<Rightarrow> nat option \<Rightarrow> bool \<Rightarrow> string + (string \<times> nat) list" where
  "pinLookup ps hostname family all_entries =
     (case map_of ps hostname of
        None \<Rightarrow> Inl (''URL blocked: host '' @ hostname @ '' was not IP-validated'')
      | Some addrs \<Rightarrow>
          if addrs = [] then Inl (''URL blocked: host '' @ hostname @ '' was not IP-validated'')
          else (let entries = filter (\<lambda>(_, f). if family = Some 4 \<or> family = Some 6 then Some f = family else True)
                  (map (\<lambda>adr. (adr, if isIPv6 adr then 6 else 4)) addrs) in
            if entries = [] then Inl (''URL blocked: no validated address for '' @ hostname)
            else Inr (if all_entries then entries else [hd entries])))"

datatype fetch_error = UrlBlocked url_error string | Unresolved string | TooManyRedirects nat | BadLocation | Transport string

function fetch_from ::
    "'w net_env \<Rightarrow> nat \<Rightarrow> nat \<Rightarrow> string \<Rightarrow> pins \<Rightarrow> 'w \<Rightarrow> (fetch_error + response) \<times> 'w" where
  "fetch_from E maxRedirects hops currentUrl ps w =
     (case validatePublicUrl E currentUrl None w of
        (Inl e, w1) \<Rightarrow> (Inl (UrlBlocked e currentUrl), w1)
      | (Inr (u, addresses), w1) \<Rightarrow>
          (let host = u_hostname u; literal = isIP (unbracketHost host) in
           if \<not> literal \<and> (addresses = None \<or> addresses = Some []) then (Inl (Unresolved host), w1)
           else (let ps' = (if literal then ps else pin_set host (the addresses) ps) in
             case ne_fetch E currentUrl ps' w1 of
               (Inl e, w2) \<Rightarrow> (Inl (Transport e), w2)
             | (Inr res, w2) \<Rightarrow>
                 if re_status res < 300 \<or> 400 \<le> re_status res then (Inr res, w2)
                 else (case re_location res of
                    None \<Rightarrow> (Inr res, w2)
                  | Some location \<Rightarrow>
                      if location = [] then (Inr res, w2)
                      else if maxRedirects \<le> hops then (Inl (TooManyRedirects maxRedirects), w2)
                      else (case ne_resolveUrl E location currentUrl of
                         None \<Rightarrow> (Inl BadLocation, w2)
                       | Some next_url \<Rightarrow> fetch_from E maxRedirects (Suc hops) next_url ps' w2)))))"
  by pat_completeness auto
termination
  by (relation "measure (\<lambda>(E, m, h, _). m - h)") auto

declare fetch_from.simps [simp del]

definition fetchWithValidatedRedirects :: "'w net_env \<Rightarrow> string \<Rightarrow> nat \<Rightarrow> 'w \<Rightarrow> (fetch_error + response) \<times> 'w" where
  "fetchWithValidatedRedirects E rawUrl maxRedirects w = fetch_from E maxRedirects 0 rawUrl [] w"

section \<open>The IPv4 blocks\<close>

definition quad :: "nat \<Rightarrow> nat \<Rightarrow> nat \<Rightarrow> nat \<Rightarrow> string" where
  "quad a b c d = show_nat a @ ''.'' @ show_nat b @ ''.'' @ show_nat c @ ''.'' @ show_nat d"

definition quad_nat :: "nat \<Rightarrow> nat \<Rightarrow> nat \<Rightarrow> nat \<Rightarrow> nat" where
  "quad_nat a b c d = 16777216 * a + 65536 * b + 256 * c + d"

definition quad_word :: "nat \<Rightarrow> nat \<Rightarrow> nat \<Rightarrow> nat \<Rightarrow> 32 word" where
  "quad_word a b c d = of_nat (quad_nat a b c d)"

text \<open>Membership in a block: the leading \<open>len\<close> bits agree.\<close>

definition in_block :: "32 word \<Rightarrow> 32 word \<times> nat \<Rightarrow> bool" where
  "in_block w blk = (drop_bit (32 - snd blk) w = drop_bit (32 - snd blk) (fst blk))"

text \<open>The blocks the comments of the classifier name.\<close>

definition RESERVED_V4 :: "(32 word \<times> nat) list" where
  "RESERVED_V4 = [(quad_word 10 0 0 0, 8), (quad_word 127 0 0 0, 8), (quad_word 0 0 0 0, 8), (quad_word 169 254 0 0, 16),
     (quad_word 172 16 0 0, 12), (quad_word 192 168 0 0, 16), (quad_word 100 64 0 0, 10), (quad_word 224 0 0 0, 4),
     (quad_word 240 0 0 0, 4), (quad_word 198 18 0 0, 15), (quad_word 192 0 2 0, 24), (quad_word 198 51 100 0, 24),
     (quad_word 203 0 113 0, 24)]"

lemma quad_nat_less: "a < 256 \<Longrightarrow> b < 256 \<Longrightarrow> c < 256 \<Longrightarrow> d < 256 \<Longrightarrow> quad_nat a b c d < 2 ^ 32"
  by (simp add: quad_nat_def)

lemma in_block_nat:
  assumes "n < 2 ^ 32" "m < 2 ^ 32"
  shows "in_block (of_nat n) (of_nat m, len) \<longleftrightarrow> n div 2 ^ (32 - len) = m div 2 ^ (32 - len)"
proof -
  have u: "unat (drop_bit k (of_nat x :: 32 word)) = x div 2 ^ k" if "x < 2 ^ 32" for k x
  proof -
    have "unat (of_nat x :: 32 word) = x" using that by (simp add: unat_of_nat)
    then show ?thesis using unat_drop_bit_eq [of k "of_nat x :: 32 word"] by (simp only: drop_bit_eq_div [where 'a = nat])
  qed
  show ?thesis unfolding in_block_def using u [OF assms(1)] u [OF assms(2)] by (simp add: word_unat_eq_iff)
qed

lemma quad_div:
  assumes "b < 256" "c < 256" "d < 256"
  shows "quad_nat a b c d div 2 ^ 24 = a" "quad_nat a b c d div 2 ^ 16 = 256 * a + b"
    "quad_nat a b c d div 2 ^ 20 = 16 * a + b div 16" "quad_nat a b c d div 2 ^ 22 = 4 * a + b div 64"
    "quad_nat a b c d div 2 ^ 28 = a div 16" "quad_nat a b c d div 2 ^ 17 = 128 * a + b div 2"
    "quad_nat a b c d div 2 ^ 8 = 65536 * a + 256 * b + c"
proof -
  have 8: "quad_nat a b c d div 2 ^ 8 = 65536 * a + 256 * b + c" using assms by (simp add: quad_nat_def)
  have "quad_nat a b c d div 2 ^ 16 = quad_nat a b c d div 2 ^ 8 div 256" by (simp add: div_mult2_eq [symmetric])
  also have "\<dots> = 256 * a + b" unfolding 8 using assms by simp
  finally have 16: "quad_nat a b c d div 2 ^ 16 = 256 * a + b" .
  have up: "quad_nat a b c d div 2 ^ (16 + k) = (256 * a + b) div 2 ^ k" for k
    by (simp add: 16 [symmetric] power_add div_mult2_eq)
  show "quad_nat a b c d div 2 ^ 8 = 65536 * a + 256 * b + c" by (rule 8)
  show "quad_nat a b c d div 2 ^ 16 = 256 * a + b" by (rule 16)
  show "quad_nat a b c d div 2 ^ 24 = a" using up [of 8] assms by simp
  show "quad_nat a b c d div 2 ^ 20 = 16 * a + b div 16" using up [of 4] by simp
  show "quad_nat a b c d div 2 ^ 22 = 4 * a + b div 64" using up [of 6] by simp
  show "quad_nat a b c d div 2 ^ 17 = 128 * a + b div 2" using up [of 1] by simp
  have "(256 * a + b) div 2 ^ 12 = (256 * a + b) div 256 div 16" by (simp add: div_mult2_eq [symmetric])
  then show "quad_nat a b c d div 2 ^ 28 = a div 16" using up [of 12] assms by simp
qed

lemma octet_digits:
  assumes "n < 256"
  shows "show_nat n = (if n < 10 then [digit_char n] else if n < 100 then [digit_char (n div 10), digit_char (n mod 10)]
    else [digit_char (n div 100), digit_char (n div 10 mod 10), digit_char (n mod 10)])"
proof -
  have h: "n div 10 div 10 = n div 100" by (simp add: div_mult2_eq [symmetric])
  consider "n < 10" | "10 \<le> n" "n < 100" "n div 10 < 10" | "100 \<le> n" "10 \<le> n div 10" "n div 100 < 10" using assms by linarith
  then show ?thesis
    by cases (simp_all add: show_nat.simps [of n] show_nat.simps [of "n div 10"] show_nat.simps [of "n div 100"] h)
qed

lemma digit_char_simps:
  assumes "d < 10"
  shows "digit_of (digit_char d) = Some d" "digit_char d = CHR ''0'' \<longleftrightarrow> d = 0" "digit_char d = CHR ''2'' \<longleftrightarrow> d = 2"
    "digit_char d \<noteq> CHR ''.''" "CHR ''.'' \<noteq> digit_char d"
proof -
  have n: "of_char (digit_char d) = 48 + d" using assms by (simp add: digit_char_def)
  show "digit_of (digit_char d) = Some d" using assms by (simp add: digit_of_def n)
  have eq: "digit_char d = x \<longleftrightarrow> 48 + d = of_char x" for x using n by (metis char_of_char)
  show "digit_char d = CHR ''0'' \<longleftrightarrow> d = 0" "digit_char d = CHR ''2'' \<longleftrightarrow> d = 2" "digit_char d \<noteq> CHR ''.''" "CHR ''.'' \<noteq> digit_char d"
    using assms eq [of "CHR ''.''"] by (auto simp: eq dest: sym)
qed

lemma no_dot: "n < 256 \<Longrightarrow> CHR ''.'' \<notin> set (show_nat n)"
  by (subst octet_digits) (auto simp: digit_char_simps)

lemma octet_show:
  assumes "n < 256"
  shows "octet (show_nat n) = Some n"
proof -
  have two: "10 * (n div 10) + n mod 10 = n" by (rule mult_div_mod_eq)
  have "n div 100 = n div 10 div 10" by (simp add: div_mult2_eq [symmetric])
  then have "10 * (n div 100) + n div 10 mod 10 = n div 10" by (simp only: mult_div_mod_eq)
  then have three: "10 * (10 * (n div 100) + n div 10 mod 10) + n mod 10 = n" by (simp only: two)
  consider "n < 10" | "10 \<le> n" "n < 100" | "100 \<le> n" by linarith
  then show ?thesis
  proof cases
    case 1
    then show ?thesis by (simp add: octet_digits octet_def digit_char_simps)
  next
    case 2
    then have s: "show_nat n = [digit_char (n div 10), digit_char (n mod 10)]" and d: "n div 10 < 10" "n div 10 \<noteq> 0"
      using assms octet_digits [of n] by auto
    show ?thesis unfolding s octet_def using d assms two by (simp add: digit_char_simps)
  next
    case 3
    then have s: "show_nat n = [digit_char (n div 100), digit_char (n div 10 mod 10), digit_char (n mod 10)]"
      and d: "n div 100 < 10" "n div 100 \<noteq> 0"
      using assms octet_digits [of n] by auto
    have "read_base 10 digit_of 0 (show_nat n) = Some (10 * (10 * (n div 100) + n div 10 mod 10) + n mod 10)"
      unfolding s using d by (simp only: read_base.simps digit_char_simps option.case) (simp add: digit_char_simps)
    then have "read_base 10 digit_of 0 (show_nat n) = Some n" by (simp only: three)
    moreover have "length (show_nat n) = 3" "hd (show_nat n) \<noteq> CHR ''0''" unfolding s using d by (simp_all add: digit_char_simps)
    ultimately show ?thesis using assms by (auto simp: octet_def)
  qed
qed

lemma quad_octets:
  assumes "a < 256" "b < 256" "c < 256" "d < 256"
  shows "ipv4_octets (quad a b c d) = Some [a, b, c, d]"
proof -
  have "split_on CHR ''.'' (join ''.'' [show_nat a, show_nat b, show_nat c, show_nat d]) = [show_nat a, show_nat b, show_nat c, show_nat d]"
    using assms by (intro split_on_join) (auto simp: no_dot)
  then have "split_on CHR ''.'' (quad a b c d) = [show_nat a, show_nat b, show_nat c, show_nat d]" by (simp add: quad_def)
  then show ?thesis using assms by (simp add: ipv4_octets_def octet_show)
qed

text \<open>The third octets whose decimal form starts with a two.\<close>

lemma starts_two:
  assumes "n < 256"
  shows "starts_with ''2'' (show_nat n @ s) \<longleftrightarrow> n = 2 \<or> (20 \<le> n \<and> n \<le> 29) \<or> 200 \<le> n"
proof -
  consider "n < 10" | "10 \<le> n" "n < 100" | "100 \<le> n" by linarith
  then show ?thesis
  proof cases
    case 1
    then show ?thesis using assms by (simp add: octet_digits starts_with_def digit_char_simps)
  next
    case 2
    then have "n div 10 < 10" by simp
    moreover have "n div 10 = 2 \<longleftrightarrow> 20 \<le> n \<and> n \<le> 29" by linarith
    ultimately show ?thesis using 2 assms by (simp add: octet_digits starts_with_def digit_char_simps)
  next
    case 3
    then have "n div 100 < 10" using assms by simp
    moreover have "n div 100 = 2 \<longleftrightarrow> 200 \<le> n" using assms by linarith
    ultimately show ?thesis using 3 assms by (simp add: octet_digits starts_with_def digit_char_simps)
  qed
qed

lemma starts_octet:
  assumes "n < 256" "m < 256" "100 \<le> m"
  shows "starts_with (show_nat m) (show_nat n @ ''.'' @ s) \<longleftrightarrow> n = m"
proof
  assume sw: "starts_with (show_nat m) (show_nat n @ ''.'' @ s)"
  have l: "length (show_nat m) = 3" "length (show_nat n) \<le> 3" using assms by (auto simp: octet_digits)
  then have "length (show_nat n) = 3"
    using sw no_dot [OF assms(2)] by (cases "length (show_nat n) = 3")
      (auto simp: starts_with_def take_Cons' dest!: arg_cong [where f = set])
  then have "show_nat n = show_nat m" using sw l by (simp add: starts_with_def)
  then show "n = m" using octet_show assms(1,2) by (metis option.inject)
qed simp

lemma block_quad:
  assumes "a < 256" "b < 256" "c < 256" "d < 256" "a' < 256" "b' < 256" "c' < 256" "d' < 256"
  shows "in_block (quad_word a b c d) (quad_word a' b' c' d', len) \<longleftrightarrow>
    quad_nat a b c d div 2 ^ (32 - len) = quad_nat a' b' c' d' div 2 ^ (32 - len)"
  unfolding quad_word_def by (rule in_block_nat; rule quad_nat_less) (use assms in simp_all)

lemma digits_eq:
  fixes k :: nat
  assumes "b < k" "b' < k"
  shows "k * a + b = k * a' + b' \<longleftrightarrow> a = a' \<and> b = b'"
proof
  assume eq: "k * a + b = k * a' + b'"
  have "(k * a + b) div k = a" "(k * a' + b') div k = a'" "(k * a + b) mod k = b" "(k * a' + b') mod k = b'" using assms by simp_all
  then show "a = a' \<and> b = b'" using eq by simp
qed simp

lemma block_lengths:
  assumes "a < 256" "b < 256" "c < 256" "d < 256" "a' < 256" "b' < 256" "c' < 256"
  shows "in_block (quad_word a b c d) (quad_word a' 0 0 0, 8) \<longleftrightarrow> a = a'"
    "in_block (quad_word a b c d) (quad_word a' b' 0 0, 16) \<longleftrightarrow> a = a' \<and> b = b'"
    "in_block (quad_word a b c d) (quad_word a' b' 0 0, 12) \<longleftrightarrow> a = a' \<and> b div 16 = b' div 16"
    "in_block (quad_word a b c d) (quad_word a' b' 0 0, 10) \<longleftrightarrow> a = a' \<and> b div 64 = b' div 64"
    "in_block (quad_word a b c d) (quad_word a' 0 0 0, 4) \<longleftrightarrow> a div 16 = a' div 16"
    "in_block (quad_word a b c d) (quad_word a' b' 0 0, 15) \<longleftrightarrow> a = a' \<and> b div 2 = b' div 2"
    "in_block (quad_word a b c d) (quad_word a' b' c' 0, 24) \<longleftrightarrow> a = a' \<and> b = b' \<and> c = c'"
proof -
  have e: "32 - 8 = (24::nat)" "32 - 16 = (16::nat)" "32 - 12 = (20::nat)" "32 - 10 = (22::nat)" "32 - 4 = (28::nat)"
    "32 - 15 = (17::nat)" "32 - 24 = (8::nat)" by simp_all
  have z: "(0::nat) < 256" by simp
  note bq = block_quad [OF assms(1-4) assms(5)]
  note qd = quad_div [OF assms(2-4)]
  have bounds: "b div 16 < 16" "b' div 16 < 16" "b div 64 < 4" "b' div 64 < 4" "b div 2 < 128" "b' div 2 < 128" using assms by linarith+
  show "in_block (quad_word a b c d) (quad_word a' 0 0 0, 8) \<longleftrightarrow> a = a'"
    unfolding bq [OF z z z] e qd quad_div [OF z z z] ..
  show "in_block (quad_word a b c d) (quad_word a' b' 0 0, 16) \<longleftrightarrow> a = a' \<and> b = b'"
    unfolding bq [OF assms(6) z z] e qd quad_div [OF assms(6) z z] by (rule digits_eq) (fact assms)+
  show "in_block (quad_word a b c d) (quad_word a' b' 0 0, 12) \<longleftrightarrow> a = a' \<and> b div 16 = b' div 16"
    unfolding bq [OF assms(6) z z] e qd quad_div [OF assms(6) z z] by (rule digits_eq) (fact bounds)+
  show "in_block (quad_word a b c d) (quad_word a' b' 0 0, 10) \<longleftrightarrow> a = a' \<and> b div 64 = b' div 64"
    unfolding bq [OF assms(6) z z] e qd quad_div [OF assms(6) z z] by (rule digits_eq) (fact bounds)+
  show "in_block (quad_word a b c d) (quad_word a' 0 0 0, 4) \<longleftrightarrow> a div 16 = a' div 16"
    unfolding bq [OF z z z] e qd quad_div [OF z z z] ..
  show "in_block (quad_word a b c d) (quad_word a' b' 0 0, 15) \<longleftrightarrow> a = a' \<and> b div 2 = b' div 2"
    unfolding bq [OF assms(6) z z] e qd quad_div [OF assms(6) z z] by (rule digits_eq) (fact bounds)+
  show "in_block (quad_word a b c d) (quad_word a' b' c' 0, 24) \<longleftrightarrow> a = a' \<and> b = b' \<and> c = c'"
    unfolding bq [OF assms(6,7) z] e qd quad_div [OF assms(6,7) z]
    using digits_eq [OF assms(3,7), of "256 * a + b" "256 * a' + b'"] digits_eq [OF assms(2,6), of a a'] by simp
qed

lemma starts_with_app: "starts_with (p @ q) (p @ s) \<longleftrightarrow> starts_with q s"
  by (simp add: starts_with_def)

lemma test_nets:
  assumes "c < 256"
  shows "starts_with ''192.0.2'' (quad 192 0 c d) \<longleftrightarrow> c = 2 \<or> (20 \<le> c \<and> c \<le> 29) \<or> 200 \<le> c"
    "starts_with ''198.51.100'' (quad 198 51 c d) \<longleftrightarrow> c = 100" "starts_with ''203.0.113'' (quad 203 0 c d) \<longleftrightarrow> c = 113"
proof -
  have s: "show_nat 192 = ''192''" "show_nat 0 = ''0''" "show_nat 198 = ''198''" "show_nat 51 = ''51''" "show_nat 203 = ''203''"
    "show_nat 100 = ''100''" "show_nat 113 = ''113''" by code_simp+
  show "starts_with ''192.0.2'' (quad 192 0 c d) \<longleftrightarrow> c = 2 \<or> (20 \<le> c \<and> c \<le> 29) \<or> 200 \<le> c"
    using starts_with_app [of "''192.0.''" "''2''"] starts_two [OF assms] by (simp add: quad_def s)
  show "starts_with ''198.51.100'' (quad 198 51 c d) \<longleftrightarrow> c = 100"
    using starts_with_app [of "''198.51.''" "''100''"] starts_octet [OF assms, of 100] by (simp add: quad_def s)
  show "starts_with ''203.0.113'' (quad 203 0 c d) \<longleftrightarrow> c = 113"
    using starts_with_app [of "''203.0.''" "''113''"] starts_octet [OF assms, of 113] by (simp add: quad_def s)
qed

lemma reserved_arith:
  assumes "a < 256" "b < 256" "c < 256" "d < 256"
  shows "list_ex (in_block (quad_word a b c d)) RESERVED_V4 \<longleftrightarrow> a = 10 \<or> a = 127 \<or> a = 0 \<or> (a = 169 \<and> b = 254) \<or>
    (a = 172 \<and> 16 \<le> b \<and> b \<le> 31) \<or> (a = 192 \<and> b = 168) \<or> (a = 100 \<and> 64 \<le> b \<and> b \<le> 127) \<or> 224 \<le> a \<or>
    (a = 198 \<and> (b = 18 \<or> b = 19)) \<or> (a = 192 \<and> b = 0 \<and> c = 2) \<or> (a = 198 \<and> b = 51 \<and> c = 100) \<or> (a = 203 \<and> b = 0 \<and> c = 113)"
proof -
  have d: "b div 16 = 1 \<longleftrightarrow> 16 \<le> b \<and> b \<le> 31" "b div 64 = 1 \<longleftrightarrow> 64 \<le> b \<and> b \<le> 127"
    "b div 2 = 9 \<longleftrightarrow> b = 18 \<or> b = 19" by linarith+
  have top: "224 \<le> a \<longleftrightarrow> a div 16 = 14 \<or> a div 16 = 15" using assms(1) by linarith
  have "list_ex (in_block (quad_word a b c d)) RESERVED_V4 \<longleftrightarrow> a = 10 \<or> a = 127 \<or> a = 0 \<or> (a = 169 \<and> b = 254) \<or>
    (a = 172 \<and> b div 16 = 1) \<or> (a = 192 \<and> b = 168) \<or> (a = 100 \<and> b div 64 = 1) \<or> a div 16 = 14 \<or> a div 16 = 15 \<or>
    (a = 198 \<and> b div 2 = 9) \<or> (a = 192 \<and> b = 0 \<and> c = 2) \<or> (a = 198 \<and> b = 51 \<and> c = 100) \<or> (a = 203 \<and> b = 0 \<and> c = 113)"
    unfolding RESERVED_V4_def using assms by (simp add: block_lengths)
  then show ?thesis unfolding top d by (simp only: disj_assoc)
qed

section \<open>What the transport is asked\<close>

text \<open>The same network, with a record of every call of the transport.\<close>

definition lift_log :: "('w \<Rightarrow> 'r \<times> 'w) \<Rightarrow> 'w \<times> 'l \<Rightarrow> 'r \<times> 'w \<times> 'l" where
  "lift_log f wl = (let (r, w') = f (fst wl) in (r, w', snd wl))"

definition logged :: "'w net_env \<Rightarrow> ('w \<times> (string \<times> pins) list) net_env" where
  "logged E = \<lparr>ne_parseUrl = ne_parseUrl E, ne_resolveUrl = ne_resolveUrl E,
     ne_resolve4 = (\<lambda>h. lift_log (ne_resolve4 E h)), ne_resolve6 = (\<lambda>h. lift_log (ne_resolve6 E h)),
     ne_lookup = (\<lambda>h. lift_log (ne_lookup E h)), ne_allowHttp = ne_allowHttp E,
     ne_fetch = (\<lambda>u ps wl. let (r, w') = ne_fetch E u ps (fst wl) in (r, w', snd wl @ [(u, ps)]))\<rparr>"

lemma logged_sel:
  "ne_parseUrl (logged E) = ne_parseUrl E" "ne_resolveUrl (logged E) = ne_resolveUrl E" "ne_allowHttp (logged E) = ne_allowHttp E"
  "ne_fetch (logged E) u ps (w, l) = (let (r, w') = ne_fetch E u ps w in (r, w', l @ [(u, ps)]))"
  by (simp_all add: logged_def)

lemma addresses_logged: "addresses_of (logged E) h (w, l) = (fst (addresses_of E h w), snd (addresses_of E h w), l)"
  by (simp add: addresses_of_def logged_def lift_log_def Let_def split: prod.splits)

lemma validate_logged:
  "validatePublicUrl (logged E) raw opt (w, l) = (fst (validatePublicUrl E raw opt w), snd (validatePublicUrl E raw opt w), l)"
  by (simp add: validatePublicUrl_def logged_sel http_allowed_def addresses_logged Let_def split: option.splits prod.splits)

definition pins_public :: "pins \<Rightarrow> bool" where
  "pins_public ps \<longleftrightarrow> list_all (\<lambda>(h, adrs). list_all (\<lambda>adr. \<not> isPrivateOrReservedIp adr) adrs) ps"

text \<open>
  The addresses a call can connect to: the host itself when it is a literal address, and
  otherwise what the lookup answers for it.
\<close>

definition reachable :: "url \<Rightarrow> pins \<Rightarrow> string list" where
  "reachable u ps = (if isIP (unbracketHost (u_hostname u)) then [unbracketHost (u_hostname u)]
     else case pinLookup ps (u_hostname u) None True of Inl e \<Rightarrow> [] | Inr es \<Rightarrow> map fst es)"

definition safe_call :: "'w net_env \<Rightarrow> string \<times> pins \<Rightarrow> bool" where
  "safe_call E call = (case ne_parseUrl E (fst call) of
       None \<Rightarrow> False
     | Some u \<Rightarrow> scheme_allowed (http_allowed E None) u \<and> u_username u = [] \<and> u_password u = [] \<and>
         port_of u \<notin> set BLOCKED_PORTS \<and> reachable u (snd call) \<noteq> [] \<and>
         list_all (\<lambda>adr. \<not> isPrivateOrReservedIp adr) (reachable u (snd call)))"

lemma pinLookup_public:
  assumes "pins_public ps" "pinLookup ps h fam al = Inr es"
  shows "list_all (\<lambda>e. \<not> isPrivateOrReservedIp (fst e)) es"
proof -
  obtain adrs where a: "map_of ps h = Some adrs"
    using assms(2) by (auto simp: pinLookup_def split: option.splits)
  have pub: "\<not> isPrivateOrReservedIp adr" if "adr \<in> set adrs" for adr
    using assms(1) map_of_SomeD [OF a] that by (auto simp: pins_public_def list_all_iff)
  define entries where "entries = filter (\<lambda>(_, f). if fam = Some 4 \<or> fam = Some 6 then Some f = fam else True)
    (map (\<lambda>adr. (adr, if isIPv6 adr then 6 else 4 :: nat)) adrs)"
  have "entries \<noteq> []" "es = (if al then entries else [hd entries])"
    using assms(2) a by (auto simp: pinLookup_def Let_def entries_def [symmetric] split: if_splits)
  moreover have "fst e \<in> set adrs" if "e \<in> set entries" for e using that by (auto simp: entries_def)
  ultimately show ?thesis using pub hd_in_set [of entries] by (auto simp: list_all_iff)
qed

lemma validated:
  assumes "validatePublicUrl E raw opt w = (Inr (u, addresses), w')"
  shows "ne_parseUrl E raw = Some u \<and> scheme_allowed (http_allowed E opt) u \<and> u_username u = [] \<and> u_password u = [] \<and>
    port_of u \<notin> set BLOCKED_PORTS \<and>
    (if isIP (unbracketHost (u_hostname u)) then \<not> isPrivateOrReservedIp (unbracketHost (u_hostname u))
     else \<exists>adrs. addresses = Some adrs \<and> list_all (\<lambda>adr. \<not> isPrivateOrReservedIp adr) adrs)"
  using assms by (auto simp: validatePublicUrl_def Let_def find_None_iff list_all_iff split: option.splits if_splits prod.splits)

lemma pinned_call_safe:
  assumes v: "validatePublicUrl E raw None w = (Inr (u, addresses), w')" and pub: "pins_public ps"
    and "ps' = (if isIP (unbracketHost (u_hostname u)) then ps else pin_set (u_hostname u) (the addresses) ps)"
    and "\<not> (\<not> isIP (unbracketHost (u_hostname u)) \<and> (addresses = None \<or> addresses = Some []))"
  shows "safe_call E (raw, ps') \<and> pins_public ps'"
proof -
  note ok = validated [OF v]
  have pub': "pins_public ps'" using ok pub assms(3) by (auto simp: pins_public_def pin_set_def)
  have "reachable u ps' \<noteq> [] \<and> list_all (\<lambda>adr. \<not> isPrivateOrReservedIp adr) (reachable u ps')"
  proof (cases "isIP (unbracketHost (u_hostname u))")
    case True
    then show ?thesis using ok by (simp add: reachable_def)
  next
    case False
    then obtain adrs where "addresses = Some adrs" "adrs \<noteq> []" "list_all (\<lambda>adr. \<not> isPrivateOrReservedIp adr) adrs"
      using ok assms(4) by auto
    then show ?thesis using False assms(3)
      by (simp add: reachable_def pinLookup_def pin_set_def Let_def comp_def case_prod_beta)
  qed
  then show ?thesis using ok pub' by (simp add: safe_call_def)
qed

text \<open>How one round of the loop ends: with an answer, or with the next URL.\<close>

definition follow :: "'w net_env \<Rightarrow> nat \<Rightarrow> nat \<Rightarrow> string \<Rightarrow> string + response \<Rightarrow> (fetch_error + response) + string" where
  "follow E m h cur r = (case r of
       Inl e \<Rightarrow> Inl (Inl (Transport e))
     | Inr res \<Rightarrow> if re_status res < 300 \<or> 400 \<le> re_status res then Inl (Inr res)
         else (case re_location res of
            None \<Rightarrow> Inl (Inr res)
          | Some location \<Rightarrow> if location = [] then Inl (Inr res)
              else if m \<le> h then Inl (Inl (TooManyRedirects m))
              else (case ne_resolveUrl E location cur of None \<Rightarrow> Inl (Inl BadLocation) | Some nxt \<Rightarrow> Inr nxt)))"

lemma follow_next: "follow E m h cur r = Inr nxt \<Longrightarrow> h < m"
  by (auto simp: follow_def split: sum.splits option.splits if_splits)

lemma follow_logged: "follow (logged E) m h cur r = follow E m h cur r"
  unfolding follow_def logged_sel ..

lemma fetch_round:
  assumes "validatePublicUrl E cur None w = (Inr (u, addresses), w1)"
    and "\<not> (\<not> isIP (unbracketHost (u_hostname u)) \<and> (addresses = None \<or> addresses = Some []))"
    and "ps' = (if isIP (unbracketHost (u_hostname u)) then ps else pin_set (u_hostname u) (the addresses) ps)"
    and "ne_fetch E cur ps' w1 = (r, w2)"
  shows "fetch_from E m h cur ps w = (case follow E m h cur r of Inl a \<Rightarrow> (a, w2) | Inr nxt \<Rightarrow> fetch_from E m (Suc h) nxt ps' w2)"
proof -
  have "fetch_from E m h cur ps w = (case (r, w2) of
      (Inl e, w2) \<Rightarrow> (Inl (Transport e), w2)
    | (Inr res, w2) \<Rightarrow>
        if re_status res < 300 \<or> 400 \<le> re_status res then (Inr res, w2)
        else (case re_location res of
           None \<Rightarrow> (Inr res, w2)
         | Some location \<Rightarrow>
             if location = [] then (Inr res, w2)
             else if m \<le> h then (Inl (TooManyRedirects m), w2)
             else (case ne_resolveUrl E location cur of
                None \<Rightarrow> (Inl BadLocation, w2)
              | Some next_url \<Rightarrow> fetch_from E m (Suc h) next_url ps' w2)))"
    unfolding fetch_from.simps [of E m h cur ps w] assms(1) Let_def
    by (simp only: prod.case sum.case assms(2) if_False assms(3) [symmetric] assms(4))
  then show ?thesis by (simp add: follow_def split: sum.splits option.splits)
qed

lemma fetch_log:
  assumes "pins_public ps" "fetch_from (logged E) m h cur ps (w, l) = (res, w', l')" "h \<le> m"
  shows "\<exists>calls. l' = l @ calls \<and> length calls \<le> Suc (m - h) \<and>
    list_all (\<lambda>c. safe_call E c \<and> pins_public (snd c)) calls \<and> fetch_from E m h cur ps w = (res, w')"
  using assms
proof (induction "m - h" arbitrary: h cur ps w l rule: less_induct)
  case less
  obtain vr w1 where v: "validatePublicUrl E cur None w = (vr, w1)" by fastforce
  then have vl: "validatePublicUrl (logged E) cur None (w, l) = (vr, w1, l)" by (simp add: validate_logged)
  show ?case
  proof (cases vr)
    case (Inl e)
    then show ?thesis using less.prems(2) v vl by (simp add: fetch_from.simps)
  next
    case (Inr ua)
    obtain u addresses where ua: "ua = (u, addresses)" by fastforce
    let ?stuck = "\<not> isIP (unbracketHost (u_hostname u)) \<and> (addresses = None \<or> addresses = Some [])"
    show ?thesis
    proof (cases ?stuck)
      case True
      then show ?thesis using less.prems(2) v vl Inr ua by (auto simp: fetch_from.simps Let_def)
    next
      case False
      define ps' where ps': "ps' = (if isIP (unbracketHost (u_hostname u)) then ps else pin_set (u_hostname u) (the addresses) ps)"
      obtain r w2 where f: "ne_fetch E cur ps' w1 = (r, w2)" by fastforce
      then have fl: "ne_fetch (logged E) cur ps' (w1, l) = (r, w2, l @ [(cur, ps')])" by (simp add: logged_sel)
      note here = fetch_round [OF v [unfolded Inr ua] False ps' f, of m h]
      note logd = fetch_round [OF vl [unfolded Inr ua] False ps' fl, of m h, unfolded follow_logged]
      have safe: "safe_call E (cur, ps')" "pins_public ps'"
        using pinned_call_safe [OF v [unfolded Inr ua] less.prems(1) ps' False] by auto
      show ?thesis
      proof (cases "follow E m h cur r")
        case (Inl a)
        then show ?thesis using less.prems(2) here logd safe by (intro exI [of _ "[(cur, ps')]"]) auto
      next
        case (Inr nxt)
        have hm: "h < m" by (rule follow_next [OF Inr])
        have "fetch_from (logged E) m (Suc h) nxt ps' (w2, l @ [(cur, ps')]) = (res, w', l')"
          using less.prems(2) logd Inr by simp
        moreover have "m - Suc h < m - h" "Suc h \<le> m" using hm by simp_all
        ultimately obtain calls where
          "l' = (l @ [(cur, ps')]) @ calls" "length calls \<le> Suc (m - Suc h)"
          "list_all (\<lambda>c. safe_call E c \<and> pins_public (snd c)) calls" "fetch_from E m (Suc h) nxt ps' w2 = (res, w')"
          using less.hyps [of "Suc h" ps' nxt w2 "l @ [(cur, ps')]"] safe(2) by blast
        then show ?thesis using here Inr safe hm by (intro exI [of _ "(cur, ps') # calls"]) simp
      qed
    qed
  qed
qed

section \<open>IPv6 addresses the classifier does not recognise\<close>

text \<open>
  A mapped address written with hexadecimal groups, which is how the URL standard serialises it,
  has the groups of the dotted form but is taken for public.
\<close>

lemmas address_eval = ipv6_groups_def ipv4_octets_def octet_def v6_seg_def v6_split_def zone_ok_def digit_of_def hex_value_def
  isIPv4_def isIPv6_def isIP_def isPrivateOrReservedIp_def private_v4_def to_lower_def lower_char_def starts_with_def ends_with_def
  unbracketHost_def Let_def

lemma hex_mapped_differs:
  "ipv6_groups ''::ffff:a9fe:a9fe'' = ipv6_groups ''::ffff:169.254.169.254''"
  "isPrivateOrReservedIp ''::ffff:169.254.169.254''" "\<not> isPrivateOrReservedIp ''::ffff:a9fe:a9fe''"
  by (simp_all add: address_eval)

text \<open>So a URL whose host is that literal is accepted.\<close>

lemma hex_mapped_accepted:
  assumes "ne_parseUrl E raw = Some \<lparr>u_protocol = ''https:'', u_username = [], u_password = [], u_port = [],
    u_hostname = ''[::ffff:a9fe:a9fe]''\<rparr>"
  shows "\<exists>u. validatePublicUrl E raw opt w = (Inr (u, None), w)"
proof -
  have "unbracketHost ''[::ffff:a9fe:a9fe]'' = ''::ffff:a9fe:a9fe''" "isIP ''::ffff:a9fe:a9fe''"
    by (simp_all add: address_eval)
  then show ?thesis using hex_mapped_differs(3)
    by (simp add: validatePublicUrl_def assms scheme_allowed_def port_of_def BLOCKED_PORTS_def)
qed

text \<open>The link-local block has ten leading bits; the classifier asks for sixteen.\<close>

lemma link_local_missed: "map_option hd (ipv6_groups ''fe90::1'') = Some 65168 \<and> (65168::nat) div 2 ^ 6 = 65152 div 2 ^ 6 \<and>
    map_option hd (ipv6_groups ''fe80::1'') = Some 65152 \<and> \<not> isPrivateOrReservedIp ''fe90::1'' \<and> isPrivateOrReservedIp ''fe80::1''"
  by (simp add: address_eval)

section \<open>Properties\<close>

text \<open>
  C39: The IPv4 classifier refuses exactly the blocks it names, compared bit by bit on the 32-bit
  address, and in addition the addresses of 192.0.0.0/16 whose third octet is 20 to 29 or at
  least 200, because the first test network is recognised by a prefix of the text.
\<close>

theorem reserved_v4_exact:
  assumes "a < 256" "b < 256" "c < 256" "d < 256"
  shows "isPrivateOrReservedIp (quad a b c d) \<longleftrightarrow> list_ex (in_block (quad_word a b c d)) RESERVED_V4 \<or>
    (a = 192 \<and> b = 0 \<and> (20 \<le> c \<and> c \<le> 29 \<or> 200 \<le> c))"
proof -
  have "isPrivateOrReservedIp (quad a b c d) \<longleftrightarrow> private_v4 (quad a b c d) [a, b, c, d]"
    using assms by (simp add: isPrivateOrReservedIp_def quad_octets)
  also have "\<dots> \<longleftrightarrow> list_ex (in_block (quad_word a b c d)) RESERVED_V4 \<or> (a = 192 \<and> b = 0 \<and> (20 \<le> c \<and> c \<le> 29 \<or> 200 \<le> c))"
    unfolding reserved_arith [OF assms] private_v4_def Let_def using test_nets [OF assms(3), of d] by auto
  finally show ?thesis .
qed

theorem reserved_v4_exact_witness:
  "isPrivateOrReservedIp (quad 169 254 169 254) \<and> \<not> isPrivateOrReservedIp (quad 8 8 8 8) \<and> isPrivateOrReservedIp (quad 192 0 25 1)"
  using reserved_v4_exact [of 169 254 169 254] reserved_v4_exact [of 8 8 8 8] reserved_v4_exact [of 192 0 25 1]
  by (simp add: reserved_arith)

definition w_url :: url where
  "w_url = \<lparr>u_protocol = ''https:'', u_username = [], u_password = [], u_port = [], u_hostname = ''a.example''\<rparr>"

text \<open>A host that resolves to a public address at first and to the metadata service afterwards.\<close>

definition w_net :: "nat net_env" where
  "w_net = \<lparr>ne_parseUrl = (\<lambda>s. Some w_url), ne_resolveUrl = (\<lambda>l b. Some l),
     ne_resolve4 = (\<lambda>h n. (Some [if n = 0 then ''93.184.216.34'' else ''169.254.169.254''], Suc n)),
     ne_resolve6 = (\<lambda>h n. (None, n)), ne_lookup = (\<lambda>h n. (None, n)), ne_allowHttp = None,
     ne_fetch = (\<lambda>u ps n. (Inr \<lparr>re_status = 302, re_location = Some ''https://a.example/b''\<rparr>, n))\<rparr>"

text \<open>
  C38: Whatever the resolver answers and however it changes its answers, and wherever the servers
  redirect, a guarded fetch asks the transport at most one more time than the redirects allowed,
  and each time for a URL with an allowed scheme, without credentials, on a port that is not
  blocked, that can only connect to addresses the classifier lets pass: the literal address of
  its host or the pinned ones. No lookup, of any host and family, answers any other. Keeping the
  record of the calls does not change the outcome.
\<close>

theorem fetch_only_validated:
  assumes "fetchWithValidatedRedirects (logged E) raw maxRedirects (w, []) = (res, w', calls)"
  shows "length calls \<le> Suc maxRedirects \<and> list_all (safe_call E) calls \<and>
    ((u, ps) \<in> set calls \<longrightarrow> pinLookup ps host family al = Inr es \<longrightarrow> list_all (\<lambda>e. \<not> isPrivateOrReservedIp (fst e)) es) \<and>
    fetchWithValidatedRedirects E raw maxRedirects w = (res, w')"
proof -
  have "pins_public []" by (simp add: pins_public_def)
  from fetch_log [OF this assms [unfolded fetchWithValidatedRedirects_def]]
  have c: "length calls \<le> Suc maxRedirects" "list_all (\<lambda>c. safe_call E c \<and> pins_public (snd c)) calls"
    "fetch_from E maxRedirects 0 raw [] w = (res, w')" by simp_all
  have "pins_public ps" if "(u, ps) \<in> set calls" using c(2) that by (auto simp: list_all_iff)
  then show ?thesis using c pinLookup_public [of ps host family al es]
    by (auto simp: fetchWithValidatedRedirects_def list_all_iff)
qed

theorem fetch_only_validated_witness:
  "\<exists>calls. snd (snd (fetchWithValidatedRedirects (logged w_net) ''https://a.example/'' 3 (0, []))) = calls \<and>
     length calls = 1 \<and> list_all (safe_call w_net) calls \<and>
     fst (fetchWithValidatedRedirects w_net ''https://a.example/'' 3 0) =
       Inl (UrlBlocked (DnsResolvesToPrivate ''169.254.169.254'') ''https://a.example/b'')"
proof -
  let ?run = "fetchWithValidatedRedirects (logged w_net) ''https://a.example/'' 3 (0, [])"
  have eq: "?run = (fst ?run, fst (snd ?run), snd (snd ?run))" by simp
  have adr: "isPrivateOrReservedIp ''169.254.169.254''" "\<not> isPrivateOrReservedIp ''93.184.216.34''" "\<not> isIP ''a.example''"
    "unbracketHost ''a.example'' = ''a.example''"
    by (simp_all add: address_eval)
  have "fst ?run = Inl (UrlBlocked (DnsResolvesToPrivate ''169.254.169.254'') ''https://a.example/b'') \<and> length (snd (snd ?run)) = 1"
    by (simp add: fetchWithValidatedRedirects_def fetch_from.simps validatePublicUrl_def logged_def lift_log_def w_net_def w_url_def
      addresses_of_def scheme_allowed_def http_allowed_def port_of_def BLOCKED_PORTS_def adr)
  then show ?thesis using fetch_only_validated [OF eq] by (metis fst_conv)
qed

end
