(* ===== verification/OAuth.thy ===== *)
theory OAuth
  imports McpTokens UrlGuard
begin

text \<open>
  \<open>apps/agent/src/oauth/oauth.service.ts\<close>: the authorization server. Clients register, a consent
  is recorded and consumed, a code is issued and exchanged for a pair of tokens, and a refresh
  token is rotated within its family; presenting a spent one revokes the family. The tables are
  parameters, and so are the digests, the clock, the random parts and the URL parser. A
  transaction is atomic and a failed one leaves the state as it was. The reads before a
  transaction are separate from it, so that the step relation interleaves requests in flight.
\<close>

section \<open>Rows and errors\<close>

record client_row =
  oc_id :: string
  oc_organizationId :: string
  oc_clientId :: string
  oc_clientSecretHash :: "string option"
  oc_clientName :: string
  oc_redirectUris :: "string list"
  oc_tokenEndpointAuthMethod :: string
  oc_grantTypes :: "string list"
  oc_scopes :: "string list"
  oc_registeredByUserId :: string
  oc_entityId :: "string option"
  oc_createdAt :: int
  oc_deletedAt :: "int option"

text \<open>The scope columns, which the schema leaves nullable.\<close>

record scope_columns =
  sk_organizationId :: "string option"
  sk_projectId :: "string option"
  sk_environmentId :: "string option"

record code_row =
  ac_id :: string
  ac_codeHash :: string
  ac_clientId :: string
  ac_userId :: string
  ac_scope :: scope_columns
  ac_codeChallenge :: string
  ac_codeChallengeMethod :: string
  ac_redirectUri :: string
  ac_scopes :: "string list"
  ac_expiresAt :: int
  ac_usedAt :: "int option"

record access_row =
  at_id :: string
  at_tokenHash :: string
  at_clientId :: string
  at_userId :: string
  at_scope :: scope_columns
  at_scopes :: "string list"
  at_issuedAt :: int
  at_expiresAt :: int
  at_revokedAt :: "int option"

record refresh_row =
  rf_id :: string
  rf_tokenHash :: string
  rf_accessTokenId :: "string option"
  rf_clientId :: string
  rf_userId :: string
  rf_scope :: scope_columns
  rf_scopes :: "string list"
  rf_rotationFamilyId :: string
  rf_parentRefreshTokenId :: "string option"
  rf_expiresAt :: int
  rf_consumedAt :: "int option"
  rf_replayDetectedAt :: "int option"
  rf_revokedAt :: "int option"

record consent_row =
  ct_id :: string
  ct_tokenHash :: string
  ct_nonce :: string
  ct_clientId :: string
  ct_redirectUri :: string
  ct_codeChallenge :: string
  ct_codeChallengeMethod :: string
  ct_scopes :: "string list"
  ct_entityId :: "string option"
  ct_scope :: scope_tuple
  ct_state :: "string option"
  ct_expiresAt :: int
  ct_consumedAt :: "int option"

text \<open>An error of the service has a code, a message and a status.\<close>

datatype oauth_error = OAuthError string string nat | OAuthDb db_error

datatype session_kind = Anonymous | Oidc

record redirect_url =
  ru_protocol :: string
  ru_hostname :: string
  ru_hash :: string

text \<open>
  \<open>os_environment\<close> finds a live environment of a live project and organization,
  \<open>os_member\<close> the earliest active member with an enabled user, \<open>os_session\<close> the caller of an
  unrevoked session of an entity in an environment.
\<close>

record 's oauth_service =
  os_clients :: "('s, client_row) table"
  os_codes :: "('s, code_row) table"
  os_access :: "('s, access_row) table"
  os_refresh :: "('s, refresh_row) table"
  os_consents :: "('s, consent_row) table"
  os_environment :: "scope_tuple \<Rightarrow> 's \<Rightarrow> db_error + scope_tuple option"
  os_member :: "string \<Rightarrow> string option \<Rightarrow> 's \<Rightarrow> db_error + string option"
  os_entityOrganization :: "string \<Rightarrow> 's \<Rightarrow> db_error + string option"
  os_session :: "session_kind \<Rightarrow> string \<Rightarrow> string \<Rightarrow> string \<Rightarrow> 's \<Rightarrow> db_error + string option"
  os_sha256 :: "string \<Rightarrow> string"
  os_s256 :: "string \<Rightarrow> string"
  os_hmac :: "string \<Rightarrow> string \<Rightarrow> string"
  os_sessionSecret :: "string option"
  os_parseUrl :: "string \<Rightarrow> redirect_url option"

section \<open>Constants and helpers\<close>

definition ACCESS_TOKEN_PREFIX :: string where "ACCESS_TOKEN_PREFIX = ''plt_oa_''"
definition REFRESH_TOKEN_PREFIX :: string where "REFRESH_TOKEN_PREFIX = ''plt_or_''"
definition CLIENT_ID_PREFIX :: string where "CLIENT_ID_PREFIX = ''plt_oac_''"
definition CLIENT_SECRET_PREFIX :: string where "CLIENT_SECRET_PREFIX = ''plt_ocs_''"
definition AUTH_CODE_PREFIX :: string where "AUTH_CODE_PREFIX = ''plt_ocd_''"
definition MCP_IDENTITY_SCOPE_PREFIX :: string where "MCP_IDENTITY_SCOPE_PREFIX = ''platos:mcp-identity:''"
definition CONSENT_TOKEN_PREFIX :: string where "CONSENT_TOKEN_PREFIX = ''plt_octx_''"
definition PLATFORM_MCP_SCOPES :: "string list" where "PLATFORM_MCP_SCOPES = [''mcp:read'', ''mcp:write'']"
definition ENTITY_MCP_SCOPES :: "string list" where "ENTITY_MCP_SCOPES = [''mcp:tools'']"
definition OAUTH_CONSENT_TTL_SEC :: int where "OAUTH_CONSENT_TTL_SEC = 10 * 60"
definition OAUTH_ACCESS_TOKEN_TTL_SEC :: int where "OAUTH_ACCESS_TOKEN_TTL_SEC = 3600"
definition OAUTH_REFRESH_TOKEN_TTL_SEC :: int where "OAUTH_REFRESH_TOKEN_TTL_SEC = 90 * 24 * 3600"
definition OAUTH_AUTH_CODE_TTL_SEC :: int where "OAUTH_AUTH_CODE_TTL_SEC = 60"
definition ALLOWED_AUTH_METHODS :: "string list" where
  "ALLOWED_AUTH_METHODS = [''client_secret_basic'', ''client_secret_post'', ''none'']"
definition ALLOWED_GRANT_TYPES :: "string list" where
  "ALLOWED_GRANT_TYPES = [''authorization_code'', ''refresh_token'']"

fun split_ws :: "string \<Rightarrow> string \<Rightarrow> string list" where
  "split_ws acc [] = (if acc = [] then [] else [rev acc])"
| "split_ws acc (c # cs) = (if js_ws c then (if acc = [] then [] else [rev acc]) @ split_ws [] cs else split_ws (c # acc) cs)"

fun first_seen :: "string list \<Rightarrow> string list \<Rightarrow> string list" where
  "first_seen seen [] = []"
| "first_seen seen (x # xs) = (if x \<in> set seen then first_seen seen xs else x # first_seen (x # seen) xs)"

definition parseRegisteredScopes :: "string option \<Rightarrow> string list" where
  "parseRegisteredScopes scope = first_seen [] (split_ws [] (case scope of None \<Rightarrow> [] | Some x \<Rightarrow> x))"

definition serverOwnedScopes :: "string option \<Rightarrow> string list" where
  "serverOwnedScopes entityPk = (if entityPk \<noteq> None \<and> entityPk \<noteq> Some [] then ENTITY_MCP_SCOPES else PLATFORM_MCP_SCOPES)"

definition publicScopes :: "string list \<Rightarrow> string list" where
  "publicScopes scopes = filter (\<lambda>x. \<not> starts_with MCP_IDENTITY_SCOPE_PREFIX x) scopes"

definition identityMarker :: "string list \<Rightarrow> (session_kind \<times> string) option" where
  "identityMarker scopes = (case find (starts_with MCP_IDENTITY_SCOPE_PREFIX) scopes of
       None \<Rightarrow> None
     | Some encoded \<Rightarrow> (case take 2 (split_on CHR '':'' (drop (length MCP_IDENTITY_SCOPE_PREFIX) encoded)) of
           [kind, sessionId] \<Rightarrow> if sessionId = [] then None
             else if kind = ''anonymous'' then Some (Anonymous, sessionId)
             else if kind = ''oidc'' then Some (Oidc, sessionId) else None
         | _ \<Rightarrow> None))"

definition kind_name :: "session_kind \<Rightarrow> string" where
  "kind_name k = (case k of Anonymous \<Rightarrow> ''anonymous'' | Oidc \<Rightarrow> ''oidc'')"

definition encodeIdentityMarker :: "session_kind \<times> string \<Rightarrow> string" where
  "encodeIdentityMarker marker = MCP_IDENTITY_SCOPE_PREFIX @ kind_name (fst marker) @ '':'' @ snd marker"

definition columns_of :: "scope_tuple \<Rightarrow> scope_columns" where
  "columns_of scope = \<lparr>sk_organizationId = Some (sc_organizationId scope), sk_projectId = Some (sc_projectId scope),
     sk_environmentId = Some (sc_environmentId scope)\<rparr>"

text \<open>The tuple of a row whose scope columns are all present and not empty.\<close>

definition full_scope :: "scope_columns \<Rightarrow> scope_tuple option" where
  "full_scope cols = (case (sk_organizationId cols, sk_projectId cols, sk_environmentId cols) of
       (Some a, Some b, Some c) \<Rightarrow> if a = [] \<or> b = [] \<or> c = [] then None
         else Some \<lparr>sc_organizationId = a, sc_projectId = b, sc_environmentId = c\<rparr>
     | _ \<Rightarrow> None)"

definition canonicalScope :: "'s oauth_service \<Rightarrow> scope_tuple \<Rightarrow> 's \<Rightarrow> oauth_error + scope_tuple" where
  "canonicalScope sv scope s = (case os_environment sv scope s of
       Inl e \<Rightarrow> Inl (OAuthDb e)
     | Inr None \<Rightarrow> Inl (OAuthError ''invalid_scope'' ''environment is not in the authorized scope'' 400)
     | Inr (Some canonical) \<Rightarrow> Inr canonical)"

definition find_client :: "'s oauth_service \<Rightarrow> string \<Rightarrow> 's \<Rightarrow> oauth_error + client_row option" where
  "find_client sv clientId s = (case findFirst (os_clients sv) (\<lambda>c. oc_clientId c = clientId) s of
       Inl e \<Rightarrow> Inl (OAuthDb e) | Inr r \<Rightarrow> Inr r)"

text \<open>The client a row belongs to; the foreign key promises there is one.\<close>

definition owner :: "'s oauth_service \<Rightarrow> string \<Rightarrow> 's \<Rightarrow> oauth_error + client_row" where
  "owner sv i s = (case findFirst (os_clients sv) (\<lambda>c. oc_id c = i) s of
       Inl e \<Rightarrow> Inl (OAuthDb e) | Inr None \<Rightarrow> Inl (OAuthDb Rejected) | Inr (Some c) \<Rightarrow> Inr c)"

section \<open>Clients\<close>

record dcr_input =
  dc_clientName :: string
  dc_redirectUris :: "string list"
  dc_tokenEndpointAuthMethod :: "string option"
  dc_grantTypes :: "string list option"
  dc_scope :: "string option"
  dc_registeredByUserId :: "string option"
  dc_organizationId :: "string option"
  dc_entityPk :: "string option"

definition given :: "string option \<Rightarrow> bool" where
  "given x \<longleftrightarrow> x \<noteq> None \<and> x \<noteq> Some []"

definition metadata_error :: "string \<Rightarrow> nat \<Rightarrow> oauth_error" where
  "metadata_error msg status = OAuthError ''invalid_client_metadata'' msg status"

definition isLoopback :: "redirect_url \<Rightarrow> bool" where
  "isLoopback u \<longleftrightarrow> ru_hostname u = ''localhost'' \<or> ru_hostname u = ''127.0.0.1'' \<or> ru_hostname u = ''[::1]''"

fun check_redirects :: "'s oauth_service \<Rightarrow> string list \<Rightarrow> oauth_error option" where
  "check_redirects sv [] = None"
| "check_redirects sv (uri # uris) = (case os_parseUrl sv uri of
       None \<Rightarrow> Some (OAuthError ''invalid_redirect_uri'' (''malformed redirect_uri: '' @ uri) 400)
     | Some u \<Rightarrow>
         if ru_hash u \<noteq> [] then Some (OAuthError ''invalid_redirect_uri'' (''redirect_uri must not contain fragment: '' @ uri) 400)
         else if ru_protocol u \<noteq> ''https:'' \<and> \<not> (ru_protocol u = ''http:'' \<and> isLoopback u)
         then Some (OAuthError ''invalid_redirect_uri'' (''redirect_uri must be https (or http on loopback): '' @ uri) 400)
         else check_redirects sv uris)"

definition auth_method :: "dcr_input \<Rightarrow> string" where
  "auth_method inp = (case dc_tokenEndpointAuthMethod inp of None \<Rightarrow> ''client_secret_basic'' | Some m \<Rightarrow> m)"

definition grant_types :: "dcr_input \<Rightarrow> string list" where
  "grant_types inp = (case dc_grantTypes inp of None \<Rightarrow> [''authorization_code'', ''refresh_token''] | Some g \<Rightarrow> g)"

text \<open>The checks of the metadata, before anything is read.\<close>

definition check_metadata :: "'s oauth_service \<Rightarrow> dcr_input \<Rightarrow> oauth_error option" where
  "check_metadata sv inp =
     (if dc_clientName inp = [] then Some (metadata_error ''client_name required'' 400)
      else if dc_redirectUris inp = [] \<or> list_ex (\<lambda>u. u = []) (dc_redirectUris inp)
      then Some (OAuthError ''invalid_redirect_uri'' ''redirect_uris must be a non-empty string[]'' 400)
      else case check_redirects sv (dc_redirectUris inp) of
        Some e \<Rightarrow> Some e
      | None \<Rightarrow>
          if auth_method inp \<notin> set ALLOWED_AUTH_METHODS
          then Some (metadata_error (''token_endpoint_auth_method must be one of '' @ join '', '' ALLOWED_AUTH_METHODS) 400)
          else (case find (\<lambda>g. g \<notin> set ALLOWED_GRANT_TYPES) (grant_types inp) of
             Some g \<Rightarrow> Some (metadata_error (''unsupported grant_type: '' @ g) 400) | None \<Rightarrow> None))"

definition registration_organization :: "'s oauth_service \<Rightarrow> dcr_input \<Rightarrow> 's \<Rightarrow> oauth_error + string" where
  "registration_organization sv inp s =
     (if given (dc_entityPk inp) then
        (case os_entityOrganization sv (the (dc_entityPk inp)) s of
           Inl e \<Rightarrow> Inl (OAuthDb e)
         | Inr None \<Rightarrow> Inl (metadata_error ''entity is not in registration scope'' 403)
         | Inr (Some org) \<Rightarrow> if given (dc_organizationId inp) \<and> dc_organizationId inp \<noteq> Some org
             then Inl (metadata_error ''entity is not in registration scope'' 403)
             else if org = [] then Inl (metadata_error ''organization scope is required for client registration'' 403) else Inr org)
      else if \<not> given (dc_organizationId inp)
      then Inl (metadata_error ''organization scope is required for client registration'' 403)
      else Inr (the (dc_organizationId inp)))"

definition registrationUser :: "'s oauth_service \<Rightarrow> string \<Rightarrow> string option \<Rightarrow> 's \<Rightarrow> oauth_error + string" where
  "registrationUser sv org requested s =
     (case os_member sv org (if given requested then requested else None) s of
        Inl e \<Rightarrow> Inl (OAuthDb e)
      | Inr None \<Rightarrow> Inl (metadata_error ''registration requires an active organization operator'' 403)
      | Inr (Some u) \<Rightarrow> Inr u)"

record dcr_result =
  dr_client_id :: string
  dr_client_secret :: "string option"
  dr_client_id_issued_at :: int
  dr_client_name :: string
  dr_redirect_uris :: "string list"
  dr_grant_types :: "string list"
  dr_token_endpoint_auth_method :: string
  dr_scope :: "string option"

definition scope_text :: "client_row \<Rightarrow> string option" where
  "scope_text c = (if oc_scopes c = [] then None else Some (join '' '' (oc_scopes c)))"

definition register_client ::
    "'s oauth_service \<Rightarrow> dcr_input \<Rightarrow> string \<Rightarrow> string \<Rightarrow> string \<Rightarrow> int \<Rightarrow> 's \<Rightarrow> (oauth_error + dcr_result) \<times> 's" where
  "register_client sv inp newId randId randSecret now s =
     (case check_metadata sv inp of
        Some e \<Rightarrow> (Inl e, s)
      | None \<Rightarrow> (case registration_organization sv inp s of
          Inl e \<Rightarrow> (Inl e, s)
        | Inr org \<Rightarrow> (case registrationUser sv org (dc_registeredByUserId inp) s of
            Inl e \<Rightarrow> (Inl e, s)
          | Inr userId \<Rightarrow>
              (let rawSecret = (if auth_method inp = ''none'' then None else Some (CLIENT_SECRET_PREFIX @ randSecret));
                   advertised = serverOwnedScopes (dc_entityPk inp);
                   row = \<lparr>oc_id = newId, oc_organizationId = org, oc_clientId = CLIENT_ID_PREFIX @ randId,
                     oc_clientSecretHash = map_option (os_sha256 sv) rawSecret, oc_clientName = take 200 (dc_clientName inp),
                     oc_redirectUris = dc_redirectUris inp, oc_tokenEndpointAuthMethod = auth_method inp,
                     oc_grantTypes = grant_types inp, oc_scopes = advertised, oc_registeredByUserId = userId,
                     oc_entityId = dc_entityPk inp, oc_createdAt = now, oc_deletedAt = None\<rparr> in
               if list_ex (\<lambda>x. x \<notin> set advertised) (parseRegisteredScopes (dc_scope inp))
               then (Inl (metadata_error ''scope contains a label that is not advertised by this authorization server'' 400), s)
               else (case create (os_clients sv) row s of
                  Inl e \<Rightarrow> (Inl (OAuthDb e), s)
                | Inr s' \<Rightarrow> (Inr \<lparr>dr_client_id = oc_clientId row, dr_client_secret = rawSecret,
                     dr_client_id_issued_at = oc_createdAt row div 1000, dr_client_name = oc_clientName row,
                     dr_redirect_uris = oc_redirectUris row, dr_grant_types = oc_grantTypes row,
                     dr_token_endpoint_auth_method = oc_tokenEndpointAuthMethod row, dr_scope = scope_text row\<rparr>, s'))))))"

record client_record =
  cr_id :: string
  cr_clientId :: string
  cr_clientName :: string
  cr_redirectUris :: "string list"
  cr_tokenEndpointAuthMethod :: string
  cr_grantTypes :: "string list"
  cr_scope :: "string option"
  cr_organizationId :: string
  cr_registeredByUserId :: string
  cr_entityPk :: "string option"
  cr_createdAt :: int

definition projectClient :: "client_row \<Rightarrow> client_record" where
  "projectClient row = \<lparr>cr_id = oc_id row, cr_clientId = oc_clientId row, cr_clientName = oc_clientName row,
     cr_redirectUris = oc_redirectUris row, cr_tokenEndpointAuthMethod = oc_tokenEndpointAuthMethod row,
     cr_grantTypes = oc_grantTypes row, cr_scope = scope_text row, cr_organizationId = oc_organizationId row,
     cr_registeredByUserId = oc_registeredByUserId row, cr_entityPk = oc_entityId row, cr_createdAt = oc_createdAt row\<rparr>"

definition findClient :: "'s oauth_service \<Rightarrow> string \<Rightarrow> 's \<Rightarrow> oauth_error + client_record option" where
  "findClient sv clientId s = (if clientId = [] then Inr None else case find_client sv clientId s of
       Inl e \<Rightarrow> Inl e
     | Inr None \<Rightarrow> Inr None
     | Inr (Some row) \<Rightarrow> Inr (if oc_deletedAt row \<noteq> None then None else Some (projectClient row)))"

definition effectiveScopes :: "'s oauth_service \<Rightarrow> string \<Rightarrow> string option \<Rightarrow> 's \<Rightarrow> oauth_error + string list" where
  "effectiveScopes sv clientId requested s = (case find_client sv clientId s of
       Inl e \<Rightarrow> Inl e
     | Inr None \<Rightarrow> Inl (OAuthError ''invalid_client'' ''unknown client_id'' 400)
     | Inr (Some client) \<Rightarrow>
         if oc_deletedAt client \<noteq> None then Inl (OAuthError ''invalid_client'' ''unknown client_id'' 400)
         else (let asked = parseRegisteredScopes requested; effective = (if asked \<noteq> [] then asked else oc_scopes client) in
           if list_ex (\<lambda>x. x \<notin> set (oc_scopes client)) effective
           then Inl (OAuthError ''invalid_scope'' ''requested scope is not advertised for this client'' 400)
           else Inr effective))"

definition verifyClientSecret :: "'s oauth_service \<Rightarrow> string \<Rightarrow> string \<Rightarrow> 's \<Rightarrow> oauth_error + bool" where
  "verifyClientSecret sv clientId clientSecret s = (case find_client sv clientId s of
       Inl e \<Rightarrow> Inl e
     | Inr None \<Rightarrow> Inr False
     | Inr (Some row) \<Rightarrow> Inr (given (oc_clientSecretHash row) \<and> oc_deletedAt row = None \<and>
         constantTimeHexEqual (the (oc_clientSecretHash row)) (os_sha256 sv clientSecret)))"

text \<open>The delete: the client, its access tokens and its refresh tokens in one transaction.\<close>

record delete_result =
  dl_deleted :: bool
  dl_alreadyDeleted :: bool
  dl_accessTokensRevoked :: nat
  dl_refreshTokensRevoked :: nat

definition delete_tx :: "'s oauth_service \<Rightarrow> string \<Rightarrow> int \<Rightarrow> 's \<Rightarrow> (oauth_error + (nat \<times> nat)) \<times> 's" where
  "delete_tx sv i now s =
     (case updateMany (os_clients sv) (\<lambda>c. oc_id c = i) (\<lambda>c. c\<lparr>oc_deletedAt := Some now\<rparr>) s of
        Inl e \<Rightarrow> (Inl (OAuthDb e), s)
      | Inr (k, s1) \<Rightarrow> if k = 0 then (Inl (OAuthDb Rejected), s) else
          (case updateMany (os_access sv) (\<lambda>r. at_clientId r = i \<and> at_revokedAt r = None) (\<lambda>r. r\<lparr>at_revokedAt := Some now\<rparr>) s1 of
             Inl e \<Rightarrow> (Inl (OAuthDb e), s)
           | Inr (n, s2) \<Rightarrow>
               (case updateMany (os_refresh sv) (\<lambda>r. rf_clientId r = i \<and> rf_revokedAt r = None) (\<lambda>r. r\<lparr>rf_revokedAt := Some now\<rparr>) s2 of
                  Inl e \<Rightarrow> (Inl (OAuthDb e), s) | Inr (m, s3) \<Rightarrow> (Inr (n, m), s3))))"

definition deleteClient :: "'s oauth_service \<Rightarrow> string \<Rightarrow> string \<Rightarrow> int \<Rightarrow> 's \<Rightarrow> (oauth_error + delete_result) \<times> 's" where
  "deleteClient sv clientId org now s = (case find_client sv clientId s of
       Inl e \<Rightarrow> (Inl e, s)
     | Inr found \<Rightarrow> (case found of
         None \<Rightarrow> (Inr \<lparr>dl_deleted = False, dl_alreadyDeleted = False, dl_accessTokensRevoked = 0, dl_refreshTokensRevoked = 0\<rparr>, s)
       | Some c \<Rightarrow>
           if oc_organizationId c \<noteq> org
           then (Inr \<lparr>dl_deleted = False, dl_alreadyDeleted = False, dl_accessTokensRevoked = 0, dl_refreshTokensRevoked = 0\<rparr>, s)
           else if oc_deletedAt c \<noteq> None
           then (Inr \<lparr>dl_deleted = True, dl_alreadyDeleted = True, dl_accessTokensRevoked = 0, dl_refreshTokensRevoked = 0\<rparr>, s)
           else (case delete_tx sv (oc_id c) now s of
              (Inl e, s') \<Rightarrow> (Inl e, s')
            | (Inr (n, m), s') \<Rightarrow> (Inr \<lparr>dl_deleted = True, dl_alreadyDeleted = False,
                dl_accessTokensRevoked = n, dl_refreshTokensRevoked = m\<rparr>, s'))))"

datatype rotate_result = Rotated string string int | NotRotated string

definition rotateClientSecret ::
    "'s oauth_service \<Rightarrow> string \<Rightarrow> string \<Rightarrow> string \<Rightarrow> int \<Rightarrow> 's \<Rightarrow> (oauth_error + rotate_result) \<times> 's" where
  "rotateClientSecret sv clientId org rand now s = (case find_client sv clientId s of
       Inl e \<Rightarrow> (Inl e, s)
     | Inr None \<Rightarrow> (Inr (NotRotated ''not_found''), s)
     | Inr (Some c) \<Rightarrow>
         if oc_organizationId c \<noteq> org then (Inr (NotRotated ''not_found''), s)
         else if oc_deletedAt c \<noteq> None then (Inr (NotRotated ''deleted''), s)
         else if oc_tokenEndpointAuthMethod c = ''none'' then (Inr (NotRotated ''public_client''), s)
         else (let secret = CLIENT_SECRET_PREFIX @ rand in
           case updateMany (os_clients sv) (\<lambda>x. oc_id x = oc_id c) (\<lambda>x. x\<lparr>oc_clientSecretHash := Some (os_sha256 sv secret)\<rparr>) s of
             Inl e \<Rightarrow> (Inl (OAuthDb e), s)
           | Inr (k, s') \<Rightarrow> if k = 0 then (Inl (OAuthDb Rejected), s) else (Inr (Rotated clientId secret now), s')))"

section \<open>Consents\<close>

definition consentSignature :: "'s oauth_service \<Rightarrow> string \<Rightarrow> oauth_error + string" where
  "consentSignature sv opaque = (if given (os_sessionSecret sv) then Inr (os_hmac sv (the (os_sessionSecret sv)) opaque)
     else Inl (OAuthError ''server_error'' ''consent signing is not configured'' 503))"

text \<open>The parts before and after the last dot.\<close>

definition cut_last_dot :: "string \<Rightarrow> (string \<times> string) option" where
  "cut_last_dot x = (if CHR ''.'' \<in> set x
     then Some (rev (tl (dropWhile (\<lambda>c. c \<noteq> CHR ''.'') (rev x))), rev (takeWhile (\<lambda>c. c \<noteq> CHR ''.'') (rev x))) else None)"

definition consentTokenHash :: "'s oauth_service \<Rightarrow> string \<Rightarrow> oauth_error + string option" where
  "consentTokenHash sv signedToken = (case cut_last_dot signedToken of
       None \<Rightarrow> Inr None
     | Some (opaque, signature) \<Rightarrow>
         if opaque = [] \<or> \<not> starts_with CONSENT_TOKEN_PREFIX opaque \<or> signature = [] then Inr None
         else (case consentSignature sv opaque of
            Inl e \<Rightarrow> Inl e
          | Inr expected \<Rightarrow> Inr (if signature = expected then Some (os_sha256 sv opaque) else None)))"

record consent_input =
  ci_clientId :: string
  ci_redirectUri :: string
  ci_codeChallenge :: string
  ci_codeChallengeMethod :: string
  ci_scopes :: "string list"
  ci_scopeTuple :: scope_tuple
  ci_entityPk :: "string option"
  ci_state :: "string option"

definition createConsentTransaction ::
    "'s oauth_service \<Rightarrow> consent_input \<Rightarrow> string \<Rightarrow> string \<Rightarrow> string \<Rightarrow> int \<Rightarrow> 's \<Rightarrow> (oauth_error + string) \<times> 's" where
  "createConsentTransaction sv inp newId nonce rand now s =
     (case canonicalScope sv (ci_scopeTuple inp) s of
        Inl e \<Rightarrow> (Inl e, s)
      | Inr scope \<Rightarrow> (case find_client sv (ci_clientId inp) s of
          Inl e \<Rightarrow> (Inl e, s)
        | Inr found \<Rightarrow>
            if (case found of None \<Rightarrow> True | Some client \<Rightarrow> oc_deletedAt client \<noteq> None \<or>
                  oc_organizationId client \<noteq> sc_organizationId scope \<or> oc_entityId client \<noteq> ci_entityPk inp \<or>
                  ci_redirectUri inp \<notin> set (oc_redirectUris client) \<or>
                  list_ex (\<lambda>x. x \<notin> set (oc_scopes client)) (ci_scopes inp))
            then (Inl (OAuthError ''invalid_request'' ''consent request is not valid for this client and scope'' 400), s)
            else (let opaque = CONSENT_TOKEN_PREFIX @ rand in case consentSignature sv opaque of
               Inl e \<Rightarrow> (Inl e, s)
             | Inr signature \<Rightarrow> (case create (os_consents sv)
                 \<lparr>ct_id = newId, ct_tokenHash = os_sha256 sv opaque, ct_nonce = nonce, ct_clientId = oc_id (the found),
                  ct_redirectUri = ci_redirectUri inp, ct_codeChallenge = ci_codeChallenge inp,
                  ct_codeChallengeMethod = ci_codeChallengeMethod inp, ct_scopes = ci_scopes inp, ct_entityId = ci_entityPk inp,
                  ct_scope = scope, ct_state = ci_state inp, ct_expiresAt = now + OAUTH_CONSENT_TTL_SEC * 1000,
                  ct_consumedAt = None\<rparr> s of
                   Inl e \<Rightarrow> (Inl (OAuthDb e), s) | Inr s' \<Rightarrow> (Inr (opaque @ ''.'' @ signature), s')))))"

definition consent_open :: "client_row \<Rightarrow> consent_row \<Rightarrow> int \<Rightarrow> bool" where
  "consent_open client row now \<longleftrightarrow> oc_deletedAt client = None \<and> ct_consumedAt row = None \<and> now < ct_expiresAt row"

definition find_consent :: "'s oauth_service \<Rightarrow> string \<Rightarrow> 's \<Rightarrow> oauth_error + (consent_row \<times> client_row) option" where
  "find_consent sv tokenHash s = (case findFirst (os_consents sv) (\<lambda>r. ct_tokenHash r = tokenHash) s of
       Inl e \<Rightarrow> Inl (OAuthDb e)
     | Inr None \<Rightarrow> Inr None
     | Inr (Some row) \<Rightarrow> (case owner sv (ct_clientId row) s of Inl e \<Rightarrow> Inl e | Inr c \<Rightarrow> Inr (Some (row, c))))"

definition inspectConsentTransaction :: "'s oauth_service \<Rightarrow> string \<Rightarrow> int \<Rightarrow> 's \<Rightarrow> oauth_error + consent_row option" where
  "inspectConsentTransaction sv signedToken now s = (case consentTokenHash sv signedToken of
       Inl e \<Rightarrow> Inl e
     | Inr None \<Rightarrow> Inr None
     | Inr (Some tokenHash) \<Rightarrow> (case find_consent sv tokenHash s of
         Inl e \<Rightarrow> Inl e
       | Inr None \<Rightarrow> Inr None
       | Inr (Some (row, client)) \<Rightarrow> Inr (if consent_open client row now then Some row else None)))"

definition consent_spent :: oauth_error where
  "consent_spent = OAuthError ''invalid_request'' ''consent transaction is expired or already consumed'' 400"

definition consumeConsentTransaction ::
    "'s oauth_service \<Rightarrow> string \<Rightarrow> int \<Rightarrow> 's \<Rightarrow> (oauth_error + consent_row) \<times> 's" where
  "consumeConsentTransaction sv signedToken now s = (case consentTokenHash sv signedToken of
       Inl e \<Rightarrow> (Inl e, s)
     | Inr None \<Rightarrow> (Inl (OAuthError ''invalid_request'' ''consent transaction is invalid'' 400), s)
     | Inr (Some tokenHash) \<Rightarrow> (case find_consent sv tokenHash s of
         Inl e \<Rightarrow> (Inl e, s)
       | Inr None \<Rightarrow> (Inl consent_spent, s)
       | Inr (Some (row, client)) \<Rightarrow>
           if \<not> consent_open client row now then (Inl consent_spent, s)
           else (case updateMany (os_consents sv) (\<lambda>r. ct_id r = ct_id row \<and> ct_consumedAt r = None \<and> now < ct_expiresAt r)
                   (\<lambda>r. r\<lparr>ct_consumedAt := Some now\<rparr>) s of
              Inl e \<Rightarrow> (Inl (OAuthDb e), s)
            | Inr (n, s') \<Rightarrow> if n \<noteq> 1 then (Inl consent_spent, s) else (Inr row, s'))))"

section \<open>Codes and token pairs\<close>

text \<open>The dash of the message, in UTF-8.\<close>

definition em_dash :: string where
  "em_dash = [CHR 0xE2, CHR 0x80, CHR 0x94]"

record code_input =
  cd_clientId :: string
  cd_userId :: string
  cd_scopeTuple :: scope_tuple
  cd_codeChallenge :: string
  cd_codeChallengeMethod :: string
  cd_redirectUri :: string
  cd_scopes :: "string list"
  cd_entityPk :: "string option"
  cd_mcpIdentity :: "(session_kind \<times> string) option"

definition issueAuthCode ::
    "'s oauth_service \<Rightarrow> code_input \<Rightarrow> string \<Rightarrow> string \<Rightarrow> int \<Rightarrow> 's \<Rightarrow> (oauth_error + (string \<times> int)) \<times> 's" where
  "issueAuthCode sv inp newId rand now s =
     (if cd_codeChallenge inp = [] \<or> cd_codeChallengeMethod inp \<noteq> ''S256''
      then (Inl (OAuthError ''invalid_request'' (''PKCE required '' @ em_dash @ '' code_challenge + code_challenge_method=S256 must be provided'') 400), s)
      else case canonicalScope sv (cd_scopeTuple inp) s of
        Inl e \<Rightarrow> (Inl e, s)
      | Inr scope \<Rightarrow> (case find_client sv (cd_clientId inp) s of
          Inl e \<Rightarrow> (Inl e, s)
        | Inr found \<Rightarrow>
            if (case found of None \<Rightarrow> True | Some client \<Rightarrow> oc_deletedAt client \<noteq> None \<or>
                  oc_organizationId client \<noteq> sc_organizationId scope \<or>
                  (cd_entityPk inp \<noteq> None \<and> oc_entityId client \<noteq> cd_entityPk inp) \<or>
                  cd_redirectUri inp \<notin> set (oc_redirectUris client))
            then (Inl (OAuthError ''invalid_grant'' ''client is not valid for the authorized scope'' 400), s)
            else (let client = the found; requested = publicScopes (cd_scopes inp) in
              if list_ex (\<lambda>x. x \<notin> set (oc_scopes client)) requested
              then (Inl (OAuthError ''invalid_scope'' ''requested scope was not registered for this client'' 400), s)
              else (case os_member sv (sc_organizationId scope) (Some (cd_userId inp)) s of
                 Inl e \<Rightarrow> (Inl (OAuthDb e), s)
               | Inr None \<Rightarrow> (Inl (OAuthError ''access_denied'' ''user is not active in the organization'' 403), s)
               | Inr (Some user) \<Rightarrow>
                   (let code = AUTH_CODE_PREFIX @ rand; expiresAt = now + OAUTH_AUTH_CODE_TTL_SEC * 1000 in
                    case create (os_codes sv)
                      \<lparr>ac_id = newId, ac_codeHash = os_sha256 sv code, ac_clientId = oc_id client, ac_userId = user,
                       ac_scope = columns_of scope, ac_codeChallenge = cd_codeChallenge inp,
                       ac_codeChallengeMethod = cd_codeChallengeMethod inp, ac_redirectUri = cd_redirectUri inp,
                       ac_scopes = requested @ (case cd_mcpIdentity inp of None \<Rightarrow> [] | Some mk \<Rightarrow> [encodeIdentityMarker mk]),
                       ac_expiresAt = expiresAt, ac_usedAt = None\<rparr> s of
                        Inl e \<Rightarrow> (Inl (OAuthDb e), s) | Inr s' \<Rightarrow> (Inr (code, expiresAt), s'))))))"

record pair_input =
  pp_clientDbId :: string
  pp_userId :: string
  pp_scopeTuple :: scope_tuple
  pp_scopes :: "string list"
  pp_rotationFamilyId :: "string option"
  pp_parentRefreshTokenId :: "string option"
  pp_entityPk :: "string option"

text \<open>The random parts of a token pair: the two row ids, the two secrets and a new family.\<close>

record pair_rand =
  pr_accessId :: string
  pr_refreshId :: string
  pr_access :: string
  pr_refresh :: string
  pr_family :: string

record token_pair =
  tp_accessToken :: string
  tp_refreshToken :: string
  tp_accessTokenHash :: string
  tp_expiresIn :: int
  tp_scopes :: "string list"
  tp_scope :: scope_tuple
  tp_userId :: string
  tp_entityPk :: "string option"

definition access_of :: "'s oauth_service \<Rightarrow> pair_input \<Rightarrow> pair_rand \<Rightarrow> int \<Rightarrow> access_row" where
  "access_of sv inp rd now = \<lparr>at_id = pr_accessId rd, at_tokenHash = os_sha256 sv (ACCESS_TOKEN_PREFIX @ pr_access rd),
     at_clientId = pp_clientDbId inp, at_userId = pp_userId inp, at_scope = columns_of (pp_scopeTuple inp), at_scopes = pp_scopes inp,
     at_issuedAt = now, at_expiresAt = now + OAUTH_ACCESS_TOKEN_TTL_SEC * 1000, at_revokedAt = None\<rparr>"

definition family_of :: "pair_input \<Rightarrow> pair_rand \<Rightarrow> string" where
  "family_of inp rd = (case pp_rotationFamilyId inp of None \<Rightarrow> pr_family rd | Some f \<Rightarrow> f)"

definition refresh_of :: "'s oauth_service \<Rightarrow> pair_input \<Rightarrow> pair_rand \<Rightarrow> int \<Rightarrow> refresh_row" where
  "refresh_of sv inp rd now = \<lparr>rf_id = pr_refreshId rd, rf_tokenHash = os_sha256 sv (REFRESH_TOKEN_PREFIX @ pr_refresh rd),
     rf_accessTokenId = Some (pr_accessId rd), rf_clientId = pp_clientDbId inp, rf_userId = pp_userId inp,
     rf_scope = columns_of (pp_scopeTuple inp), rf_scopes = pp_scopes inp, rf_rotationFamilyId = family_of inp rd,
     rf_parentRefreshTokenId = pp_parentRefreshTokenId inp, rf_expiresAt = now + OAUTH_REFRESH_TOKEN_TTL_SEC * 1000,
     rf_consumedAt = None, rf_replayDetectedAt = None, rf_revokedAt = None\<rparr>"

definition mintTokenPairInTransaction ::
    "'s oauth_service \<Rightarrow> pair_input \<Rightarrow> pair_rand \<Rightarrow> int \<Rightarrow> 's \<Rightarrow> db_error + (token_pair \<times> 's)" where
  "mintTokenPairInTransaction sv inp rd now s =
     (case create (os_access sv) (access_of sv inp rd now) s of
        Inl e \<Rightarrow> Inl e
      | Inr s1 \<Rightarrow> (case create (os_refresh sv) (refresh_of sv inp rd now) s1 of
          Inl e \<Rightarrow> Inl e
        | Inr s2 \<Rightarrow> Inr (\<lparr>tp_accessToken = ACCESS_TOKEN_PREFIX @ pr_access rd, tp_refreshToken = REFRESH_TOKEN_PREFIX @ pr_refresh rd,
            tp_accessTokenHash = at_tokenHash (access_of sv inp rd now), tp_expiresIn = OAUTH_ACCESS_TOKEN_TTL_SEC,
            tp_scopes = publicScopes (pp_scopes inp), tp_scope = pp_scopeTuple inp, tp_userId = pp_userId inp,
            tp_entityPk = (if given (pp_entityPk inp) then pp_entityPk inp else None)\<rparr>, s2)))"

definition invalid_grant :: "string \<Rightarrow> oauth_error" where
  "invalid_grant msg = OAuthError ''invalid_grant'' msg 400"

text \<open>The second half of an exchange: the guarded use of the code and the new pair, in one transaction.\<close>

definition code_tx ::
    "'s oauth_service \<Rightarrow> code_row \<Rightarrow> client_row \<Rightarrow> scope_tuple \<Rightarrow> pair_rand \<Rightarrow> int \<Rightarrow> 's \<Rightarrow> (oauth_error + token_pair) \<times> 's" where
  "code_tx sv row client scope rd now s =
     (case updateMany (os_codes sv) (\<lambda>r. ac_id r = ac_id row \<and> ac_usedAt r = None \<and> now < ac_expiresAt r)
        (\<lambda>r. r\<lparr>ac_usedAt := Some now\<rparr>) s of
        Inl e \<Rightarrow> (Inl (OAuthDb e), s)
      | Inr (n, s1) \<Rightarrow> if n \<noteq> 1 then (Inl (invalid_grant ''code already used''), s1)
          else (case mintTokenPairInTransaction sv \<lparr>pp_clientDbId = ac_clientId row, pp_userId = ac_userId row,
                  pp_scopeTuple = scope, pp_scopes = ac_scopes row, pp_rotationFamilyId = None, pp_parentRefreshTokenId = None,
                  pp_entityPk = oc_entityId client\<rparr> rd now s1 of
             Inl e \<Rightarrow> (Inl (OAuthDb e), s) | Inr (pair, s2) \<Rightarrow> (Inr pair, s2)))"

record exchange_input =
  xi_clientId :: string
  xi_code :: string
  xi_codeVerifier :: string
  xi_redirectUri :: string
  xi_expectedScope :: "scope_tuple option"

text \<open>The first half: the row, its client and the checks.\<close>

definition code_checks ::
    "'s oauth_service \<Rightarrow> exchange_input \<Rightarrow> int \<Rightarrow> 's \<Rightarrow> oauth_error + (code_row \<times> client_row \<times> scope_tuple)" where
  "code_checks sv inp now s =
     (case findFirst (os_codes sv) (\<lambda>r. ac_codeHash r = os_sha256 sv (xi_code inp)) s of
        Inl e \<Rightarrow> Inl (OAuthDb e)
      | Inr None \<Rightarrow> Inl (invalid_grant ''code not found'')
      | Inr (Some row) \<Rightarrow> (case owner sv (ac_clientId row) s of
          Inl e \<Rightarrow> Inl e
        | Inr client \<Rightarrow>
            if ac_usedAt row \<noteq> None then Inl (invalid_grant ''code already used'')
            else if ac_expiresAt row < now then Inl (invalid_grant ''code expired'')
            else if oc_clientId client \<noteq> xi_clientId inp then Inl (invalid_grant ''code was issued to a different client'')
            else if ac_redirectUri row \<noteq> xi_redirectUri inp then Inl (invalid_grant ''redirect_uri mismatch'')
            else if os_s256 sv (xi_codeVerifier inp) \<noteq> ac_codeChallenge row then Inl (invalid_grant ''PKCE verification failed'')
            else (case full_scope (ac_scope row) of
               None \<Rightarrow> Inl (invalid_grant ''authorization code has no canonical scope'')
             | Some scope \<Rightarrow> if xi_expectedScope inp \<noteq> None \<and> xi_expectedScope inp \<noteq> Some scope
                 then Inl (invalid_grant ''authorization code scope does not match this endpoint'')
                 else Inr (row, client, scope))))"

definition exchangeAuthCode ::
    "'s oauth_service \<Rightarrow> exchange_input \<Rightarrow> pair_rand \<Rightarrow> int \<Rightarrow> int \<Rightarrow> 's \<Rightarrow> (oauth_error + token_pair) \<times> 's" where
  "exchangeAuthCode sv inp rd now now' s = (case code_checks sv inp now s of
       Inl e \<Rightarrow> (Inl e, s) | Inr (row, client, scope) \<Rightarrow> code_tx sv row client scope rd now' s)"

record direct_input =
  di_clientId :: string
  di_userId :: string
  di_scopeTuple :: scope_tuple
  di_scopes :: "string list"

definition mintTokenPair ::
    "'s oauth_service \<Rightarrow> direct_input \<Rightarrow> pair_rand \<Rightarrow> int \<Rightarrow> 's \<Rightarrow> (oauth_error + token_pair) \<times> 's" where
  "mintTokenPair sv inp rd now s = (case canonicalScope sv (di_scopeTuple inp) s of
       Inl e \<Rightarrow> (Inl e, s)
     | Inr scope \<Rightarrow> (case find_client sv (di_clientId inp) s of
         Inl e \<Rightarrow> (Inl e, s)
       | Inr found \<Rightarrow>
           if (case found of None \<Rightarrow> True | Some c \<Rightarrow> oc_deletedAt c \<noteq> None \<or> oc_organizationId c \<noteq> sc_organizationId scope)
           then (Inl (OAuthError ''invalid_client'' ''unknown client_id'' 401), s)
           else (case mintTokenPairInTransaction sv \<lparr>pp_clientDbId = oc_id (the found), pp_userId = di_userId inp,
                   pp_scopeTuple = scope, pp_scopes = di_scopes inp, pp_rotationFamilyId = None, pp_parentRefreshTokenId = None,
                   pp_entityPk = oc_entityId (the found)\<rparr> rd now s of
              Inl e \<Rightarrow> (Inl (OAuthDb e), s) | Inr (pair, s') \<Rightarrow> (Inr pair, s'))))"

section \<open>Rotation\<close>

definition rotate_tx ::
    "'s oauth_service \<Rightarrow> refresh_row \<Rightarrow> client_row \<Rightarrow> scope_tuple \<Rightarrow> pair_rand \<Rightarrow> int \<Rightarrow> 's \<Rightarrow> (oauth_error + token_pair) \<times> 's" where
  "rotate_tx sv row client scope rd now s =
     (case updateMany (os_refresh sv) (\<lambda>r. rf_id r = rf_id row \<and> rf_consumedAt r = None \<and> rf_revokedAt r = None \<and> now < rf_expiresAt r)
        (\<lambda>r. r\<lparr>rf_consumedAt := Some now\<rparr>) s of
        Inl e \<Rightarrow> (Inl (OAuthDb e), s)
      | Inr (n, s1) \<Rightarrow> if n \<noteq> 1 then (Inl (invalid_grant ''refresh_token replay detected''), s1)
          else (case mintTokenPairInTransaction sv \<lparr>pp_clientDbId = rf_clientId row, pp_userId = rf_userId row,
                  pp_scopeTuple = scope, pp_scopes = rf_scopes row, pp_rotationFamilyId = Some (rf_rotationFamilyId row),
                  pp_parentRefreshTokenId = Some (rf_id row), pp_entityPk = oc_entityId client\<rparr> rd now s1 of
             Inl e \<Rightarrow> (Inl (OAuthDb e), s) | Inr (pair, s2) \<Rightarrow> (Inr pair, s2)))"

text \<open>
  The answer to a replay: every refresh token of the family and every access token one of them
  belongs to is revoked.
\<close>

definition replay_tx :: "'s oauth_service \<Rightarrow> string \<Rightarrow> int \<Rightarrow> 's \<Rightarrow> db_error + 's" where
  "replay_tx sv family now s =
     (case updateMany (os_refresh sv) (\<lambda>r. rf_rotationFamilyId r = family)
        (\<lambda>r. r\<lparr>rf_replayDetectedAt := Some now, rf_revokedAt := Some now\<rparr>) s of
        Inl e \<Rightarrow> Inl e
      | Inr (_, s1) \<Rightarrow> (case findMany (os_refresh sv) (\<lambda>r. rf_rotationFamilyId r = family) s1 of
          Inl e \<Rightarrow> Inl e
        | Inr members \<Rightarrow> map_res snd (updateMany (os_access sv)
            (\<lambda>a. Some (at_id a) \<in> set (map rf_accessTokenId members) \<and> at_revokedAt a = None)
            (\<lambda>a. a\<lparr>at_revokedAt := Some now\<rparr>) s1)))"

record refresh_input =
  ri_clientId :: string
  ri_refreshToken :: string
  ri_expectedScope :: "scope_tuple option"

definition refresh_checks ::
    "'s oauth_service \<Rightarrow> refresh_input \<Rightarrow> 's \<Rightarrow> oauth_error + (refresh_row \<times> client_row \<times> scope_tuple)" where
  "refresh_checks sv inp s =
     (case findFirst (os_refresh sv) (\<lambda>r. rf_tokenHash r = os_sha256 sv (ri_refreshToken inp)) s of
        Inl e \<Rightarrow> Inl (OAuthDb e)
      | Inr None \<Rightarrow> Inl (invalid_grant ''refresh_token not found'')
      | Inr (Some row) \<Rightarrow> (case owner sv (rf_clientId row) s of
          Inl e \<Rightarrow> Inl e
        | Inr client \<Rightarrow>
            if oc_clientId client \<noteq> ri_clientId inp then Inl (invalid_grant ''refresh_token was issued to a different client'')
            else (case full_scope (rf_scope row) of
               None \<Rightarrow> Inl (invalid_grant ''refresh_token has no canonical scope'')
             | Some scope \<Rightarrow> if ri_expectedScope inp \<noteq> None \<and> ri_expectedScope inp \<noteq> Some scope
                 then Inl (invalid_grant ''refresh_token scope does not match this endpoint'')
                 else Inr (row, client, scope))))"

definition exchangeRefreshToken ::
    "'s oauth_service \<Rightarrow> refresh_input \<Rightarrow> pair_rand \<Rightarrow> int \<Rightarrow> int \<Rightarrow> 's \<Rightarrow> (oauth_error + token_pair) \<times> 's" where
  "exchangeRefreshToken sv inp rd now now' s = (case refresh_checks sv inp s of
       Inl e \<Rightarrow> (Inl e, s)
     | Inr (row, client, scope) \<Rightarrow>
         if rf_consumedAt row \<noteq> None \<or> rf_revokedAt row \<noteq> None
         then (case replay_tx sv (rf_rotationFamilyId row) now s of
            Inl e \<Rightarrow> (Inl (OAuthDb e), s) | Inr s' \<Rightarrow> (Inl (invalid_grant ''refresh_token replay detected''), s'))
         else if rf_expiresAt row < now then (Inl (invalid_grant ''refresh_token expired''), s)
         else rotate_tx sv row client scope rd now' s)"

section \<open>Verification and revocation\<close>

record verified_oauth =
  vo_tokenHash :: string
  vo_clientId :: string
  vo_userId :: string
  vo_mcpUserId :: string
  vo_identityMode :: session_kind
  vo_scope :: scope_tuple
  vo_scopes :: "string list"
  vo_expiresAt :: int
  vo_entityPk :: "string option"

definition verifyAccessTokenHash :: "'s oauth_service \<Rightarrow> string \<Rightarrow> int \<Rightarrow> 's \<Rightarrow> oauth_error + verified_oauth option" where
  "verifyAccessTokenHash sv tokenHash now s =
     (case findFirst (os_access sv) (\<lambda>r. at_tokenHash r = tokenHash) s of
        Inl e \<Rightarrow> Inl (OAuthDb e)
      | Inr None \<Rightarrow> Inr None
      | Inr (Some row) \<Rightarrow> (case owner sv (at_clientId row) s of
          Inl e \<Rightarrow> Inl e
        | Inr client \<Rightarrow> (case full_scope (at_scope row) of
            None \<Rightarrow> Inr None
          | Some scope \<Rightarrow>
              if at_revokedAt row \<noteq> None \<or> oc_deletedAt client \<noteq> None \<or> at_expiresAt row < now then Inr None
              else (let result = (\<lambda>mode user. \<lparr>vo_tokenHash = tokenHash, vo_clientId = oc_clientId client, vo_userId = at_userId row,
                      vo_mcpUserId = user, vo_identityMode = mode, vo_scope = scope, vo_scopes = publicScopes (at_scopes row),
                      vo_expiresAt = at_expiresAt row, vo_entityPk = oc_entityId client\<rparr>) in
                case identityMarker (at_scopes row) of
                  None \<Rightarrow> Inr (Some (result Oidc (at_userId row)))
                | Some (kind, sessionId) \<Rightarrow>
                    (case os_session sv kind sessionId (case oc_entityId client of None \<Rightarrow> [] | Some x \<Rightarrow> x) (sc_environmentId scope) s of
                       Inl e \<Rightarrow> Inl (OAuthDb e)
                     | Inr None \<Rightarrow> Inr None
                     | Inr (Some mcpUserId) \<Rightarrow> Inr (Some (result kind mcpUserId)))))))"

definition verifyAccessToken :: "'s oauth_service \<Rightarrow> string \<Rightarrow> int \<Rightarrow> 's \<Rightarrow> oauth_error + verified_oauth option" where
  "verifyAccessToken sv raw now s = (if raw = [] \<or> \<not> starts_with ACCESS_TOKEN_PREFIX raw then Inr None
     else verifyAccessTokenHash sv (os_sha256 sv raw) now s)"

definition revokeAccessTokenById :: "'s oauth_service \<Rightarrow> string \<Rightarrow> string \<Rightarrow> int \<Rightarrow> 's \<Rightarrow> (oauth_error + bool) \<times> 's" where
  "revokeAccessTokenById sv i org now s = (if i = [] then (Inr False, s) else
     case updateMany (os_access sv) (\<lambda>r. at_id r = i \<and> sk_organizationId (at_scope r) = Some org \<and> at_revokedAt r = None)
       (\<lambda>r. r\<lparr>at_revokedAt := Some now\<rparr>) s of
       Inl e \<Rightarrow> (Inl (OAuthDb e), s) | Inr (n, s') \<Rightarrow> (Inr (0 < n), s'))"

text \<open>The optional filters on the client and on the scope.\<close>

definition in_scope :: "scope_tuple option \<Rightarrow> scope_columns \<Rightarrow> bool" where
  "in_scope expected cols = (case expected of None \<Rightarrow> True | Some sc \<Rightarrow> cols = columns_of sc)"

definition of_client :: "'s oauth_service \<Rightarrow> string option \<Rightarrow> 's \<Rightarrow> db_error + (string \<Rightarrow> bool)" where
  "of_client sv clientId s = (if \<not> given clientId then Inr (\<lambda>i. True)
     else map_res (\<lambda>cs i. i \<in> set (map oc_id cs)) (findMany (os_clients sv) (\<lambda>c. Some (oc_clientId c) = clientId) s))"

definition revoke_access ::
    "'s oauth_service \<Rightarrow> string \<Rightarrow> (string \<Rightarrow> bool) \<Rightarrow> scope_tuple option \<Rightarrow> int \<Rightarrow> 's \<Rightarrow> db_error + (nat \<times> 's)" where
  "revoke_access sv tokenHash mine expected now s = updateMany (os_access sv)
     (\<lambda>r. at_tokenHash r = tokenHash \<and> at_revokedAt r = None \<and> mine (at_clientId r) \<and> in_scope expected (at_scope r))
     (\<lambda>r. r\<lparr>at_revokedAt := Some now\<rparr>) s"

definition revoke_refresh ::
    "'s oauth_service \<Rightarrow> string \<Rightarrow> (string \<Rightarrow> bool) \<Rightarrow> scope_tuple option \<Rightarrow> int \<Rightarrow> 's \<Rightarrow> db_error + (nat \<times> 's)" where
  "revoke_refresh sv tokenHash mine expected now s = updateMany (os_refresh sv)
     (\<lambda>r. rf_tokenHash r = tokenHash \<and> rf_revokedAt r = None \<and> mine (rf_clientId r) \<and> in_scope expected (rf_scope r))
     (\<lambda>r. r\<lparr>rf_revokedAt := Some now\<rparr>) s"

definition revokeToken ::
    "'s oauth_service \<Rightarrow> string \<Rightarrow> string option \<Rightarrow> scope_tuple option \<Rightarrow> int \<Rightarrow> 's \<Rightarrow> (oauth_error + bool) \<times> 's" where
  "revokeToken sv raw clientId expected now s =
     (if raw = [] \<or> \<not> (starts_with ACCESS_TOKEN_PREFIX raw \<or> starts_with REFRESH_TOKEN_PREFIX raw) then (Inr False, s)
      else case of_client sv clientId s of
        Inl e \<Rightarrow> (Inl (OAuthDb e), s)
      | Inr mine \<Rightarrow>
          (case (if starts_with ACCESS_TOKEN_PREFIX raw then revoke_access sv (os_sha256 sv raw) mine expected now s
                 else revoke_refresh sv (os_sha256 sv raw) mine expected now s) of
             Inl e \<Rightarrow> (Inl (OAuthDb e), s) | Inr (n, s') \<Rightarrow> (Inr (0 < n), s')))"

section \<open>Configurations\<close>

text \<open>
  A configuration is the database and the refresh rows that requests in flight have read. A
  transaction is one step, whatever was read before it; a family id drawn for a new pair has
  not been drawn before.
\<close>

inductive oauth_step ::
    "'s oauth_service \<Rightarrow> ('s \<Rightarrow> refresh_row multiset) \<Rightarrow> 's \<times> refresh_row set \<Rightarrow> 's \<times> refresh_row set \<Rightarrow> bool"
  for sv rrows where
  read_step: "row \<in># rrows s \<Longrightarrow> oauth_step sv rrows (s, Q) (s, insert row Q)"
| rotate_step: "row \<in> Q \<Longrightarrow> rotate_tx sv row client scope rd now s = (res, s') \<Longrightarrow> oauth_step sv rrows (s, Q) (s', Q)"
| replay_step: "replay_tx sv family now s = Inr s' \<Longrightarrow> oauth_step sv rrows (s, Q) (s', Q)"
| exchange_step: "code_tx sv crow client scope rd now s = (res, s') \<Longrightarrow>
    pr_family rd \<notin> rf_rotationFamilyId ` set_mset (rrows s) \<Longrightarrow> oauth_step sv rrows (s, Q) (s', Q)"
| pair_step: "mintTokenPair sv dinp rd now s = (res, s') \<Longrightarrow>
    pr_family rd \<notin> rf_rotationFamilyId ` set_mset (rrows s) \<Longrightarrow> oauth_step sv rrows (s, Q) (s', Q)"
| issue_step: "issueAuthCode sv cinp newId rand now s = (ires, s') \<Longrightarrow> oauth_step sv rrows (s, Q) (s', Q)"
| revoke_id_step: "revokeAccessTokenById sv i org now s = (rres, s') \<Longrightarrow> oauth_step sv rrows (s, Q) (s', Q)"
| revoke_token_step: "revokeToken sv raw clientId expected now s = (rres, s') \<Longrightarrow> oauth_step sv rrows (s, Q) (s', Q)"
| delete_step: "deleteClient sv cid org now s = (dres, s') \<Longrightarrow> oauth_step sv rrows (s, Q) (s', Q)"
| register_step: "register_client sv rinp newId r1 r2 now s = (gres, s') \<Longrightarrow> oauth_step sv rrows (s, Q) (s', Q)"
| secret_step: "rotateClientSecret sv cid org rand now s = (sres, s') \<Longrightarrow> oauth_step sv rrows (s, Q) (s', Q)"
| consent_step: "createConsentTransaction sv ninp newId nonce rand now s = (nres, s') \<Longrightarrow> oauth_step sv rrows (s, Q) (s', Q)"
| consume_step: "consumeConsentTransaction sv token now s = (cres, s') \<Longrightarrow> oauth_step sv rrows (s, Q) (s', Q)"

section \<open>Effects on the two token tables\<close>

text \<open>
  Every write keeps ids, families and the link to the access token, and never takes a
  revocation back; a mint adds one row to each table.
\<close>

definition tokens_updated ::
    "access_row multiset \<times> refresh_row multiset \<Rightarrow> access_row multiset \<times> refresh_row multiset \<Rightarrow> bool" where
  "tokens_updated x y \<longleftrightarrow> (\<exists>f g. fst y = image_mset f (fst x) \<and> snd y = image_mset g (snd x) \<and>
     (\<forall>a. at_id (f a) = at_id a \<and> (at_revokedAt a \<noteq> None \<longrightarrow> at_revokedAt (f a) \<noteq> None)) \<and>
     (\<forall>r. rf_id (g r) = rf_id r \<and> rf_rotationFamilyId (g r) = rf_rotationFamilyId r \<and> rf_accessTokenId (g r) = rf_accessTokenId r \<and>
       (rf_revokedAt r \<noteq> None \<longrightarrow> rf_revokedAt (g r) \<noteq> None)))"

definition pair_minted ::
    "string \<Rightarrow> access_row multiset \<times> refresh_row multiset \<Rightarrow> access_row multiset \<times> refresh_row multiset \<Rightarrow> bool" where
  "pair_minted family x y \<longleftrightarrow> (\<exists>a r. fst y = add_mset a (fst x) \<and> snd y = add_mset r (snd x) \<and>
     at_id a \<notin> at_id ` set_mset (fst x) \<and> rf_id r \<notin> rf_id ` set_mset (snd x) \<and>
     rf_accessTokenId r = Some (at_id a) \<and> rf_rotationFamilyId r = family)"

text \<open>Ids are unique, links point to rows, and what was read is still what is stored.\<close>

definition linked :: "access_row multiset \<times> refresh_row multiset \<Rightarrow> refresh_row set \<Rightarrow> bool" where
  "linked x Q \<longleftrightarrow> inj_on rf_id (set_mset (snd x)) \<and>
     (\<forall>r i. r \<in># snd x \<longrightarrow> rf_accessTokenId r = Some i \<longrightarrow> i \<in> at_id ` set_mset (fst x)) \<and>
     (\<forall>q. q \<in> Q \<longrightarrow> (\<exists>r. r \<in># snd x \<and> rf_id r = rf_id q \<and> rf_rotationFamilyId r = rf_rotationFamilyId q))"

text \<open>A dead family: it is there, and all its refresh and access tokens are revoked.\<close>

definition dead :: "string \<Rightarrow> access_row multiset \<times> refresh_row multiset \<Rightarrow> bool" where
  "dead family x \<longleftrightarrow> family \<in> rf_rotationFamilyId ` set_mset (snd x) \<and>
     (\<forall>r. r \<in># snd x \<longrightarrow> rf_rotationFamilyId r = family \<longrightarrow> rf_revokedAt r \<noteq> None \<and>
       (\<forall>a. a \<in># fst x \<longrightarrow> rf_accessTokenId r = Some (at_id a) \<longrightarrow> at_revokedAt a \<noteq> None))"

lemma tokens_updatedI:
  assumes "A' = image_mset f A" "R' = image_mset g R"
    and "\<And>a. at_id (f a) = at_id a" "\<And>a. at_revokedAt a \<noteq> None \<Longrightarrow> at_revokedAt (f a) \<noteq> None"
    and "\<And>r. rf_id (g r) = rf_id r" "\<And>r. rf_rotationFamilyId (g r) = rf_rotationFamilyId r"
    and "\<And>r. rf_accessTokenId (g r) = rf_accessTokenId r" "\<And>r. rf_revokedAt r \<noteq> None \<Longrightarrow> rf_revokedAt (g r) \<noteq> None"
  shows "tokens_updated (A, R) (A', R')"
  unfolding tokens_updated_def fst_conv snd_conv using assms by blast

lemma tokens_same: "tokens_updated x x"
  by (cases x, simp only:, rule tokens_updatedI [where f = "\<lambda>a. a" and g = "\<lambda>r. r"]) simp_all

lemma tokens_trans:
  assumes "tokens_updated x y" "tokens_updated y z"
  shows "tokens_updated x z"
proof -
  obtain f g where 1: "fst y = image_mset f (fst x)" "snd y = image_mset g (snd x)"
    "\<And>a. at_id (f a) = at_id a" "\<And>a. at_revokedAt a \<noteq> None \<Longrightarrow> at_revokedAt (f a) \<noteq> None"
    "\<And>r. rf_id (g r) = rf_id r" "\<And>r. rf_rotationFamilyId (g r) = rf_rotationFamilyId r"
    "\<And>r. rf_accessTokenId (g r) = rf_accessTokenId r" "\<And>r. rf_revokedAt r \<noteq> None \<Longrightarrow> rf_revokedAt (g r) \<noteq> None"
    using assms(1) unfolding tokens_updated_def by blast
  obtain f' g' where 2: "fst z = image_mset f' (fst y)" "snd z = image_mset g' (snd y)"
    "\<And>a. at_id (f' a) = at_id a" "\<And>a. at_revokedAt a \<noteq> None \<Longrightarrow> at_revokedAt (f' a) \<noteq> None"
    "\<And>r. rf_id (g' r) = rf_id r" "\<And>r. rf_rotationFamilyId (g' r) = rf_rotationFamilyId r"
    "\<And>r. rf_accessTokenId (g' r) = rf_accessTokenId r" "\<And>r. rf_revokedAt r \<noteq> None \<Longrightarrow> rf_revokedAt (g' r) \<noteq> None"
    using assms(2) unfolding tokens_updated_def by blast
  show ?thesis unfolding tokens_updated_def
    by (rule exI [of _ "f' \<circ> f"], rule exI [of _ "g' \<circ> g"])
      (simp add: 1(1-3,5-7) 2(1-3,5-7) multiset.map_comp 1(4,8) 2(4,8))
qed

lemma updated_linked:
  assumes "tokens_updated x y" "linked x Q"
  shows "linked y Q"
proof -
  obtain f g where y: "fst y = image_mset f (fst x)" "snd y = image_mset g (snd x)" and keep: "\<And>a. at_id (f a) = at_id a"
    "\<And>r. rf_id (g r) = rf_id r" "\<And>r. rf_rotationFamilyId (g r) = rf_rotationFamilyId r" "\<And>r. rf_accessTokenId (g r) = rf_accessTokenId r"
    using assms(1) unfolding tokens_updated_def by blast
  have "inj_on rf_id (set_mset (snd y))"
    using assms(2) unfolding y linked_def inj_on_def by (auto simp: keep)
  moreover have "i \<in> at_id ` set_mset (fst y)" if "r \<in># snd y" "rf_accessTokenId r = Some i" for r i
    using assms(2) that unfolding y linked_def by (auto simp: keep image_image)
  moreover have "\<exists>r. r \<in># snd y \<and> rf_id r = rf_id q \<and> rf_rotationFamilyId r = rf_rotationFamilyId q" if q: "q \<in> Q" for q
  proof -
    obtain r where r: "r \<in># snd x" "rf_id r = rf_id q" "rf_rotationFamilyId r = rf_rotationFamilyId q"
      using assms(2) q unfolding linked_def by blast
    then have "g r \<in># snd y" unfolding y by simp
    with r show ?thesis by (intro exI [of _ "g r"]) (simp add: keep)
  qed
  ultimately show ?thesis unfolding linked_def by blast
qed

lemma updated_dead:
  assumes "tokens_updated x y" "dead family x"
  shows "dead family y"
proof -
  obtain f g where y: "fst y = image_mset f (fst x)" "snd y = image_mset g (snd x)"
    "\<And>a. at_id (f a) = at_id a" "\<And>a. at_revokedAt a \<noteq> None \<Longrightarrow> at_revokedAt (f a) \<noteq> None"
    "\<And>r. rf_rotationFamilyId (g r) = rf_rotationFamilyId r"
    "\<And>r. rf_accessTokenId (g r) = rf_accessTokenId r" "\<And>r. rf_revokedAt r \<noteq> None \<Longrightarrow> rf_revokedAt (g r) \<noteq> None"
    using assms(1) unfolding tokens_updated_def by blast
  show ?thesis unfolding dead_def
  proof (intro conjI allI impI)
    show "family \<in> rf_rotationFamilyId ` set_mset (snd y)"
      using assms(2) unfolding dead_def y(2) by (auto simp: image_image y(5))
    fix r assume "r \<in># snd y" "rf_rotationFamilyId r = family"
    then obtain r0 where r0: "r0 \<in># snd x" "r = g r0" "rf_rotationFamilyId r0 = family" unfolding y(2) by (auto simp: y(5))
    then have d: "rf_revokedAt r0 \<noteq> None" "\<And>a. a \<in># fst x \<Longrightarrow> rf_accessTokenId r0 = Some (at_id a) \<Longrightarrow> at_revokedAt a \<noteq> None"
      using assms(2) unfolding dead_def by blast+
    show "rf_revokedAt r \<noteq> None" using y(7) [OF d(1)] r0(2) by simp
    fix a assume "a \<in># fst y" "rf_accessTokenId r = Some (at_id a)"
    then obtain a0 where "a0 \<in># fst x" "a = f a0" "rf_accessTokenId r0 = Some (at_id a0)" unfolding y(1) by (auto simp: y(3,6) r0(2))
    then show "at_revokedAt a \<noteq> None" using y(4) d(2) by blast
  qed
qed

lemma minted_linked: "pair_minted family x y \<Longrightarrow> linked x Q \<Longrightarrow> linked y Q"
  unfolding pair_minted_def linked_def by (elim exE conjE) (auto simp: inj_on_insert)

lemma minted_dead:
  assumes "pair_minted family' x y" "dead family x" "linked x Q" "family' \<noteq> family"
  shows "dead family y"
proof -
  obtain a r where y: "fst y = add_mset a (fst x)" "snd y = add_mset r (snd x)" "at_id a \<notin> at_id ` set_mset (fst x)"
    "rf_rotationFamilyId r = family'"
    using assms(1) unfolding pair_minted_def by blast
  have old: "rf_accessTokenId r0 \<noteq> Some (at_id a)" if "r0 \<in># snd x" for r0
    using assms(3) y(3) that unfolding linked_def by blast
  show ?thesis using assms(2,4) old unfolding dead_def y(1,2) by (auto simp: y(4))
qed

section \<open>The store\<close>

locale oauth_store =
  codes: prisma_table "os_codes sv" crows ac_id +
  access: prisma_table "os_access sv" arows at_id +
  refresh: prisma_table "os_refresh sv" rrows rf_id
  for sv :: "'s oauth_service" and crows :: "'s \<Rightarrow> code_row multiset" and arows :: "'s \<Rightarrow> access_row multiset"
    and rrows :: "'s \<Rightarrow> refresh_row multiset" +
  assumes codes_frame: "leaves (os_codes sv) (\<lambda>s. (arows s, rrows s))"
    and access_frame: "leaves (os_access sv) (\<lambda>s. (crows s, rrows s))"
    and refresh_frame: "leaves (os_refresh sv) (\<lambda>s. (crows s, arows s))"
    and clients_frame: "leaves (os_clients sv) (\<lambda>s. (crows s, arows s, rrows s))"
    and consents_frame: "leaves (os_consents sv) (\<lambda>s. (crows s, arows s, rrows s))"
begin

abbreviation token_rows :: "'s \<Rightarrow> access_row multiset \<times> refresh_row multiset" where
  "token_rows s \<equiv> (arows s, rrows s)"

text \<open>One transaction on the token tables: updates, then perhaps a pair.\<close>

definition quiet :: "'s \<Rightarrow> 's \<Rightarrow> bool" where
  "quiet s s' \<longleftrightarrow> ledger_write ac_id ac_usedAt (crows s) (crows s') \<and> tokens_updated (token_rows s) (token_rows s')"

lemma quiet_same: "quiet s s"
  by (simp add: quiet_def ledger_same tokens_same)

lemma quiet_access:
  assumes u: "updateMany (os_access sv) p f s = Inr (n, s')"
    and keep: "\<And>a. at_id (f a) = at_id a" "\<And>a. at_revokedAt a \<noteq> None \<Longrightarrow> at_revokedAt (f a) \<noteq> None"
  shows "crows s' = crows s \<and> tokens_updated (token_rows s) (token_rows s')"
proof -
  have "crows s' = crows s" "rrows s' = rrows s" using leaves_update [OF access_frame u] by auto
  moreover have "arows s' = image_mset (\<lambda>a. if p a then f a else a) (arows s)" using access.updated [OF u] by blast
  ultimately show ?thesis
    by (intro conjI tokens_updatedI [where f = "\<lambda>a. if p a then f a else a" and g = "\<lambda>r. r"])
      (simp_all add: keep(1), use keep(2) in auto)
qed

lemma quiet_refresh:
  assumes u: "updateMany (os_refresh sv) p g s = Inr (n, s')"
    and keep: "\<And>r. rf_id (g r) = rf_id r" "\<And>r. rf_rotationFamilyId (g r) = rf_rotationFamilyId r"
      "\<And>r. rf_accessTokenId (g r) = rf_accessTokenId r" "\<And>r. rf_revokedAt r \<noteq> None \<Longrightarrow> rf_revokedAt (g r) \<noteq> None"
  shows "crows s' = crows s \<and> tokens_updated (token_rows s) (token_rows s')"
proof -
  have "crows s' = crows s" "arows s' = arows s" using leaves_update [OF refresh_frame u] by auto
  moreover have "rrows s' = image_mset (\<lambda>r. if p r then g r else r) (rrows s)" using refresh.updated [OF u] by blast
  ultimately show ?thesis
    by (intro conjI tokens_updatedI [where f = "\<lambda>a. a" and g = "\<lambda>r. if p r then g r else r"])
      (simp_all add: keep(1-3), use keep(4) in auto)
qed

lemma mint_pair_effect:
  assumes "mintTokenPairInTransaction sv inp rd now s = Inr (pair, s')"
  shows "crows s' = crows s \<and> pair_minted (family_of inp rd) (token_rows s) (token_rows s')"
proof -
  obtain s1 where 1: "create (os_access sv) (access_of sv inp rd now) s = Inr s1"
    and 2: "create (os_refresh sv) (refresh_of sv inp rd now) s1 = Inr s'"
    using assms by (auto simp: mintTokenPairInTransaction_def split: sum.splits)
  have "crows s' = crows s" "arows s' = add_mset (access_of sv inp rd now) (arows s)"
    "rrows s' = add_mset (refresh_of sv inp rd now) (rrows s)"
    "at_id (access_of sv inp rd now) \<notin> at_id ` set_mset (arows s)" "rf_id (refresh_of sv inp rd now) \<notin> rf_id ` set_mset (rrows s)"
    using access.created [OF 1] refresh.created [OF 2] leaves_create [OF access_frame 1] leaves_create [OF refresh_frame 2] by auto
  moreover have "rf_accessTokenId (refresh_of sv inp rd now) = Some (at_id (access_of sv inp rd now))"
    "rf_rotationFamilyId (refresh_of sv inp rd now) = family_of inp rd"
    by (simp_all add: refresh_of_def access_of_def)
  ultimately show ?thesis unfolding pair_minted_def by auto
qed

lemma minted_rows:
  assumes "mintTokenPairInTransaction sv inp rd now s = Inr (pair, s')"
  shows "arows s' = add_mset (access_of sv inp rd now) (arows s) \<and> rrows s' = add_mset (refresh_of sv inp rd now) (rrows s) \<and>
    tp_scope pair = pp_scopeTuple inp \<and> tp_userId pair = pp_userId inp \<and> tp_scopes pair = publicScopes (pp_scopes inp) \<and>
    tp_accessTokenHash pair = at_tokenHash (access_of sv inp rd now)"
proof -
  obtain s1 where 1: "create (os_access sv) (access_of sv inp rd now) s = Inr s1"
    and 2: "create (os_refresh sv) (refresh_of sv inp rd now) s1 = Inr s'"
    using assms by (auto simp: mintTokenPairInTransaction_def split: sum.splits)
  have "pair = (\<lparr>tp_accessToken = ACCESS_TOKEN_PREFIX @ pr_access rd, tp_refreshToken = REFRESH_TOKEN_PREFIX @ pr_refresh rd,
      tp_accessTokenHash = at_tokenHash (access_of sv inp rd now), tp_expiresIn = OAUTH_ACCESS_TOKEN_TTL_SEC,
      tp_scopes = publicScopes (pp_scopes inp), tp_scope = pp_scopeTuple inp, tp_userId = pp_userId inp,
      tp_entityPk = (if given (pp_entityPk inp) then pp_entityPk inp else None)\<rparr>)"
    using assms 1 2 by (simp add: mintTokenPairInTransaction_def)
  then show ?thesis
    using access.created [OF 1] refresh.created [OF 2] leaves_create [OF access_frame 1] leaves_create [OF refresh_frame 2] by simp
qed

text \<open>What a whole step does: nothing but updates, or a pair of a new family or of one that still has a live member.\<close>

definition minting :: "refresh_row set \<Rightarrow> 's \<Rightarrow> 's \<Rightarrow> bool" where
  "minting Q s s' \<longleftrightarrow> (\<exists>t family. quiet s t \<and> crows s' = crows t \<and> pair_minted family (token_rows t) (token_rows s') \<and>
     (family \<notin> rf_rotationFamilyId ` set_mset (rrows s) \<or>
      (\<exists>q r. q \<in> Q \<and> r \<in># rrows s \<and> rf_id r = rf_id q \<and> rf_revokedAt r = None \<and> rf_rotationFamilyId q = family)))"

lemma code_tx_effect:
  assumes tx: "code_tx sv row client scope rd now s = (res, s')" and fresh: "pr_family rd \<notin> rf_rotationFamilyId ` set_mset (rrows s)"
  shows "quiet s s' \<or> minting Q s s'"
proof (cases "updateMany (os_codes sv) (\<lambda>r. ac_id r = ac_id row \<and> ac_usedAt r = None \<and> now < ac_expiresAt r)
    (\<lambda>r. r\<lparr>ac_usedAt := Some now\<rparr>) s")
  case (Inl e)
  then show ?thesis using tx by (simp add: code_tx_def quiet_same)
next
  case (Inr ns)
  obtain n s1 where ns: "ns = (n, s1)" by fastforce
  note u = Inr [unfolded ns]
  have "ledger_write ac_id ac_usedAt (crows s) (crows s1)"
    by (rule ledger_update [OF codes.prisma_table_axioms u]) simp_all
  then have q: "quiet s s1" using leaves_update [OF codes_frame u] by (simp add: quiet_def tokens_same)
  let ?inp = "\<lparr>pp_clientDbId = ac_clientId row, pp_userId = ac_userId row, pp_scopeTuple = scope, pp_scopes = ac_scopes row,
    pp_rotationFamilyId = None, pp_parentRefreshTokenId = None, pp_entityPk = oc_entityId client\<rparr>"
  consider "s' = s" | "s' = s1" | pair where "mintTokenPairInTransaction sv ?inp rd now s1 = Inr (pair, s')"
    using tx u by (auto simp: code_tx_def split: if_splits sum.splits)
  then show ?thesis
  proof cases
    case 3
    then show ?thesis using q fresh mint_pair_effect [OF 3] unfolding minting_def by (auto simp: family_of_def)
  qed (use q quiet_same in auto)
qed

lemma rotate_tx_effect:
  assumes tx: "rotate_tx sv row client scope rd now s = (res, s')" and row: "row \<in> Q"
  shows "quiet s s' \<or> minting Q s s'"
proof (cases "updateMany (os_refresh sv) (\<lambda>r. rf_id r = rf_id row \<and> rf_consumedAt r = None \<and> rf_revokedAt r = None \<and>
    now < rf_expiresAt r) (\<lambda>r. r\<lparr>rf_consumedAt := Some now\<rparr>) s")
  case (Inl e)
  then show ?thesis using tx by (simp add: rotate_tx_def quiet_same)
next
  case (Inr ns)
  obtain n s1 where ns: "ns = (n, s1)" by fastforce
  note u = Inr [unfolded ns]
  have q: "quiet s s1" using quiet_refresh [OF u] by (simp add: quiet_def ledger_same)
  let ?inp = "\<lparr>pp_clientDbId = rf_clientId row, pp_userId = rf_userId row, pp_scopeTuple = scope, pp_scopes = rf_scopes row,
    pp_rotationFamilyId = Some (rf_rotationFamilyId row), pp_parentRefreshTokenId = Some (rf_id row), pp_entityPk = oc_entityId client\<rparr>"
  consider "s' = s" | "s' = s1" | pair where "n = 1" "mintTokenPairInTransaction sv ?inp rd now s1 = Inr (pair, s')"
    using tx u by (auto simp: rotate_tx_def split: if_splits sum.splits)
  then show ?thesis
  proof cases
    case 3
    have "\<exists>r. r \<in># rrows s \<and> rf_id r = rf_id row \<and> rf_revokedAt r = None" using refresh.updated_positive [OF u] 3(1) by auto
    then show ?thesis using q row mint_pair_effect [OF 3(2)] unfolding minting_def by (auto simp: family_of_def)
  qed (use q quiet_same in auto)
qed

lemma pair_effect:
  assumes "mintTokenPair sv inp rd now s = (res, s')" "pr_family rd \<notin> rf_rotationFamilyId ` set_mset (rrows s)"
  shows "quiet s s' \<or> minting Q s s'"
proof -
  consider "s' = s" | pinp pair where "mintTokenPairInTransaction sv pinp rd now s = Inr (pair, s')" "pp_rotationFamilyId pinp = None"
    using assms(1) by (auto simp: mintTokenPair_def split: sum.splits if_splits)
  then show ?thesis
  proof cases
    case 2
    then show ?thesis using quiet_same mint_pair_effect [OF 2(1)] assms(2) unfolding minting_def by (auto simp: family_of_def)
  qed (simp add: quiet_same)
qed

lemma replay_effect:
  assumes "replay_tx sv family now s = Inr s'"
  shows "quiet s s'"
proof -
  obtain n s1 where 1: "updateMany (os_refresh sv) (\<lambda>r. rf_rotationFamilyId r = family)
      (\<lambda>r. r\<lparr>rf_replayDetectedAt := Some now, rf_revokedAt := Some now\<rparr>) s = Inr (n, s1)"
    using assms by (auto simp: replay_tx_def split: sum.splits)
  then obtain p m where 2: "updateMany (os_access sv) p (\<lambda>a. a\<lparr>at_revokedAt := Some now\<rparr>) s1 = Inr (m, s')"
    using assms by (auto simp: replay_tx_def map_res_Inr split: sum.splits)
  show ?thesis using quiet_refresh [OF 1] quiet_access [OF 2] tokens_trans unfolding quiet_def by (auto simp: ledger_same)
qed

lemma delete_effect:
  assumes "delete_tx sv i now s = (res, s')"
  shows "quiet s s'"
proof (cases res)
  case (Inl e)
  then have "s' = s" using assms by (auto simp: delete_tx_def split: sum.splits if_splits)
  then show ?thesis by (simp add: quiet_same)
next
  case (Inr nm)
  obtain k s1 where 1: "updateMany (os_clients sv) (\<lambda>c. oc_id c = i) (\<lambda>c. c\<lparr>oc_deletedAt := Some now\<rparr>) s = Inr (k, s1)"
    using assms Inr by (auto simp: delete_tx_def split: sum.splits if_splits)
  then obtain n s2 where 2: "updateMany (os_access sv) (\<lambda>r. at_clientId r = i \<and> at_revokedAt r = None)
      (\<lambda>r. r\<lparr>at_revokedAt := Some now\<rparr>) s1 = Inr (n, s2)"
    using assms Inr by (auto simp: delete_tx_def split: sum.splits if_splits)
  then obtain m where 3: "updateMany (os_refresh sv) (\<lambda>r. rf_clientId r = i \<and> rf_revokedAt r = None)
      (\<lambda>r. r\<lparr>rf_revokedAt := Some now\<rparr>) s2 = Inr (m, s')"
    using assms Inr 1 by (auto simp: delete_tx_def split: sum.splits if_splits)
  have "crows s1 = crows s" "token_rows s1 = token_rows s" using leaves_update [OF clients_frame 1] by auto
  then show ?thesis using quiet_access [OF 2] quiet_refresh [OF 3] tokens_trans unfolding quiet_def by (auto simp: ledger_same)
qed

lemma quiet_frame: "(crows s', arows s', rrows s') = (crows s, arows s, rrows s) \<Longrightarrow> quiet s s'"
  by (simp add: quiet_def ledger_same tokens_same)

lemma issue_effect:
  assumes "issueAuthCode sv inp newId rand now s = (res, s')"
  shows "quiet s s'"
proof -
  consider "s' = s" | row where "create (os_codes sv) row s = Inr s'"
    using assms by (auto simp: issueAuthCode_def Let_def split: if_splits sum.splits option.splits)
  then show ?thesis
  proof cases
    case 2
    then show ?thesis using ledger_create [OF codes.prisma_table_axioms 2] leaves_create [OF codes_frame 2]
      by (simp add: quiet_def tokens_same)
  qed (simp add: quiet_same)
qed

lemma revoke_id_effect:
  assumes "revokeAccessTokenById sv i org now s = (res, s')"
  shows "quiet s s'"
proof -
  consider "s' = s" | p n where "updateMany (os_access sv) p (\<lambda>r. r\<lparr>at_revokedAt := Some now\<rparr>) s = Inr (n, s')"
    using assms by (auto simp: revokeAccessTokenById_def split: if_splits sum.splits)
  then show ?thesis
  proof cases
    case 2
    then show ?thesis using quiet_access [OF 2] by (simp add: quiet_def ledger_same)
  qed (simp add: quiet_same)
qed

lemma revoke_token_effect:
  assumes "revokeToken sv raw clientId expected now s = (res, s')"
  shows "quiet s s'"
proof -
  consider "s' = s" | mine n where "revoke_access sv (os_sha256 sv raw) mine expected now s = Inr (n, s')"
    | mine n where "revoke_refresh sv (os_sha256 sv raw) mine expected now s = Inr (n, s')"
    using assms by (auto simp: revokeToken_def split: if_splits sum.splits)
  then show ?thesis
  proof cases
    case 2
    then show ?thesis using quiet_access [OF 2 [unfolded revoke_access_def]] by (simp add: quiet_def ledger_same)
  next
    case 3
    then show ?thesis using quiet_refresh [OF 3 [unfolded revoke_refresh_def]] by (simp add: quiet_def ledger_same)
  qed (simp add: quiet_same)
qed

lemma delete_client_effect: "deleteClient sv cid org now s = (res, s') \<Longrightarrow> quiet s s'"
  by (auto simp: deleteClient_def quiet_same intro: delete_effect split: sum.splits option.splits if_splits prod.splits)

lemma client_effects:
  shows "register_client sv inp newId r1 r2 now s = (gres, s') \<Longrightarrow> quiet s s'"
    and "rotateClientSecret sv cid org rand now s = (sres, s') \<Longrightarrow> quiet s s'"
proof -
  assume "register_client sv inp newId r1 r2 now s = (gres, s')"
  then consider "s' = s" | row where "create (os_clients sv) row s = Inr s'"
    by (auto simp: register_client_def Let_def split: if_splits sum.splits option.splits)
  then show "quiet s s'" by cases (simp add: quiet_same, rule quiet_frame, erule leaves_create [OF clients_frame])
next
  assume "rotateClientSecret sv cid org rand now s = (sres, s')"
  then consider "s' = s" | p f n where "updateMany (os_clients sv) p f s = Inr (n, s')"
    by (auto simp: rotateClientSecret_def Let_def split: if_splits sum.splits option.splits)
  then show "quiet s s'" by cases (simp add: quiet_same, rule quiet_frame, erule leaves_update [OF clients_frame])
qed

lemma consent_effects:
  shows "createConsentTransaction sv inp newId nonce rand now s = (nres, s') \<Longrightarrow> quiet s s'"
    and "consumeConsentTransaction sv token now s = (cres, s') \<Longrightarrow> quiet s s'"
proof -
  assume "createConsentTransaction sv inp newId nonce rand now s = (nres, s')"
  then consider "s' = s" | row where "create (os_consents sv) row s = Inr s'"
    by (auto simp: createConsentTransaction_def Let_def split: if_splits sum.splits)
  then show "quiet s s'" by cases (simp add: quiet_same, rule quiet_frame, erule leaves_create [OF consents_frame])
next
  assume "consumeConsentTransaction sv token now s = (cres, s')"
  then consider "s' = s" | p f n where "updateMany (os_consents sv) p f s = Inr (n, s')"
    by (auto simp: consumeConsentTransaction_def split: if_splits sum.splits option.splits)
  then show "quiet s s'" by cases (simp add: quiet_same, rule quiet_frame, erule leaves_update [OF consents_frame])
qed

text \<open>Every step reads a row, is quiet or mints.\<close>

lemma step_effect:
  assumes "oauth_step sv rrows (s, Q) (s', Q')"
  shows "(s' = s \<and> (\<exists>row. row \<in># rrows s \<and> Q' = insert row Q)) \<or> (Q' = Q \<and> (quiet s s' \<or> minting Q s s'))"
  using assms
proof cases
  case (rotate_step row client scope rd now res)
  then show ?thesis using rotate_tx_effect by blast
next
  case (replay_step family now)
  then show ?thesis using replay_effect by blast
next
  case (exchange_step crow client scope rd now res)
  then show ?thesis using code_tx_effect by blast
next
  case (pair_step dinp rd now res)
  then show ?thesis using pair_effect by blast
qed (auto intro: issue_effect revoke_id_effect revoke_token_effect delete_client_effect client_effects consent_effects)

lemma step_codes: "oauth_step sv rrows c c' \<Longrightarrow> ledger_write ac_id ac_usedAt (crows (fst c)) (crows (fst c'))"
  using step_effect [of "fst c" "snd c" "fst c'" "snd c'"] by (auto simp: quiet_def minting_def ledger_same)

lemma live_family:
  assumes "linked (token_rows s) Q" "dead family (token_rows s)" "q \<in> Q" "r \<in># rrows s" "rf_id r = rf_id q" "rf_revokedAt r = None"
  shows "rf_rotationFamilyId q \<noteq> family"
proof -
  obtain r' where r': "r' \<in># rrows s" "rf_id r' = rf_id q" "rf_rotationFamilyId r' = rf_rotationFamilyId q"
    using assms(1,3) unfolding linked_def by auto
  have "inj_on rf_id (set_mset (rrows s))" using assms(1) unfolding linked_def by simp
  then have "r' = r" using r'(1,2) assms(4,5) by (auto simp: inj_on_def)
  then show ?thesis using assms(2,4,6) r'(3) unfolding dead_def by auto
qed

lemma step_linked:
  assumes "oauth_step sv rrows c c'" "linked (token_rows (fst c)) (snd c)"
  shows "linked (token_rows (fst c')) (snd c')"
proof -
  obtain s Q s' Q' where c: "c = (s, Q)" "c' = (s', Q')" by fastforce
  have l: "linked (token_rows s) Q" using assms(2) c by simp
  from step_effect [OF assms(1) [unfolded c]] have "linked (token_rows s') Q'"
  proof (elim disjE conjE exE)
    fix row assume "s' = s" "row \<in># rrows s" "Q' = insert row Q"
    then show ?thesis using l unfolding linked_def by auto
  next
    assume "Q' = Q" "quiet s s'"
    then show ?thesis using l updated_linked unfolding quiet_def by blast
  next
    assume "Q' = Q" "minting Q s s'"
    then show ?thesis using l updated_linked minted_linked unfolding minting_def quiet_def by blast
  qed
  then show ?thesis by (simp add: c)
qed

lemma step_dead:
  assumes "oauth_step sv rrows c c'" "linked (token_rows (fst c)) (snd c)" "dead family (token_rows (fst c))"
  shows "dead family (token_rows (fst c'))"
proof -
  obtain s Q s' Q' where c: "c = (s, Q)" "c' = (s', Q')" by fastforce
  have l: "linked (token_rows s) Q" and d: "dead family (token_rows s)" using assms(2,3) c by simp_all
  from step_effect [OF assms(1) [unfolded c]] have "dead family (token_rows s')"
  proof (elim disjE conjE exE)
    assume "Q' = Q" "quiet s s'"
    then show ?thesis using d updated_dead unfolding quiet_def by blast
  next
    assume "minting Q s s'"
    then obtain t fam where t: "quiet s t" "pair_minted fam (token_rows t) (token_rows s')"
      and fam: "fam \<notin> rf_rotationFamilyId ` set_mset (rrows s) \<or>
        (\<exists>q r. q \<in> Q \<and> r \<in># rrows s \<and> rf_id r = rf_id q \<and> rf_revokedAt r = None \<and> rf_rotationFamilyId q = fam)"
      unfolding minting_def by blast
    have "fam \<noteq> family" using fam live_family [OF l d] d unfolding dead_def by auto
    moreover have "dead family (token_rows t)" "linked (token_rows t) Q"
      using t(1) d l updated_dead updated_linked unfolding quiet_def by blast+
    ultimately show ?thesis using minted_dead [OF t(2)] by blast
  qed (use d in simp)
  then show ?thesis by (simp add: c)
qed

lemma run_linked_dead:
  assumes "(oauth_step sv rrows)\<^sup>*\<^sup>* c c'" "linked (token_rows (fst c)) (snd c)" "dead family (token_rows (fst c))"
  shows "linked (token_rows (fst c')) (snd c') \<and> dead family (token_rows (fst c'))"
  using assms by (induction rule: rtranclp_induct) (auto intro: step_linked step_dead)

lemma replay_kills:
  assumes tx: "replay_tx sv family now s = Inr s'" and fam: "family \<in> rf_rotationFamilyId ` set_mset (rrows s)"
  shows "dead family (token_rows s')"
proof -
  let ?g = "\<lambda>r. r\<lparr>rf_replayDetectedAt := Some now, rf_revokedAt := Some now\<rparr>"
  obtain n s1 where 1: "updateMany (os_refresh sv) (\<lambda>r. rf_rotationFamilyId r = family) ?g s = Inr (n, s1)"
    using tx by (auto simp: replay_tx_def split: sum.splits)
  then obtain ms where 2: "findMany (os_refresh sv) (\<lambda>r. rf_rotationFamilyId r = family) s1 = Inr ms"
    using tx by (auto simp: replay_tx_def split: sum.splits)
  then obtain m where 3: "updateMany (os_access sv) (\<lambda>a. Some (at_id a) \<in> set (map rf_accessTokenId ms) \<and> at_revokedAt a = None)
      (\<lambda>a. a\<lparr>at_revokedAt := Some now\<rparr>) s1 = Inr (m, s')"
    using tx 1 by (auto simp: replay_tx_def map_res_Inr)
  have rr: "rrows s1 = rrows s'" using leaves_update [OF access_frame 3] by simp
  show ?thesis unfolding dead_def fst_conv snd_conv
  proof (intro conjI allI impI)
    show "family \<in> rf_rotationFamilyId ` set_mset (rrows s')" 
    proof -
      obtain r where "r \<in># rrows s" "rf_rotationFamilyId r = family" using fam by auto
      then have "?g r \<in># rrows s'" unfolding rr [symmetric] by (rule refresh.updated_hit [OF 1])
      then show ?thesis by (rule rev_image_eqI) (simp add: \<open>rf_rotationFamilyId r = family\<close>)
    qed
    fix r assume r: "r \<in># rrows s'" "rf_rotationFamilyId r = family"
    from refresh.updated_row [OF 1 r(1) [folded rr]] r(2) obtain r0 where "r = ?g r0" by blast
    then show "rf_revokedAt r \<noteq> None" by simp
    fix a assume a: "a \<in># arows s'" "rf_accessTokenId r = Some (at_id a)"
    have "r \<in> set ms" using refresh.many_iff [OF 2] r rr by simp
    then have "Some (at_id a) \<in> set (map rf_accessTokenId ms)" using a(2) by force
    with access.updated_row [OF 3 a(1)] consider "at_revokedAt a \<noteq> None" | a0 where "a = a0\<lparr>at_revokedAt := Some now\<rparr>" by metis
    then show "at_revokedAt a \<noteq> None" by cases simp_all
  qed
qed

end

sublocale oauth_store \<subseteq> led: sealed_ledger "\<lambda>c. crows (fst c)" ac_id ac_usedAt "oauth_step sv rrows"
  by unfold_locales (rule step_codes)

context oauth_store
begin

lemmas code_ledger = led.sealed_ledger_axioms

lemma code_tx_seals:
  assumes uniq: "inj_on ac_id (set_mset (crows s))" and tx: "code_tx sv row client scope rd now s = (Inr pair, s')"
  shows "sealed_key ac_id ac_usedAt (crows s') (ac_id row)"
proof -
  let ?p = "\<lambda>r. ac_id r = ac_id row \<and> ac_usedAt r = None \<and> now < ac_expiresAt r"
  obtain s1 where u: "updateMany (os_codes sv) ?p (\<lambda>r. r\<lparr>ac_usedAt := Some now\<rparr>) s = Inr (1, s1)"
    and same: "crows s' = crows s1"
    using tx mint_pair_effect by (auto simp: code_tx_def split: sum.splits if_splits)
  obtain r where r: "r \<in># crows s" "?p r" using codes.updated_positive [OF u] by auto
  have "sealed_key ac_id ac_usedAt (crows s1) (ac_id r)"
    by (rule sealed_key_update [OF codes.prisma_table_axioms u]) (use uniq r in simp_all)
  then show ?thesis using r same by simp
qed

lemma sealed_code_refused:
  assumes "sealed_key ac_id ac_usedAt (crows s) i" "code_tx sv row client scope rd now s = (Inr pair, s')"
  shows "ac_id row \<noteq> i"
proof -
  obtain s1 where u: "updateMany (os_codes sv) (\<lambda>r. ac_id r = ac_id row \<and> ac_usedAt r = None \<and> now < ac_expiresAt r)
      (\<lambda>r. r\<lparr>ac_usedAt := Some now\<rparr>) s = Inr (1, s1)"
    using assms(2) by (auto simp: code_tx_def split: sum.splits if_splits)
  show ?thesis using codes.updated_positive [OF u] assms(1) by (auto simp: sealed_key_def)
qed

lemma rotated_live:
  assumes "rotate_tx sv row client scope rd now s = (Inr pair, s')"
  shows "\<exists>r. r \<in># rrows s \<and> rf_id r = rf_id row \<and> rf_revokedAt r = None \<and> rf_consumedAt r = None"
proof -
  obtain s1 where u: "updateMany (os_refresh sv) (\<lambda>r. rf_id r = rf_id row \<and> rf_consumedAt r = None \<and> rf_revokedAt r = None \<and>
      now < rf_expiresAt r) (\<lambda>r. r\<lparr>rf_consumedAt := Some now\<rparr>) s = Inr (1, s1)"
    using assms by (auto simp: rotate_tx_def split: sum.splits if_splits)
  show ?thesis using refresh.updated_positive [OF u] by auto
qed

lemma refresh_checks_row: "refresh_checks sv inp s = Inr (row, client, scope) \<Longrightarrow>
    row \<in># rrows s \<and> rf_tokenHash row = os_sha256 sv (ri_refreshToken inp)"
  by (auto simp: refresh_checks_def dest: refresh.first_some split: sum.splits option.splits if_splits)

lemma code_checks_row: "code_checks sv inp now s = Inr (row, client, scope) \<Longrightarrow> row \<in># crows s \<and>
    ac_codeHash row = os_sha256 sv (xi_code inp) \<and> ac_usedAt row = None \<and> now \<le> ac_expiresAt row \<and>
    owner sv (ac_clientId row) s = Inr client \<and> oc_clientId client = xi_clientId inp \<and> ac_redirectUri row = xi_redirectUri inp \<and>
    os_s256 sv (xi_codeVerifier inp) = ac_codeChallenge row \<and> full_scope (ac_scope row) = Some scope \<and>
    (xi_expectedScope inp = None \<or> xi_expectedScope inp = Some scope)"
  by (auto simp: code_checks_def dest: codes.first_some split: sum.splits option.splits if_splits)

lemma verified_unrevoked:
  assumes "verifyAccessTokenHash sv h now s = Inr (Some v)"
  shows "\<exists>a. a \<in># arows s \<and> at_tokenHash a = h \<and> at_revokedAt a = None"
proof -
  obtain a where f: "findFirst (os_access sv) (\<lambda>r. at_tokenHash r = h) s = Inr (Some a)"
    using assms by (auto simp: verifyAccessTokenHash_def split: sum.splits option.splits)
  moreover have "at_revokedAt a = None"
    using assms f by (auto simp: verifyAccessTokenHash_def split: sum.splits option.splits if_splits)
  ultimately show ?thesis using access.first_some [OF f] by blast
qed

end

section \<open>The service over table doubles\<close>

record oauth_db =
  od_clients :: "client_row list"
  od_codes :: "code_row list"
  od_access :: "access_row list"
  od_refresh :: "refresh_row list"
  od_consents :: "consent_row list"

definition double_oauth :: "oauth_db oauth_service" where
  "double_oauth = \<lparr>os_clients = focus od_clients (\<lambda>x. od_clients_update (\<lambda>_. x)) (double_table oc_id),
     os_codes = focus od_codes (\<lambda>x. od_codes_update (\<lambda>_. x)) (double_table ac_id),
     os_access = focus od_access (\<lambda>x. od_access_update (\<lambda>_. x)) (double_table at_id),
     os_refresh = focus od_refresh (\<lambda>x. od_refresh_update (\<lambda>_. x)) (double_table rf_id),
     os_consents = focus od_consents (\<lambda>x. od_consents_update (\<lambda>_. x)) (double_table ct_id),
     os_environment = (\<lambda>scope s. Inr (if sc_environmentId scope = ''env'' then Some scope else None)),
     os_member = (\<lambda>org user s. Inr (if org = ''org'' then (case user of None \<Rightarrow> Some ''u'' | Some u \<Rightarrow> Some u) else None)),
     os_entityOrganization = (\<lambda>e s. Inr None), os_session = (\<lambda>k i e env s. Inr None),
     os_sha256 = (\<lambda>x. x), os_s256 = (\<lambda>x. x), os_hmac = (\<lambda>k x. k @ x), os_sessionSecret = Some ''k'',
     os_parseUrl = (\<lambda>u. Some \<lparr>ru_protocol = ''https:'', ru_hostname = ''app.example'', ru_hash = []\<rparr>)\<rparr>"

text \<open>The service inside a larger database state.\<close>

definition focus_oauth :: "('t \<Rightarrow> 's) \<Rightarrow> ('s \<Rightarrow> 't \<Rightarrow> 't) \<Rightarrow> 's oauth_service \<Rightarrow> 't oauth_service" where
  "focus_oauth get put sv = \<lparr>os_clients = focus get put (os_clients sv), os_codes = focus get put (os_codes sv),
     os_access = focus get put (os_access sv), os_refresh = focus get put (os_refresh sv),
     os_consents = focus get put (os_consents sv), os_environment = (\<lambda>scope t. os_environment sv scope (get t)),
     os_member = (\<lambda>org user t. os_member sv org user (get t)), os_entityOrganization = (\<lambda>e t. os_entityOrganization sv e (get t)),
     os_session = (\<lambda>k i e env t. os_session sv k i e env (get t)), os_sha256 = os_sha256 sv, os_s256 = os_s256 sv,
     os_hmac = os_hmac sv, os_sessionSecret = os_sessionSecret sv, os_parseUrl = os_parseUrl sv\<rparr>"

lemma double_oauth_sel:
  "os_clients double_oauth = focus od_clients (\<lambda>x. od_clients_update (\<lambda>_. x)) (double_table oc_id)"
  "os_codes double_oauth = focus od_codes (\<lambda>x. od_codes_update (\<lambda>_. x)) (double_table ac_id)"
  "os_access double_oauth = focus od_access (\<lambda>x. od_access_update (\<lambda>_. x)) (double_table at_id)"
  "os_refresh double_oauth = focus od_refresh (\<lambda>x. od_refresh_update (\<lambda>_. x)) (double_table rf_id)"
  "os_consents double_oauth = focus od_consents (\<lambda>x. od_consents_update (\<lambda>_. x)) (double_table ct_id)"
  by (simp_all add: double_oauth_def)

interpretation oas: oauth_store double_oauth "\<lambda>s. mset (od_codes s)" "\<lambda>s. mset (od_access s)" "\<lambda>s. mset (od_refresh s)"
proof (rule oauth_store.intro)
  show "prisma_table (os_codes double_oauth) (\<lambda>s. mset (od_codes s)) ac_id"
    "prisma_table (os_access double_oauth) (\<lambda>s. mset (od_access s)) at_id"
    "prisma_table (os_refresh double_oauth) (\<lambda>s. mset (od_refresh s)) rf_id"
    unfolding double_oauth_sel by (rule focus_double, simp)+
  show "oauth_store_axioms double_oauth (\<lambda>s. mset (od_codes s)) (\<lambda>s. mset (od_access s)) (\<lambda>s. mset (od_refresh s))"
    unfolding double_oauth_sel oauth_store_axioms_def by (intro conjI focus_leaves) simp_all
qed

definition w_oauth_db :: oauth_db where
  "w_oauth_db = \<lparr>od_clients = [\<lparr>oc_id = ''c1'', oc_organizationId = ''org'', oc_clientId = ''plt_oac_1'', oc_clientSecretHash = None,
     oc_clientName = ''app'', oc_redirectUris = [''https://app.example/cb''], oc_tokenEndpointAuthMethod = ''none'',
     oc_grantTypes = [''authorization_code''], oc_scopes = PLATFORM_MCP_SCOPES, oc_registeredByUserId = ''u'', oc_entityId = None,
     oc_createdAt = 0, oc_deletedAt = None\<rparr>], od_codes = [], od_access = [], od_refresh = [], od_consents = []\<rparr>"

definition w_code_input :: code_input where
  "w_code_input = \<lparr>cd_clientId = ''plt_oac_1'', cd_userId = ''u'', cd_scopeTuple = w_tenant, cd_codeChallenge = ''v'',
     cd_codeChallengeMethod = ''S256'', cd_redirectUri = ''https://app.example/cb'', cd_scopes = [''mcp:read''], cd_entityPk = None,
     cd_mcpIdentity = None\<rparr>"

definition w_issued :: oauth_db where
  "w_issued = snd (issueAuthCode double_oauth w_code_input ''k1'' ''x'' 0 w_oauth_db)"

definition w_exchange :: exchange_input where
  "w_exchange = \<lparr>xi_clientId = ''plt_oac_1'', xi_code = ''plt_ocd_x'', xi_codeVerifier = ''v'',
     xi_redirectUri = ''https://app.example/cb'', xi_expectedScope = None\<rparr>"

definition w_rand :: "string \<Rightarrow> pair_rand" where
  "w_rand i = \<lparr>pr_accessId = ''a'' @ i, pr_refreshId = ''r'' @ i, pr_access = i, pr_refresh = i, pr_family = ''f'' @ i\<rparr>"

definition w_exchanged :: oauth_db where
  "w_exchanged = snd (exchangeAuthCode double_oauth w_exchange (w_rand ''1'') 10 11 w_issued)"

definition w_refresh :: refresh_input where
  "w_refresh = \<lparr>ri_clientId = ''plt_oac_1'', ri_refreshToken = ''plt_or_1'', ri_expectedScope = None\<rparr>"

definition w_rotated :: oauth_db where
  "w_rotated = snd (exchangeRefreshToken double_oauth w_refresh (w_rand ''2'') 20 21 w_exchanged)"

definition w_replayed :: oauth_db where
  "w_replayed = snd (exchangeRefreshToken double_oauth w_refresh (w_rand ''3'') 30 31 w_rotated)"

section \<open>Properties\<close>

text \<open>
  C7: An authorization code buys one token pair. Once an exchange succeeded, in every
  interleaving of the service's transactions no exchange of that code succeeds again, neither a
  new request nor one in flight that had checked the code before it was used.
\<close>

theorem auth_code_single_use:
  assumes "oauth_store sv crows arows rrows" "inj_on ac_id (set_mset (crows s))"
    and "code_checks sv inp n1 s = Inr (row, client, scope)" "exchangeAuthCode sv inp rd n1 n2 s = (Inr pair, s1)"
    and "(oauth_step sv rrows)\<^sup>*\<^sup>* (s1, Q) (s2, Q')"
    and "code_tx sv read client' scope' rd' n4 s2 = (Inr pair', s3) \<or>
      code_checks sv inp' n3 s2 = Inr (read, client', scope') \<and> exchangeAuthCode sv inp' rd' n3 n4 s2 = (Inr pair', s3)"
  shows "ac_id read \<noteq> ac_id row"
proof -
  have "code_tx sv row client scope rd n2 s = (Inr pair, s1)" using assms(3,4) by (simp add: exchangeAuthCode_def)
  from oauth_store.code_tx_seals [OF assms(1,2) this]
  have "sealed_key ac_id ac_usedAt (crows (fst (s2, Q'))) (ac_id row)"
    using sealed_ledger.sealed_run [OF oauth_store.code_ledger [OF assms(1)] assms(5)] by simp
  moreover have "code_tx sv read client' scope' rd' n4 s2 = (Inr pair', s3)" using assms(6) by (auto simp: exchangeAuthCode_def)
  ultimately show ?thesis using oauth_store.sealed_code_refused [OF assms(1)] by simp
qed

theorem auth_code_single_use_witness:
  "\<nexists>pair' s3. code_tx double_oauth (hd (od_codes w_issued)) (hd (od_clients w_issued)) w_tenant (w_rand ''5'') 12 w_exchanged = (Inr pair', s3)"
proof -
  have c: "code_checks double_oauth w_exchange 10 w_issued = Inr (hd (od_codes w_issued), hd (od_clients w_issued), w_tenant)"
    by code_simp
  have "case fst (exchangeAuthCode double_oauth w_exchange (w_rand ''1'') 10 11 w_issued) of Inl _ \<Rightarrow> False | Inr _ \<Rightarrow> True"
    by code_simp
  then obtain pair where ex: "exchangeAuthCode double_oauth w_exchange (w_rand ''1'') 10 11 w_issued = (Inr pair, w_exchanged)"
    by (auto simp: w_exchanged_def prod_eq_iff split: sum.splits)
  have "inj_on ac_id (set_mset (mset (od_codes w_issued)))" by code_simp
  from auth_code_single_use [OF oas.oauth_store_axioms this c ex rtranclp.rtrancl_refl] show ?thesis by blast
qed





section \<open>A lost race\<close>

text \<open>
  When two requests present the same live refresh token at once, the second one is told that a
  replay was detected, but its transaction changes nothing: the family is not revoked.
\<close>

lemma lost_race_keeps_family:
  assumes "prisma_table (os_refresh sv) rrows rf_id" "updateMany (os_refresh sv) p f s = Inr (0, s')"
    and "p = (\<lambda>r. rf_id r = rf_id row \<and> rf_consumedAt r = None \<and> rf_revokedAt r = None \<and> now < rf_expiresAt r)"
    and "f = (\<lambda>r. r\<lparr>rf_consumedAt := Some now\<rparr>)"
  shows "rotate_tx sv row client scope rd now s = (Inl (invalid_grant ''refresh_token replay detected''), s') \<and> rrows s' = rrows s"
  using prisma_table.updated_zero [OF assms(1,2)] assms(2) unfolding assms(3,4) by (simp add: rotate_tx_def)

end
