(* ===== verification/McpController.thy ===== *)
theory McpController
  imports McpRouter OAuth
begin

text \<open>
  \<open>apps/agent/src/mcp-platform/mcp-platform.controller.ts\<close>: the three transports of the
  platform MCP surface (a JSON-RPC POST, an SSE session and its messages, a stdio session). Each
  verifies the caller's credential again on every request, a platform token through theory
  \<open>McpTokens\<close> or an OAuth access token through theory \<open>OAuth\<close>, and hands the request to the
  router of theory \<open>McpRouter\<close>. Redis, the JSON parser and the environment variables are
  parameters of the controller; the clock readings of a request are arguments. The heartbeat and
  the event stream of the SSE transport are not part of it.
\<close>

section \<open>Credentials\<close>

record 's controller =
  mc_tokens :: "'s token_service"
  mc_oauth :: "'s oauth_service"
  mc_router :: "'s router"
  mc_get :: "string \<Rightarrow> 's \<Rightarrow> unit + string option"
  mc_set :: "string \<Rightarrow> string \<Rightarrow> nat \<Rightarrow> 's \<Rightarrow> (unit + unit) \<times> 's"
  mc_del :: "string \<Rightarrow> 's \<Rightarrow> 's"
  mc_subscribe :: "string \<Rightarrow> 's \<Rightarrow> (unit + unit) \<times> 's"
  mc_publish :: "string \<Rightarrow> string \<Rightarrow> 's \<Rightarrow> (string option + unit) \<times> 's"
  mc_parse :: "string \<Rightarrow> jsval option"
  mc_appOrigin :: "string option"
  mc_webappOrigin :: "string option"

datatype credential_fault = TokenFault db_error | OAuthFault oauth_error

definition extractBearer :: "string option \<Rightarrow> string option" where
  "extractBearer authorization = (case authorization of
       None \<Rightarrow> None
     | Some header \<Rightarrow> if header = [] \<or> \<not> starts_with ''bearer '' (to_lower header) then None
         else Some (trim (drop 7 header)))"

definition READ_PERMISSIONS :: "string list" where
  "READ_PERMISSIONS = [''*.list'', ''*.get'', ''platos_whoami'', ''platos_list_accessible_scopes'']"

text \<open>An OAuth token in the shape of a platform token.\<close>

definition platform_view :: "verified_oauth \<Rightarrow> credential \<Rightarrow> verified_token" where
  "platform_view oa cred = \<lparr>vt_id = take 16 (vo_tokenHash oa), vt_scope = vo_scope oa,
     vt_permissions = (if ''mcp:write'' \<in> set (vo_scopes oa) then [''*''] else READ_PERMISSIONS),
     vt_mintedByUserId = vo_userId oa, vt_expiresAt = Some (vo_expiresAt oa), vt_tier = ScopeTier, vt_credential = Some cred\<rparr>"

text \<open>What both verifications do with the outcome of the OAuth service.\<close>

definition admit_oauth :: "oauth_error + verified_oauth option \<Rightarrow> (verified_oauth \<Rightarrow> credential)
    \<Rightarrow> credential_fault + verified_token option" where
  "admit_oauth r cred = (case r of
       Inl e \<Rightarrow> Inl (OAuthFault e)
     | Inr None \<Rightarrow> Inr None
     | Inr (Some oa) \<Rightarrow> Inr (if given (vo_entityPk oa) then None else Some (platform_view oa (cred oa))))"

definition lift_token :: "(db_error + verified_token option) \<times> 's \<Rightarrow> (credential_fault + verified_token option) \<times> 's" where
  "lift_token r = (case r of (Inl e, s) \<Rightarrow> (Inl (TokenFault e), s) | (Inr t, s) \<Rightarrow> (Inr t, s))"

definition verifyAnyBearer ::
    "'s controller \<Rightarrow> string \<Rightarrow> int \<Rightarrow> int \<Rightarrow> 's \<Rightarrow> (credential_fault + verified_token option) \<times> 's" where
  "verifyAnyBearer c raw now now' s =
     (if starts_with ''plt_oa_'' raw
      then (admit_oauth (verifyAccessToken (mc_oauth c) raw now s) (\<lambda>oa. credential.OAuth (vo_tokenHash oa)), s)
      else lift_token (verify (mc_tokens c) raw now now' s))"

definition verifySseCredential ::
    "'s controller \<Rightarrow> credential option \<Rightarrow> int \<Rightarrow> int \<Rightarrow> 's \<Rightarrow> (credential_fault + verified_token option) \<times> 's" where
  "verifySseCredential c cred now now' s = (case cred of
       None \<Rightarrow> (Inr None, s)
     | Some (Platform i) \<Rightarrow> lift_token (verifyById (mc_tokens c) i now now' s)
     | Some (credential.OAuth h) \<Rightarrow>
         (admit_oauth (verifyAccessTokenHash (mc_oauth c) h now s) (\<lambda>_. credential.OAuth h), s))"

definition parseSseCredential :: "jsval \<Rightarrow> credential option" where
  "parseSseCredential v = (case v of
       JObj fs \<Rightarrow>
         if js_get fs ''kind'' = JStr ''platform'' \<and> is_str (js_get fs ''tokenId'')
         then Some (Platform (str_of (js_get fs ''tokenId'')))
         else if js_get fs ''kind'' = JStr ''oauth'' \<and> is_str (js_get fs ''tokenHash'')
         then Some (credential.OAuth (str_of (js_get fs ''tokenHash'')))
         else None
     | _ \<Rightarrow> None)"

section \<open>The JSON-RPC endpoint\<close>

datatype endpoint_reply = Rpc rpc_response | Status nat string | Crashed credential_fault

definition origin :: "'s controller \<Rightarrow> string option" where
  "origin c = (case mc_appOrigin c of Some x \<Rightarrow> Some x | None \<Rightarrow> mc_webappOrigin c)"

definition is_request :: "jsval \<Rightarrow> bool" where
  "is_request body = (js_truthy body \<and> js_prop body ''jsonrpc'' = JStr ''2.0'' \<and> is_str (js_prop body ''method''))"

definition request_of :: "jsval \<Rightarrow> rpc_request" where
  "request_of body = \<lparr>rq_id = js_prop body ''id'', rq_method = str_of (js_prop body ''method''), rq_params = js_prop body ''params''\<rparr>"

definition jsonRpc ::
    "'s controller \<Rightarrow> string option \<Rightarrow> string option \<Rightarrow> jsval \<Rightarrow> int \<Rightarrow> int \<Rightarrow> 's \<Rightarrow> endpoint_reply \<times> 's" where
  "jsonRpc c authorization approvalIdHeader body now now' s =
     (if \<not> given (extractBearer authorization) then (Status 401 ''Authorization: Bearer <PLATOS_MCP_TOKEN> required'', s)
      else (case verifyAnyBearer c (the (extractBearer authorization)) now now' s of
         (Inl e, s') \<Rightarrow> (Crashed e, s')
       | (Inr None, s') \<Rightarrow> (Status 401 ''invalid or expired MCP token'', s')
       | (Inr (Some token), s') \<Rightarrow>
           if \<not> is_request body then (Status 400 ''body must be a JSON-RPC 2.0 request with `method`'', s')
           else map_prod Rpc id (handle (mc_router c) (request_of body) token
             \<lparr>cx_approvalId = approvalIdHeader, cx_dashboardOrigin = origin c\<rparr> s')))"

section \<open>The stdio session\<close>

definition createStdioSession :: "'s controller \<Rightarrow> string \<Rightarrow> int \<Rightarrow> int \<Rightarrow> 's \<Rightarrow> (credential_fault + bool) \<times> 's" where
  "createStdioSession c rawBearer now now' s = (case verifyAnyBearer c rawBearer now now' s of
       (Inl e, s') \<Rightarrow> (Inl e, s') | (Inr t, s') \<Rightarrow> (Inr (t \<noteq> None), s'))"

definition meta_approval :: "jsval \<Rightarrow> string option" where
  "meta_approval params = (case js_prop params ''_meta'' of
       JObj fs \<Rightarrow> (case js_get fs ''platosApprovalId'' of JStr a \<Rightarrow> Some a | _ \<Rightarrow> None)
     | _ \<Rightarrow> None)"

text \<open>\<open>Object.entries\<close>.\<close>

fun js_entries :: "jsval \<Rightarrow> (string \<times> jsval) list" where
  "js_entries (JObj fs) = fs"
| "js_entries (JArr xs) = map (\<lambda>(i, x). (show_nat i, x)) (enumerate 0 xs)"
| "js_entries (JStr cs) = map (\<lambda>(i, x). (show_nat i, JStr [x])) (enumerate 0 cs)"
| "js_entries _ = []"

definition without_meta :: "jsval \<Rightarrow> jsval" where
  "without_meta params = (if js_truthy params then JObj (filter (\<lambda>(k, _). k \<noteq> ''_meta'') (js_entries params)) else params)"

definition stdio_handle ::
    "'s controller \<Rightarrow> string \<Rightarrow> rpc_request \<Rightarrow> int \<Rightarrow> int \<Rightarrow> 's \<Rightarrow> (credential_fault + rpc_response) \<times> 's" where
  "stdio_handle c rawBearer req now now' s = (case verifyAnyBearer c rawBearer now now' s of
       (Inl e, s') \<Rightarrow> (Inl e, s')
     | (Inr None, s') \<Rightarrow> (Inr (refuse (or_null (rq_id req)) (-32001) ''invalid or expired Platform MCP token'' None), s')
     | (Inr (Some token), s') \<Rightarrow> map_prod Inr id (handle (mc_router c) (req\<lparr>rq_params := without_meta (rq_params req)\<rparr>) token
           \<lparr>cx_approvalId = meta_approval (rq_params req), cx_dashboardOrigin = origin c\<rparr> s'))"

section \<open>The SSE session\<close>

definition sessionKey :: "string \<Rightarrow> string" where
  "sessionKey sessionId = ''platos:mcp:platform:session:'' @ sessionId"

definition sseChannel :: "string \<Rightarrow> string" where
  "sseChannel sessionId = ''platos:mcp:platform:sse:'' @ sessionId"

fun credential_json :: "credential \<Rightarrow> jsval" where
  "credential_json (Platform i) = JObj [(''kind'', JStr ''platform''), (''tokenId'', JStr i)]"
| "credential_json (credential.OAuth h) = JObj [(''kind'', JStr ''oauth''), (''tokenHash'', JStr h)]"

definition to_json :: "'s controller \<Rightarrow> jsval \<Rightarrow> string" where
  "to_json c v = (case stringify (rt_showNumber (mc_router c)) v of None \<Rightarrow> ''undefined'' | Some t \<Rightarrow> t)"

datatype sse_reply = Refused nat string | ErrorFrame string | Endpoint string | SseCrashed credential_fault

definition sse :: "'s controller \<Rightarrow> string option \<Rightarrow> string \<Rightarrow> int \<Rightarrow> int \<Rightarrow> 's \<Rightarrow> sse_reply \<times> 's" where
  "sse c authorization sessionId now now' s =
     (if \<not> given (extractBearer authorization) then (Refused 401 ''Authorization: Bearer <PLATOS_MCP_TOKEN> required'', s)
      else (case verifyAnyBearer c (the (extractBearer authorization)) now now' s of
         (Inl e, s') \<Rightarrow> (SseCrashed e, s')
       | (Inr None, s') \<Rightarrow> (Refused 401 ''invalid or expired MCP token'', s')
       | (Inr (Some token), s') \<Rightarrow> (case vt_credential token of
            None \<Rightarrow> (ErrorFrame ''session credential unavailable'', s')
          | Some cred \<Rightarrow> (case mc_set c (sessionKey sessionId) (to_json c (JObj [(''credential'', credential_json cred)])) 3600 s' of
               (Inl _, s1) \<Rightarrow> (ErrorFrame ''session store unavailable'', s1)
             | (Inr _, s1) \<Rightarrow> (case mc_subscribe c (sseChannel sessionId) s1 of
                  (Inl _, s2) \<Rightarrow> (ErrorFrame ''session transport unavailable'', mc_del c (sessionKey sessionId) s2)
                | (Inr _, s2) \<Rightarrow> (Endpoint (''/mcp/platform/messages?sessionId='' @ sessionId), s2))))))"

definition response_json :: "rpc_response \<Rightarrow> jsval" where
  "response_json r = JObj ([(''jsonrpc'', JStr ''2.0''), (''id'', rr_id r)]
     @ (case rr_result r of None \<Rightarrow> [] | Some v \<Rightarrow> [(''result'', v)])
     @ (case rr_error r of None \<Rightarrow> [] | Some e \<Rightarrow> [(''error'', JObj ([(''code'', JNum (Fin (of_int (re_code e)))),
          (''message'', JStr (re_message e))] @ (case re_data e of None \<Rightarrow> [] | Some d \<Rightarrow> [(''data'', d)])))]))"

text \<open>The response goes out on the session's channel; if that fails, an error response does.\<close>

definition deliver :: "'s controller \<Rightarrow> string \<Rightarrow> jsval \<Rightarrow> rpc_response \<Rightarrow> 's \<Rightarrow> 's" where
  "deliver c sessionId i response s = (case mc_publish c (sseChannel sessionId) (to_json c (response_json response)) s of
       (Inr _, s') \<Rightarrow> s'
     | (Inl msg, s') \<Rightarrow> snd (mc_publish c (sseChannel sessionId) (to_json c (response_json
          (refuse i (-32603) (case msg of Some m \<Rightarrow> m | None \<Rightarrow> ''internal error'') None))) s'))"

definition messages ::
    "'s controller \<Rightarrow> string option \<Rightarrow> string option \<Rightarrow> jsval \<Rightarrow> int \<Rightarrow> int \<Rightarrow> 's \<Rightarrow> endpoint_reply \<times> 's" where
  "messages c session approvalIdHeader body now now' s =
     (if \<not> given session then (Status 400 ''missing sessionId query param'', s)
      else (let sessionId = the session in
        case mc_get c (sessionKey sessionId) s of
          Inl _ \<Rightarrow> (Status 404 ''unknown or expired sessionId'', s)
        | Inr raw \<Rightarrow>
            if \<not> given raw then (Status 404 ''unknown or expired sessionId'', s)
            else (case mc_parse c (the raw) of
               None \<Rightarrow> (Status 500 ''corrupt session record'', s)
             | Some v \<Rightarrow>
                 if v = JNull then (Status 500 ''corrupt session record'', s)
                 else (case parseSseCredential (js_prop v ''credential'') of
                    None \<Rightarrow> (Status 500 ''corrupt session record'', mc_del c (sessionKey sessionId) s)
                  | Some cred \<Rightarrow> (case verifySseCredential c (Some cred) now now' s of
                       (Inl e, s') \<Rightarrow> (Crashed e, s')
                     | (Inr None, s') \<Rightarrow> (Status 401 ''session token revoked or expired'', mc_del c (sessionKey sessionId) s')
                     | (Inr (Some token), s') \<Rightarrow>
                         if \<not> is_request body then (Status 400 ''body must be a JSON-RPC 2.0 request with `method`'', s')
                         else (case handle (mc_router c) (request_of body) token
                                 \<lparr>cx_approvalId = approvalIdHeader, cx_dashboardOrigin = origin c\<rparr> s' of
                            (response, s1) \<Rightarrow> (Status 202 [], deliver c sessionId (or_null (js_prop body ''id'')) response s1)))))))"

section \<open>What a verified caller is\<close>

text \<open>The controller with other tool bodies, as \<open>rewire\<close> for its router.\<close>

definition with_tools :: "'s controller \<Rightarrow> (string \<Rightarrow> 's handler_body) \<Rightarrow> 's controller" where
  "with_tools c f = c\<lparr>mc_router := rewire f (mc_router c)\<rparr>"

lemma with_tools_sel [simp]:
  "mc_tokens (with_tools c f) = mc_tokens c" "mc_oauth (with_tools c f) = mc_oauth c"
  "mc_router (with_tools c f) = rewire f (mc_router c)" "mc_get (with_tools c f) = mc_get c"
  "mc_del (with_tools c f) = mc_del c" "mc_parse (with_tools c f) = mc_parse c" "mc_publish (with_tools c f) = mc_publish c"
  "mc_appOrigin (with_tools c f) = mc_appOrigin c" "mc_webappOrigin (with_tools c f) = mc_webappOrigin c"
  by (simp_all add: with_tools_def)

lemma with_tools_origin [simp]: "origin (with_tools c f) = origin c" "to_json (with_tools c f) = to_json c"
  unfolding origin_def to_json_def fun_eq_iff with_tools_sel rewire_sel by simp_all

lemma with_tools_verify [simp]:
  "verifyAnyBearer (with_tools c f) = verifyAnyBearer c" "verifySseCredential (with_tools c f) = verifySseCredential c"
  "deliver (with_tools c f) = deliver c"
  unfolding fun_eq_iff verifyAnyBearer_def verifySseCredential_def deliver_def with_tools_sel with_tools_origin by simp_all

text \<open>
  A request over one of the three transports, what the controller makes of it, and the caller it
  verifies. The caller of a message is the one its SSE session was opened by.
\<close>

datatype transport =
    Post "string option" "string option" jsval
  | Stdio string rpc_request
  | Message "string option" "string option" jsval

datatype served = Replied endpoint_reply | Answered "credential_fault + rpc_response"

fun serve_mcp :: "'s controller \<Rightarrow> transport \<Rightarrow> int \<Rightarrow> int \<Rightarrow> 's \<Rightarrow> served \<times> 's" where
  "serve_mcp c (Post auth hdr body) now now' s = map_prod Replied id (jsonRpc c auth hdr body now now' s)"
| "serve_mcp c (Stdio raw req) now now' s = map_prod Answered id (stdio_handle c raw req now now' s)"
| "serve_mcp c (Message session hdr body) now now' s = map_prod Replied id (messages c session hdr body now now' s)"

definition session_credential :: "'s controller \<Rightarrow> string \<Rightarrow> 's \<Rightarrow> credential option" where
  "session_credential c sessionId s = (case mc_get c (sessionKey sessionId) s of
       Inr (Some raw) \<Rightarrow> (case mc_parse c raw of Some v \<Rightarrow> parseSseCredential (js_prop v ''credential'') | None \<Rightarrow> None)
     | _ \<Rightarrow> None)"

fun caller :: "'s controller \<Rightarrow> transport \<Rightarrow> int \<Rightarrow> int \<Rightarrow> 's \<Rightarrow> (credential_fault + verified_token option) \<times> 's" where
  "caller c (Post auth hdr body) now now' s =
     (case extractBearer auth of None \<Rightarrow> (Inr None, s) | Some raw \<Rightarrow> verifyAnyBearer c raw now now' s)"
| "caller c (Stdio raw req) now now' s = verifyAnyBearer c raw now now' s"
| "caller c (Message session hdr body) now now' s = (case session of None \<Rightarrow> (Inr None, s)
     | Some sessionId \<Rightarrow> verifySseCredential c (session_credential c sessionId s) now now' s)"

lemma credential_roundtrip: "parseSseCredential (credential_json cred) = Some cred"
  by (cases cred) (simp_all add: parseSseCredential_def js_get_def is_str_def str_of_def)

lemma lift_token_Some: "lift_token r = (Inr (Some t), s) \<longleftrightarrow> r = (Inr (Some t), s)"
  by (auto simp: lift_token_def split: prod.splits sum.splits)

lemma admit_oauth_Some:
  "admit_oauth r cred = Inr (Some t) \<longleftrightarrow> (\<exists>oa. r = Inr (Some oa) \<and> \<not> given (vo_entityPk oa) \<and> t = platform_view oa (cred oa))"
  by (auto simp: admit_oauth_def split: sum.splits option.splits)

lemma verified_hash: "verifyAccessTokenHash sv h now s = Inr (Some oa) \<Longrightarrow> vo_tokenHash oa = h"
  by (auto simp: verifyAccessTokenHash_def Let_def split: sum.splits option.splits if_splits prod.splits)

definition admitted_as :: "'s controller \<Rightarrow> int \<Rightarrow> int \<Rightarrow> 's \<Rightarrow> verified_token \<Rightarrow> 's \<Rightarrow> bool" where
  "admitted_as c now now' s t s' \<longleftrightarrow>
    (\<exists>row anc. verify_write (mc_tokens c) row anc now' s = (Inr (Some t), s')) \<or>
    (\<exists>h oa. s' = s \<and> verifyAccessTokenHash (mc_oauth c) h now s = Inr (Some oa) \<and> \<not> given (vo_entityPk oa) \<and>
       t = platform_view oa (credential.OAuth h))"

lemma bearer_admitted:
  assumes v: "verifyAnyBearer c raw now now' s = (Inr (Some t), s')"
  shows "admitted_as c now now' s t s'"
proof (cases "starts_with ''plt_oa_'' raw")
  case True
  then obtain oa where "s' = s" "\<not> given (vo_entityPk oa)" "t = platform_view oa (credential.OAuth (vo_tokenHash oa))"
    and h: "verifyAccessTokenHash (mc_oauth c) (os_sha256 (mc_oauth c) raw) now s = Inr (Some oa)"
    using v by (auto simp: verifyAnyBearer_def admit_oauth_Some verifyAccessToken_def split: if_splits)
  then show ?thesis using verified_hash [OF h] unfolding admitted_as_def by metis
next
  case False
  then have "verify (mc_tokens c) raw now now' s = (Inr (Some t), s')"
    using v by (simp add: verifyAnyBearer_def lift_token_Some)
  from verify_through [OF this] show ?thesis unfolding admitted_as_def by blast
qed

lemma sse_admitted:
  assumes "verifySseCredential c cred now now' s = (Inr (Some t), s')"
  shows "admitted_as c now now' s t s'"
proof -
  from assms consider i where "verifyById (mc_tokens c) i now now' s = (Inr (Some t), s')"
    | h oa where "s' = s" "verifyAccessTokenHash (mc_oauth c) h now s = Inr (Some oa)" "\<not> given (vo_entityPk oa)"
        "t = platform_view oa (credential.OAuth h)"
    by (auto simp: verifySseCredential_def lift_token_Some admit_oauth_Some split: option.splits credential.splits)
  then show ?thesis
  proof cases
    case (1 i)
    from verifyById_through [OF this] show ?thesis unfolding admitted_as_def by blast
  qed (unfold admitted_as_def, metis)
qed

lemma caller_admitted:
  "caller c tr now now' s = (Inr (Some t), s') \<Longrightarrow> admitted_as c now now' s t s'"
  by (cases tr) (auto split: option.splits intro: bearer_admitted sse_admitted)

lemma jsonRpc_diff:
  assumes "jsonRpc (with_tools c f) auth hdr body now now' s \<noteq> jsonRpc (with_tools c g) auth hdr body now now' s"
  shows "\<exists>raw t s' ctx. extractBearer auth = Some raw \<and> verifyAnyBearer c raw now now' s = (Inr (Some t), s') \<and>
    handle (rewire f (mc_router c)) (request_of body) t ctx s' \<noteq> handle (rewire g (mc_router c)) (request_of body) t ctx s'"
proof -
  obtain r s' where v: "verifyAnyBearer c (the (extractBearer auth)) now now' s = (r, s')" by fastforce
  have g: "given (extractBearer auth)" by (rule ccontr, use assms in \<open>simp add: jsonRpc_def\<close>)
  obtain t where t: "r = Inr (Some t)"
    using assms g v by (cases r; cases "projr r") (auto simp: jsonRpc_def)
  have "handle (rewire f (mc_router c)) (request_of body) t \<lparr>cx_approvalId = hdr, cx_dashboardOrigin = origin c\<rparr> s' \<noteq>
      handle (rewire g (mc_router c)) (request_of body) t \<lparr>cx_approvalId = hdr, cx_dashboardOrigin = origin c\<rparr> s'"
    using assms g v t by (auto simp: jsonRpc_def split: if_splits)
  moreover have "extractBearer auth = Some (the (extractBearer auth))" using g by (auto simp: given_def)
  ultimately show ?thesis using v t by blast
qed

lemma stdio_diff:
  assumes "stdio_handle (with_tools c f) raw req now now' s \<noteq> stdio_handle (with_tools c g) raw req now now' s"
  shows "\<exists>t s' req' ctx. verifyAnyBearer c raw now now' s = (Inr (Some t), s') \<and>
    handle (rewire f (mc_router c)) req' t ctx s' \<noteq> handle (rewire g (mc_router c)) req' t ctx s'"
proof -
  obtain r s' where v: "verifyAnyBearer c raw now now' s = (r, s')" by fastforce
  obtain t where t: "r = Inr (Some t)"
    using assms v by (cases r; cases "projr r") (auto simp: stdio_handle_def)
  let ?req = "req\<lparr>rq_params := without_meta (rq_params req)\<rparr>"
    and ?ctx = "\<lparr>cx_approvalId = meta_approval (rq_params req), cx_dashboardOrigin = origin c\<rparr>"
  have "handle (rewire f (mc_router c)) ?req t ?ctx s' \<noteq> handle (rewire g (mc_router c)) ?req t ?ctx s'"
    using assms v t by (auto simp: stdio_handle_def)
  then show ?thesis using v t by blast
qed

lemma messages_diff:
  assumes "messages (with_tools c f) session hdr body now now' s \<noteq> messages (with_tools c g) session hdr body now now' s"
  shows "\<exists>sessionId t s' ctx. session = Some sessionId \<and>
    verifySseCredential c (session_credential c sessionId s) now now' s = (Inr (Some t), s') \<and>
    handle (rewire f (mc_router c)) (request_of body) t ctx s' \<noteq> handle (rewire g (mc_router c)) (request_of body) t ctx s'"
proof -
  let ?sid = "the session"
  have g: "given session" by (rule ccontr, use assms in \<open>simp add: messages_def\<close>)
  obtain raw where raw: "mc_get c (sessionKey ?sid) s = Inr raw" "given raw"
    using assms g by (cases "mc_get c (sessionKey ?sid) s") (auto simp: messages_def Let_def split: if_splits)
  obtain v where p: "mc_parse c (the raw) = Some v" "v \<noteq> JNull"
    using assms g raw by (cases "mc_parse c (the raw)") (auto simp: messages_def Let_def split: if_splits)
  obtain cred where cr: "parseSseCredential (js_prop v ''credential'') = Some cred"
    using assms g raw p by (cases "parseSseCredential (js_prop v ''credential'')") (auto simp: messages_def Let_def)
  obtain r s' where vf: "verifySseCredential c (Some cred) now now' s = (r, s')" by fastforce
  obtain t where t: "r = Inr (Some t)"
    using assms g raw p cr vf by (cases r; cases "projr r") (auto simp: messages_def Let_def)
  let ?ctx = "\<lparr>cx_approvalId = hdr, cx_dashboardOrigin = origin c\<rparr>"
  have "handle (rewire f (mc_router c)) (request_of body) t ?ctx s' \<noteq> handle (rewire g (mc_router c)) (request_of body) t ?ctx s'"
    using assms g raw p cr vf t by (auto simp: messages_def Let_def split: if_splits)
  moreover have "session_credential c ?sid s = Some cred"
    using raw p cr by (auto simp: session_credential_def given_def)
  moreover have "session = Some ?sid" using g by (auto simp: given_def)
  ultimately show ?thesis using vf t by metis
qed

lemma serve_mcp_diff:
  assumes "serve_mcp (with_tools c f) tr now now' s \<noteq> serve_mcp (with_tools c g) tr now now' s"
  shows "\<exists>t s' req ctx. caller c tr now now' s = (Inr (Some t), s') \<and>
    handle (rewire f (mc_router c)) req t ctx s' \<noteq> handle (rewire g (mc_router c)) req t ctx s'"
proof (cases tr)
  case (Post auth hdr body)
  then have "jsonRpc (with_tools c f) auth hdr body now now' s \<noteq> jsonRpc (with_tools c g) auth hdr body now now' s"
    using assms by auto
  from jsonRpc_diff [OF this] show ?thesis unfolding Post caller.simps by (elim exE conjE) (simp, blast)
next
  case (Stdio raw req)
  then have "stdio_handle (with_tools c f) raw req now now' s \<noteq> stdio_handle (with_tools c g) raw req now now' s"
    using assms by auto
  from stdio_diff [OF this] show ?thesis unfolding Stdio caller.simps by blast
next
  case (Message session hdr body)
  then have "messages (with_tools c f) session hdr body now now' s \<noteq> messages (with_tools c g) session hdr body now now' s"
    using assms by auto
  from messages_diff [OF this] show ?thesis unfolding Message caller.simps by (elim exE conjE) (simp, blast)
qed

text \<open>
  The permissions of a read-only OAuth token name two tools. The other two entries are not of
  a form that \<open>allows\<close> expands, so they match no list or get tool.
\<close>

lemma read_permissions: "allows READ_PERMISSIONS name \<longleftrightarrow> name \<in> set READ_PERMISSIONS"
proof -
  have "\<not> ends_with ''.*'' p" if "p \<in> set READ_PERMISSIONS" for p
    using that unfolding READ_PERMISSIONS_def by (auto simp: ends_with_def starts_with_def)
  moreover have "''*'' \<notin> set READ_PERMISSIONS" by (simp add: READ_PERMISSIONS_def)
  moreover have "(\<forall>p \<in> set ps. \<not> ends_with ''.*'' p) \<Longrightarrow> ''*'' \<notin> set ps \<Longrightarrow> allows ps name \<longleftrightarrow> name \<in> set ps" for ps
    by (induction ps) (auto simp: wildcard_matches_def)
  ultimately show ?thesis by blast
qed

lemma read_scope_lists_nothing: "\<not> allows READ_PERMISSIONS ''agents.list''" "\<not> allows READ_PERMISSIONS ''agents.get''"
  by (simp_all add: read_permissions) (simp_all add: READ_PERMISSIONS_def)

end
