(* ===== verification/ReplayGuard.thy ===== *)
theory ReplayGuard
  imports Prelude
begin

text \<open>
  \<open>packages/platools-js/src/security/replay-guard.ts\<close>: the check an entity's backend runs on a
  signed tool call, and the signature the agent computes for it (\<open>sign\<close> of
  \<open>apps/agent/src/tool-gateway/tool-executor.service.ts\<close>). The module's caches and its warning
  flag are the state; the keyed hash and \<open>Date.parse\<close> are parameters. The theorems bound how
  often one nonce is accepted and say what a genuine call gets; two lemmas show that the string
  that is signed does not determine its parts.
\<close>

section \<open>The nonce cache\<close>

text \<open>The insertion-ordered map of the nonces seen, oldest first, and its capacity.\<close>

record nonce_lru =
  nl_seen :: "(string \<times> int) list"
  nl_capacity :: int

definition DEFAULT_NONCE_CACHE_SIZE :: int where
  "DEFAULT_NONCE_CACHE_SIZE = 100000"

definition DEFAULT_MAX_SKEW_SECONDS :: rat where
  "DEFAULT_MAX_SKEW_SECONDS = 300"

definition newNonceLru :: "int \<Rightarrow> nonce_lru option" where
  "newNonceLru capacity = (if capacity \<le> 0 then None else Some \<lparr>nl_seen = [], nl_capacity = capacity\<rparr>)"

definition tryInsert :: "string \<Rightarrow> int \<Rightarrow> nonce_lru \<Rightarrow> bool \<times> nonce_lru" where
  "tryInsert nonce timestampMs c =
     (if nonce \<in> fst ` set (nl_seen c) then (False, c)
      else let seen = nl_seen c @ [(nonce, timestampMs)] in
        (True, c\<lparr>nl_seen := (if nl_capacity c < int (length seen) then tl seen else seen)\<rparr>))"

record guard_state =
  gs_caches :: "string \<Rightarrow> nonce_lru option"
  gs_warnedLegacy :: bool

definition getCacheFor :: "string \<Rightarrow> int \<Rightarrow> guard_state \<Rightarrow> nonce_lru option" where
  "getCacheFor entityId capacity st = (case gs_caches st entityId of Some c \<Rightarrow> Some c | None \<Rightarrow> newNonceLru capacity)"

section \<open>Verification\<close>

record guard_env =
  ge_hmac :: "string \<Rightarrow> string \<Rightarrow> string"
  ge_dateParse :: "string \<Rightarrow> int option"

record verify_input =
  vi_entityId :: string
  vi_serviceSecret :: string
  vi_timestamp :: string
  vi_nonce :: "string option"
  vi_signature :: string
  vi_body :: string
  vi_now :: int
  vi_maxSkewSeconds :: "rat option"
  vi_cacheCapacity :: "int option"

text \<open>The four refusals, the two acceptances, and the exception of the constructor.\<close>

datatype verify_result =
  Accepted bool | TimestampInvalid | TimestampSkewExceeded | SignatureMismatch | NonceReplay | BadCapacity

definition legacy :: "verify_input \<Rightarrow> bool" where
  "legacy inp \<longleftrightarrow> vi_nonce inp = None \<or> vi_nonce inp = Some []"

definition signingString :: "string \<Rightarrow> string option \<Rightarrow> string \<Rightarrow> string" where
  "signingString timestamp nonce body = (case nonce of
       None \<Rightarrow> timestamp @ ''.'' @ body
     | Some n \<Rightarrow> if n = [] then timestamp @ ''.'' @ body else timestamp @ ''.'' @ n @ ''.'' @ body)"

definition in_skew :: "verify_input \<Rightarrow> int \<Rightarrow> bool" where
  "in_skew inp tsMs \<longleftrightarrow> of_int \<bar>vi_now inp - tsMs\<bar> \<le>
     (case vi_maxSkewSeconds inp of None \<Rightarrow> DEFAULT_MAX_SKEW_SECONDS | Some q \<Rightarrow> q) * 1000"

definition signed :: "guard_env \<Rightarrow> verify_input \<Rightarrow> bool" where
  "signed E inp \<longleftrightarrow> hex_bytes (ge_hmac E (vi_serviceSecret inp) (signingString (vi_timestamp inp) (vi_nonce inp) (vi_body inp))) =
     hex_bytes (vi_signature inp)"

definition verifyRequest :: "guard_env \<Rightarrow> verify_input \<Rightarrow> guard_state \<Rightarrow> verify_result \<times> guard_state" where
  "verifyRequest E inp st =
     (case ge_dateParse E (vi_timestamp inp) of
        None \<Rightarrow> (TimestampInvalid, st)
      | Some tsMs \<Rightarrow>
          if \<not> in_skew inp tsMs then (TimestampSkewExceeded, st)
          else if \<not> signed E inp then (SignatureMismatch, st)
          else if legacy inp then (Accepted True, st\<lparr>gs_warnedLegacy := True\<rparr>)
          else (case getCacheFor (vi_entityId inp)
                  (case vi_cacheCapacity inp of None \<Rightarrow> DEFAULT_NONCE_CACHE_SIZE | Some n \<Rightarrow> n) st of
             None \<Rightarrow> (BadCapacity, st)
           | Some cache \<Rightarrow> (let (fresh, cache') = tryInsert (the (vi_nonce inp)) tsMs cache in
               (if fresh then Accepted False else NonceReplay,
                st\<lparr>gs_caches := (gs_caches st)(vi_entityId inp \<mapsto> cache')\<rparr>))))"

text \<open>The agent's signature.\<close>

definition sign :: "guard_env \<Rightarrow> string \<Rightarrow> string \<Rightarrow> string \<Rightarrow> string \<Rightarrow> string" where
  "sign E body secret timestamp nonce = ge_hmac E secret (timestamp @ ''.'' @ nonce @ ''.'' @ body)"

text \<open>A process answers its requests one after the other.\<close>

fun serve :: "guard_env \<Rightarrow> verify_input list \<Rightarrow> guard_state \<Rightarrow> verify_result list \<times> guard_state" where
  "serve E [] st = ([], st)"
| "serve E (r # rs) st = (let (x, st1) = verifyRequest E r st; (xs, st2) = serve E rs st1 in (x # xs, st2))"

definition fresh_count :: "string \<Rightarrow> verify_input list \<Rightarrow> verify_result list \<Rightarrow> nat" where
  "fresh_count e rs xs = length (filter (\<lambda>(r, x). vi_entityId r = e \<and> x = Accepted False) (zip rs xs))"

section \<open>The caches\<close>

definition wf_cache :: "nonce_lru \<Rightarrow> bool" where
  "wf_cache c \<longleftrightarrow> 0 < nl_capacity c \<and> int (length (nl_seen c)) \<le> nl_capacity c \<and> distinct (map fst (nl_seen c))"

definition wf_guard :: "guard_state \<Rightarrow> bool" where
  "wf_guard st \<longleftrightarrow> (\<forall>e c. gs_caches st e = Some c \<longrightarrow> wf_cache c)"

lemma tryInsert_wf: "wf_cache c \<Longrightarrow> wf_cache (snd (tryInsert n t c))"
  by (cases "nl_seen c") (auto simp: wf_cache_def tryInsert_def Let_def image_iff)

lemma getCacheFor_wf: "wf_guard st \<Longrightarrow> getCacheFor e cap st = Some c \<Longrightarrow> wf_cache c"
  by (auto simp: wf_guard_def getCacheFor_def newNonceLru_def wf_cache_def split: option.splits if_splits)

lemma verifyRequest_wf: "wf_guard st \<Longrightarrow> wf_guard (snd (verifyRequest E inp st))"
proof -
  assume wf: "wf_guard st"
  have upd: "wf_guard (st\<lparr>gs_caches := (gs_caches st)(e \<mapsto> c)\<rparr>)" if "wf_cache c" for e c
    using wf that by (auto simp: wf_guard_def)
  have "wf_cache (snd (tryInsert n t c))" if "getCacheFor e cap st = Some c" for e cap c n t
    using tryInsert_wf getCacheFor_wf [OF wf that] by blast
  then show ?thesis using wf upd
    by (auto simp: verifyRequest_def wf_guard_def split: option.splits prod.splits) (metis snd_conv)+
qed

text \<open>
  A nonce with at most \<open>k\<close> nonces inserted after it; it can only leave when the capacity is reached.
\<close>

definition held :: "string \<Rightarrow> string \<Rightarrow> int \<Rightarrow> nat \<Rightarrow> guard_state \<Rightarrow> bool" where
  "held e n cap k st \<longleftrightarrow> (\<exists>c older t newer. gs_caches st e = Some c \<and> nl_capacity c = cap \<and>
     nl_seen c = older @ (n, t) # newer \<and> length newer = k)"

lemma verify_cases:
  assumes "verifyRequest E r st = (x, st')"
  obtains (kept) "gs_caches st' = gs_caches st" "x \<noteq> Accepted False"
  | (cached) c fresh c' n ts where "vi_nonce r = Some n" "n \<noteq> []" "gs_caches st (vi_entityId r) = Some c \<or>
      (gs_caches st (vi_entityId r) = None \<and> nl_seen c = [] \<and> 0 < nl_capacity c)"
    "tryInsert n ts c = (fresh, c')" "x = (if fresh then Accepted False else NonceReplay)"
    "gs_caches st' = (gs_caches st)(vi_entityId r \<mapsto> c')"
proof (cases "ge_dateParse E (vi_timestamp r)")
  case None
  then show thesis using assms kept by (simp add: verifyRequest_def)
next
  case (Some tsMs)
  let ?cap = "case vi_cacheCapacity r of None \<Rightarrow> DEFAULT_NONCE_CACHE_SIZE | Some n \<Rightarrow> n"
  show thesis
  proof (cases "in_skew r tsMs \<and> signed E r \<and> \<not> legacy r \<and> getCacheFor (vi_entityId r) ?cap st \<noteq> None")
    case True
    then obtain n c where n: "vi_nonce r = Some n" "n \<noteq> []" and c: "getCacheFor (vi_entityId r) ?cap st = Some c"
      by (auto simp: legacy_def)
    obtain fresh c' where ins: "tryInsert n tsMs c = (fresh, c')" by fastforce
    have src: "gs_caches st (vi_entityId r) = Some c \<or> (gs_caches st (vi_entityId r) = None \<and> nl_seen c = [] \<and> 0 < nl_capacity c)"
      using c by (auto simp: getCacheFor_def newNonceLru_def split: option.splits if_splits)
    have eq: "(x, st') = (if fresh then Accepted False else NonceReplay, st\<lparr>gs_caches := (gs_caches st)(vi_entityId r \<mapsto> c')\<rparr>)"
      unfolding assms [symmetric] using True n c ins Some by (simp add: verifyRequest_def)
    show thesis by (rule cached [OF n src ins]) (use eq in simp_all)
  next
    case False
    show thesis by (rule kept) (use assms False Some in \<open>auto simp: verifyRequest_def split: if_splits option.splits\<close>)
  qed
qed

lemma insert_behind:
  assumes "tryInsert m ts c = (fresh, c')" "nl_seen c = older @ (n, t) # newer"
  shows "nl_capacity c' = nl_capacity c \<and> (fresh \<longrightarrow> m \<noteq> n \<and> (nl_capacity c \<le> int (Suc (length newer)) \<or>
    (\<exists>older' newer'. nl_seen c' = older' @ (n, t) # newer' \<and> length newer' = Suc (length newer)))) \<and> (\<not> fresh \<longrightarrow> c' = c)"
proof (cases fresh)
  case False
  then show ?thesis using assms(1) by (auto simp: tryInsert_def Let_def split: if_splits)
next
  case True
  let ?big = "nl_capacity c < int (length (nl_seen c) + 1)"
  have m: "m \<noteq> n" and c': "c' = c\<lparr>nl_seen := (if ?big then tl (nl_seen c @ [(m, ts)]) else nl_seen c @ [(m, ts)])\<rparr>"
    using assms True by (auto simp: tryInsert_def Let_def split: if_splits)
  have "nl_capacity c \<le> int (Suc (length newer)) \<or>
    (\<exists>older' newer'. nl_seen c' = older' @ (n, t) # newer' \<and> length newer' = Suc (length newer))"
  proof (cases "?big \<and> older = []")
    case True
    then have "nl_capacity c \<le> int (Suc (length newer))" using assms(2) by auto
    then show ?thesis ..
  next
    case False
    then have "nl_seen c' = (if ?big then tl older else older) @ (n, t) # newer @ [(m, ts)]"
      using assms(2) by (cases older) (simp_all add: c')
    then show ?thesis by (metis length_append_singleton)
  qed
  then show ?thesis using True m by (simp add: c')
qed

lemma held_step:
  assumes "held e n cap k st" "verifyRequest E r st = (x, st')"
  shows "if vi_entityId r = e \<and> x = Accepted False then cap \<le> int (Suc k) \<or> held e n cap (Suc k) st' else held e n cap k st'"
proof -
  obtain c older t newer where h: "gs_caches st e = Some c" "nl_capacity c = cap" "nl_seen c = older @ (n, t) # newer" "length newer = k"
    using assms(1) unfolding held_def by blast
  from assms(2) show ?thesis
  proof (cases rule: verify_cases)
    case kept
    then show ?thesis using h by (auto simp: held_def)
  next
    case (cached c0 fresh c' m ts)
    show ?thesis
    proof (cases "vi_entityId r = e")
      case True
      then have "c0 = c" using cached(3) h(1) by simp
      note ins = insert_behind [OF cached(4) [unfolded this] h(3)]
      show ?thesis
      proof (cases fresh)
        case True
        then show ?thesis using ins cached(5,6) h \<open>vi_entityId r = e\<close> by (auto simp: held_def)
      next
        case False
        then show ?thesis using ins cached(5,6) h \<open>vi_entityId r = e\<close> by (auto simp: held_def)
      qed
    next
      case False
      then show ?thesis using h cached(6) by (auto simp: held_def)
    qed
  qed
qed

lemma held_refuses:
  assumes "held e n cap k st" "vi_entityId r = e" "vi_nonce r = Some n"
  shows "verifyRequest E r st \<noteq> (Accepted False, st')"
proof
  assume v: "verifyRequest E r st = (Accepted False, st')"
  obtain c older t newer where h: "gs_caches st e = Some c" "nl_seen c = older @ (n, t) # newer"
    using assms(1) unfolding held_def by blast
  from v show False
  proof (cases rule: verify_cases)
    case (cached c0 fresh c' m ts)
    then show False using h assms(2,3) by (auto simp: tryInsert_def split: if_splits)
  qed simp
qed

lemma accepted_held:
  assumes "wf_guard st" "verifyRequest E r st = (Accepted False, st')"
  shows "\<exists>n c. vi_nonce r = Some n \<and> gs_caches st' (vi_entityId r) = Some c \<and> held (vi_entityId r) n (nl_capacity c) 0 st'"
  using assms(2)
proof (cases rule: verify_cases)
  case (cached c fresh c' n ts)
  have "0 < nl_capacity c" using cached(3) assms(1) by (auto simp: wf_guard_def wf_cache_def)
  then have "\<exists>older. nl_seen c' = older @ [(n, ts)]"
    using cached(4,5) by (cases "nl_seen c") (auto simp: tryInsert_def Let_def split: if_splits)
  then show ?thesis using cached(1,6) by (auto simp: held_def)
qed simp

lemma fresh_count_simps [simp]:
  "fresh_count e [] xs = 0"
  "fresh_count e (r # rs) (x # xs) = (if vi_entityId r = e \<and> x = Accepted False then 1 else 0) + fresh_count e rs xs"
  by (simp_all add: fresh_count_def)

lemma held_serve:
  assumes "held e n cap k st" "serve E rs st = (xs, st')"
  shows "cap \<le> int (k + fresh_count e rs xs) \<or> held e n cap (k + fresh_count e rs xs) st'"
  using assms
proof (induction rs arbitrary: k st xs)
  case (Cons r rs)
  obtain x st1 ys where v: "verifyRequest E r st = (x, st1)" "serve E rs st1 = (ys, st')" and xs: "xs = x # ys"
    using Cons.prems(2) by (auto split: prod.splits)
  show ?case
    using held_step [OF Cons.prems(1) v(1)] Cons.IH [OF _ v(2)] by (fastforce simp: xs split: if_splits)
qed simp

section \<open>Signatures\<close>

text \<open>The string the agent signs is the one a request with that nonce is checked against.\<close>

lemma sign_signed:
  "vi_nonce r = Some n \<Longrightarrow> n \<noteq> [] \<Longrightarrow>
   vi_signature r = sign E (vi_body r) (vi_serviceSecret r) (vi_timestamp r) n \<Longrightarrow> signed E r"
  by (simp add: signed_def sign_def signingString_def)

text \<open>
  Moving the fraction of the timestamp into the nonce leaves the signed string as it was: the
  same call, with the same signature and the same body, carries a nonce that was never seen.
\<close>

definition shifted :: "string \<Rightarrow> string \<Rightarrow> verify_input \<Rightarrow> verify_input" where
  "shifted t1 t2 r = r\<lparr>vi_timestamp := t1, vi_nonce := Some (t2 @ ''.'' @ the (vi_nonce r))\<rparr>"

lemma shifted_signed:
  assumes "signed E r" "\<not> legacy r" "vi_timestamp r = t1 @ ''.'' @ t2"
  shows "signed E (shifted t1 t2 r) \<and> \<not> legacy (shifted t1 t2 r)"
  using assms by (auto simp: signed_def shifted_def signingString_def legacy_def split: option.splits)

lemma shifted_accepted:
  assumes "verifyRequest E r st = (Accepted False, st')" "vi_timestamp r = t1 @ ''.'' @ t2"
    and "ge_dateParse E t1 = Some u" "in_skew (shifted t1 t2 r) u"
    and "gs_caches st' (vi_entityId r) = Some c" "t2 @ ''.'' @ the (vi_nonce r) \<notin> fst ` set (nl_seen c)"
  shows "fst (verifyRequest E (shifted t1 t2 r) st') = Accepted False"
proof -
  have "signed E r" "\<not> legacy r"
    using assms(1) by (auto simp: verifyRequest_def split: option.splits if_splits)
  from shifted_signed [OF this assms(2)] show ?thesis
    using assms(3-6) by (simp add: verifyRequest_def getCacheFor_def tryInsert_def shifted_def Let_def)
qed

text \<open>Without a nonce the older form of the signed string is accepted, however often.\<close>

lemma nonce_dropped:
  assumes "verifyRequest E r st = (Accepted False, st')"
  shows "fst (verifyRequest E (r\<lparr>vi_nonce := None, vi_body := the (vi_nonce r) @ ''.'' @ vi_body r\<rparr>) st'') = Accepted True"
  using assms by (auto simp: verifyRequest_def signed_def signingString_def legacy_def in_skew_def
    split: option.splits if_splits prod.splits)

section \<open>Properties\<close>

definition w_guard :: guard_env where
  "w_guard = \<lparr>ge_hmac = (\<lambda>secret msg. ''0a''), ge_dateParse = (\<lambda>s. if s = ''1970-01-01T00:00:00.000Z'' then Some 0 else None)\<rparr>"

definition w_signed :: "string \<Rightarrow> verify_input" where
  "w_signed n = \<lparr>vi_entityId = ''e'', vi_serviceSecret = ''s'', vi_timestamp = ''1970-01-01T00:00:00.000Z'', vi_nonce = Some n,
     vi_signature = ''0a'', vi_body = ''{}'', vi_now = 1000, vi_maxSkewSeconds = None, vi_cacheCapacity = Some 1\<rparr>"

definition w_start :: guard_state where
  "w_start = \<lparr>gs_caches = Map.empty, gs_warnedLegacy = False\<rparr>"

text \<open>
  C40: A nonce is accepted again only after its cache has turned over. Take a process whose caches
  are well formed, and a call of an entity that is accepted with a nonce. If after any sequence
  of further calls a call of that entity with the same nonce is accepted, then in between at
  least as many calls of that entity were accepted with a nonce as its cache has room for.
\<close>

theorem nonce_reuse_needs_turnover:
  assumes "wf_guard st" "verifyRequest E a st = (Accepted False, st1)" "serve E rs st1 = (xs, st2)"
    and "verifyRequest E b st2 = (Accepted False, st3)"
    and "vi_entityId b = vi_entityId a" "vi_nonce b = vi_nonce a"
  shows "\<exists>c. gs_caches st1 (vi_entityId a) = Some c \<and> 1 \<le> nl_capacity c \<and>
    nl_capacity c \<le> int (fresh_count (vi_entityId a) rs xs)"
proof -
  obtain n c where n: "vi_nonce a = Some n" and c: "gs_caches st1 (vi_entityId a) = Some c"
    and h: "held (vi_entityId a) n (nl_capacity c) 0 st1"
    using accepted_held [OF assms(1,2)] by blast
  have "\<not> held (vi_entityId a) n (nl_capacity c) (0 + fresh_count (vi_entityId a) rs xs) st2"
    using held_refuses assms(4-6) n by metis
  then have "nl_capacity c \<le> int (fresh_count (vi_entityId a) rs xs)" using held_serve [OF h assms(3)] by simp
  moreover have "wf_cache c" using verifyRequest_wf [OF assms(1), of E a] c assms(2) by (simp add: wf_guard_def)
  ultimately show ?thesis using c by (auto simp: wf_cache_def)
qed

theorem nonce_reuse_needs_turnover_witness:
  "\<exists>c. gs_caches (snd (verifyRequest w_guard (w_signed ''a'') w_start)) ''e'' = Some c \<and> 1 \<le> nl_capacity c \<and>
     nl_capacity c \<le> int (fresh_count ''e'' [w_signed ''b''] [Accepted False])"
proof -
  define st1 where "st1 = snd (verifyRequest w_guard (w_signed ''a'') w_start)"
  define st2 where "st2 = snd (serve w_guard [w_signed ''b''] st1)"
  note defs = w_guard_def w_signed_def w_start_def verifyRequest_def signed_def in_skew_def legacy_def
    getCacheFor_def newNonceLru_def tryInsert_def signingString_def DEFAULT_MAX_SKEW_SECONDS_def
  have 1: "verifyRequest w_guard (w_signed ''a'') w_start = (Accepted False, st1)"
    by (simp add: st1_def defs)
  have 2: "serve w_guard [w_signed ''b''] st1 = ([Accepted False], st2)"
    by (simp add: st2_def st1_def defs)
  have 3: "verifyRequest w_guard (w_signed ''a'') st2 = (Accepted False, snd (verifyRequest w_guard (w_signed ''a'') st2))"
    by (simp add: st2_def st1_def defs)
  have "wf_guard w_start" by (simp add: wf_guard_def w_start_def)
  from nonce_reuse_needs_turnover [OF this 1 2 3] show ?thesis by (simp add: st1_def w_signed_def)
qed

end
