(* ===== verification/Spec2Isabelle.thy ===== *)
theory Spec2Isabelle
  imports ErasureController ClickhouseStore McpController ReplayGuard
begin

text \<open>
  A verification library for the parts of Platos that decide who may act and what is destroyed:
  hard erasure of a person's data, the approval-gated MCP tool surface, the credentials of both,
  and two guards at the edge of the agent. All source paths are relative to \<open>apps/agent/src/\<close>
  unless a package is named.

  \<^bold>\<open>The program and its theories.\<close>

  \<^item> Erasure. A request for a subject (\<open>privacy/erasure.controller.ts\<close>, theory
    \<open>ErasureController\<close>) reaches the service (\<open>privacy/erasure.service.ts\<close>, \<open>ErasureService\<close>),
    which discovers the subject's handles and checks holds (\<open>subject-graph.ts\<close>,
    \<open>legal-hold.ts\<close>, \<open>SubjectGraph\<close>), records the intent (\<open>erasure-audit.ts\<close>, \<open>ErasureAudit\<close>),
    seals the subject in the register (\<open>erasure-register.ts\<close>, \<open>ErasureRegister\<close>) and lets the
    orchestrator (\<open>erasure-orchestrator.ts\<close>, \<open>ErasureOrchestrator\<close>) sweep four stores in order:
    object storage and Redis (\<open>ErasureStores\<close>, with \<open>redis-keys.ts\<close> in \<open>RedisKeys\<close>), ClickHouse
    (\<open>clickhouse-erasure.ts\<close>, \<open>ClickhouseStore\<close>) and Postgres (\<open>PostgresStore\<close>). The outcome is
    a receipt (\<open>erasure-receipt.ts\<close>, \<open>ErasureReceipt\<close>); what did not settle is retried under a
    lease with backoff (\<open>erasure-queue.ts\<close>, \<open>ErasureQueue\<close>).
  \<^item> MCP surface. A request over one of three transports (\<open>mcp-platform/mcp-platform.controller.ts\<close>,
    \<open>McpController\<close>) is authenticated and handed to the router (\<open>mcp-router.ts\<close>, \<open>McpRouter\<close>),
    which validates arguments (\<open>schema-validator.ts\<close>, \<open>SchemaValidator\<close>), resolves the permission
    tiers (\<open>permission-gateway.service.ts\<close>, \<open>McpPermissions\<close>) and consults the approval ledger
    (\<open>monitoring/approvals.service.ts\<close>, \<open>Approvals\<close>).
  \<^item> Credentials. Platform tokens and entity tokens (\<open>token.service.ts\<close>,
    \<open>mcp-bearer-token.service.ts\<close>, \<open>McpTokens\<close>) and the OAuth server (\<open>oauth/oauth.service.ts\<close>,
    \<open>OAuth\<close>: registration, consent, codes, token pairs, rotation, revocation, verification).
  \<^item> Edge guards. Outbound URLs (\<open>shared/url-validator.ts\<close>, \<open>UrlGuard\<close>) and the replay guard of
    signed tool calls (\<open>packages/platools-js/src/security/replay-guard.ts\<close> and \<open>sign\<close> of
    \<open>tool-gateway/tool-executor.service.ts\<close>, \<open>ReplayGuard\<close>).
  \<^item> Shared. \<open>Prelude\<close> (strings, lists, result types, numbers), \<open>JsValue\<close> (JSON values and
    \<open>JSON.stringify\<close>), \<open>Table\<close> (the database interface).

  \<^bold>\<open>How the code is modelled.\<close> A class is a record of its collaborators and each method is a
  definition of the same name over an explicit state; a throw is the left side of a sum, and what
  was written before it stays written. A transaction that fails leaves the state as it was.
  Database tables, Redis, ClickHouse, object storage, resolvers, HTTP transports, the URL parser,
  digests, clocks and random parts are parameters. What the code relies on of them is stated in
  locales (\<open>prisma_table\<close>, \<open>tenancy_database\<close>, \<open>ioredis\<close>, \<open>object_store\<close>, \<open>clickhouse_server\<close>,
  \<open>erasure_register\<close>, \<open>approval_store\<close>, \<open>token_store\<close>, \<open>bearer_store\<close>, \<open>oauth_store\<close>), each interpreted on the table double
  of the repository's own fixtures or on a concrete client. Concurrent requests are step
  relations in which a read and its guarded write are separate steps, so that a stale read can be
  followed by any other request's write; the locale \<open>sealed_ledger\<close> carries the argument that a
  row once decided, revoked or spent stays so. That a piece of code runs is stated as
  noninterference: a tool or an executor runs exactly when the outcome of the request can depend
  on its body.

  \<^bold>\<open>What is proved.\<close> Erasure: nothing is destroyed before every guard has passed and only for a
  live admin token of the organization; holds filed under any handle stop it; leases are
  exclusive; a receipt is complete only on evidence, and a passed verification of a store means
  that the subject is gone from it; a sealed subject stays refused. MCP: a tool runs only after
  permission, tier, schema, gateway and gate let it; an approval is decided once and spent once;
  the tiers only tighten; the validator is exact. Credentials: a revoked token acts nowhere; a
  code is exchanged once and for what was authorized; a replayed refresh token kills its family;
  an OAuth token stays within its client's grant. Guards: every fetched address was validated and
  pinned, and a nonce is accepted again only after the cache has turned over. Three properties
  span components and are stated in this theory. Some lemmas record behaviour that departs from
  what the comments promise, among them an empty policy id that disables the hold register, an
  approval that is not bound to its arguments, an IPv4-mapped address in hexadecimal form that
  passes the URL guard, and read-only OAuth permissions that match no list or get tool.

  \<^bold>\<open>Bounds and fuel.\<close> The recursions are structural, with three exceptions. The schema validator
  descends on the size of the schema. The redirect loop counts up to its hop limit, as the source
  does. The ClickHouse poll has no bound of its own and takes fuel: \<open>clickhouse_returns\<close> shows
  that the number of clock readings up to the first one past the deadline is enough.
  Integers are unbounded where the source computes with JavaScript numbers in their exact range;
  numbers that may be \<open>NaN\<close> or infinite are values of \<open>jsnum\<close>, and IPv4 addresses are 32-bit
  words in the reference definition of the reserved blocks.

  \<^bold>\<open>Not modelled.\<close> Transactions are atomic: under an isolation level that lets a concurrent insert
  escape a conditional update, a refresh token minted at the same moment could escape the
  revocation of its family. The read-only listings of OAuth clients and tokens, the SSE heartbeat,
  cleanup and event subscription, the OAuth HTTP routes and the tool catalogue are left out: they
  render or register what the modelled services return. The agent runtime, memory, channels,
  providers and connections are loops over language models and third-party services whose
  behaviour is not in the repository. The web application, the client libraries and the widgets
  are user interface and HTTP clients. The run engine, run queue and schedule engine keep their
  state machine in Lua scripts and database transactions and would need a development of their
  own; the query language is a generated parser. Schemas, migrations, generated clients, mail
  templates, tracing, build tooling and data tables have no behaviour of their own to verify.
\<close>

section \<open>The platform\<close>

text \<open>
  What may happen to the database between two requests, as far as the platform tokens are
  concerned: a step of the token service, or anything that leaves the token table alone.
\<close>

definition platform_step :: "'s token_service \<Rightarrow> ('s \<Rightarrow> token_row multiset) \<Rightarrow> 's \<Rightarrow> 's \<Rightarrow> bool" where
  "platform_step sv rows s s' \<longleftrightarrow> token_step sv s s' \<or> rows s' = rows s"

lemma platform_ledger:
  assumes "token_store sv rows"
  shows "sealed_ledger rows tk_id tk_revokedAt (platform_step sv rows)"
proof
  fix s s'
  assume "platform_step sv rows s s'"
  then show "ledger_write tk_id tk_revokedAt (rows s) (rows s')"
    unfolding platform_step_def
    by (elim disjE) (rule sealed_ledger.writes [OF token_store.axioms_ledger [OF assms]], simp_all add: ledger_same)
qed

lemma revoked_stays_sealed:
  assumes "token_store sv rows" "inj_on tk_id (set_mset (rows s))" "revoke sv i scope userId now s = (Inr True, s1)"
    and "(platform_step sv rows)\<^sup>*\<^sup>* s1 s2"
  shows "sealed_key tk_id tk_revokedAt (rows s2) i"
  by (rule sealed_ledger.sealed_run [OF platform_ledger [OF assms(1)] assms(4)],
      rule token_store.revoke_seals [OF assms(1-3)])

lemma written_credential:
  "verify_write sv row anc now s = (Inr (Some t), s') \<Longrightarrow> vt_credential t = Some (Platform (vt_id t))"
  by (auto simp: verify_write_def verified_of_def split: sum.splits if_splits)

lemma admin_written:
  "admin_of api auth ck org s t s' \<Longrightarrow> \<exists>row anc. verify_write (ea_tokens api) row anc (ck_stamped ck) s = (Inr (Some t), s')"
  unfolding admin_of_def by (blast dest: verify_through)

lemma admitted_oauth:
  assumes "admitted_as c n n' s t s'" "vt_credential t = Some (credential.OAuth h)"
  obtains oa where "verifyAccessTokenHash (mc_oauth c) h n s = Inr (Some oa)" "\<not> given (vo_entityPk oa)"
    "t = platform_view oa (credential.OAuth h)"
proof -
  from assms(1) consider row anc where "verify_write (mc_tokens c) row anc n' s = (Inr (Some t), s')"
    | k oa where "verifyAccessTokenHash (mc_oauth c) k n s = Inr (Some oa)" "\<not> given (vo_entityPk oa)"
        "t = platform_view oa (credential.OAuth k)"
    unfolding admitted_as_def by blast
  then show thesis
  proof cases
    case 1
    from written_credential [OF this] assms(2) show thesis by simp
  next
    case (2 k oa)
    moreover have "k = h" using 2(3) assms(2) by (simp add: platform_view_def)
    ultimately show thesis using that by blast
  qed
qed

text \<open>What stands behind an OAuth token that verifies.\<close>

lemma verified_row:
  assumes "verifyAccessTokenHash sv h n s = Inr (Some oa)"
  shows "\<exists>row client. findFirst (os_access sv) (\<lambda>r. at_tokenHash r = h) s = Inr (Some row) \<and> at_revokedAt row = None \<and>
    n \<le> at_expiresAt row \<and> owner sv (at_clientId row) s = Inr client \<and> oc_deletedAt client = None \<and>
    full_scope (at_scope row) = Some (vo_scope oa) \<and> vo_userId oa = at_userId row \<and> vo_entityPk oa = oc_entityId client \<and>
    set (vo_scopes oa) \<subseteq> set (at_scopes row)"
proof -
  obtain row where row: "findFirst (os_access sv) (\<lambda>r. at_tokenHash r = h) s = Inr (Some row)"
    using assms by (auto simp: verifyAccessTokenHash_def split: sum.splits option.splits)
  obtain client where client: "owner sv (at_clientId row) s = Inr client"
    using assms row by (auto simp: verifyAccessTokenHash_def split: sum.splits)
  obtain scope where scope: "full_scope (at_scope row) = Some scope"
    using assms row client by (auto simp: verifyAccessTokenHash_def split: option.splits)
  have live: "at_revokedAt row = None" "oc_deletedAt client = None" "n \<le> at_expiresAt row"
    using assms row client scope by (auto simp: verifyAccessTokenHash_def split: if_splits)
  have "vo_scope oa = scope \<and> vo_userId oa = at_userId row \<and> vo_entityPk oa = oc_entityId client \<and>
      vo_scopes oa = publicScopes (at_scopes row)"
    using assms row client scope live
    by (auto simp: verifyAccessTokenHash_def Let_def split: option.splits sum.splits)
  then show ?thesis using row client scope live by (auto simp: publicScopes_def)
qed

section \<open>The platform over doubles\<close>

record platform_db = erasure_db +
  pd_credentials :: credential_db
  pd_oauth :: oauth_db
  pd_sessions :: "(string \<times> string) list"

definition double_credentials :: "platform_db token_service" where
  "double_credentials = focus_tokens pd_credentials (\<lambda>x. pd_credentials_update (\<lambda>_. x)) double_tokens"

lemma double_credentials_table:
  "prisma_table (ts_tokens double_credentials) (\<lambda>s. mset (cd_tokens (pd_credentials s))) tk_id"
  unfolding double_credentials_def focus_tokens_def token_service.select_convs
  by (rule focus_table [OF double_tokens_table]) simp

interpretation plat: token_store double_credentials "\<lambda>s. mset (cd_tokens (pd_credentials s))"
  by (rule token_store.intro, rule double_credentials_table)

definition double_api :: "platform_db erasure_api" where
  "double_api = \<lparr>ea_service = double_service None, ea_tokens = double_credentials\<rparr>"

definition w_whoami :: "string \<Rightarrow> platform_db handler_body" where
  "w_whoami result args scope token s = (Inr (JStr result), s)"

definition double_controller :: "platform_db controller" where
  "double_controller = \<lparr>mc_tokens = double_credentials,
     mc_oauth = focus_oauth pd_oauth (\<lambda>x. pd_oauth_update (\<lambda>_. x)) double_oauth,
     mc_router = registerAll \<lparr>rt_handlers = [],
         rt_gateway = \<lparr>gw_policies = focus (\<lambda>_. []) (\<lambda>_ s. s) (double_table po_id),
           gw_bindings = focus (\<lambda>_. []) (\<lambda>_ s. s) (double_table bd_agentId)\<rparr>,
         rt_gate = None, rt_approvalTtlSeconds = 3600, rt_recorder = None, rt_showNumber = (\<lambda>_. ''0''), rt_dateParse = (\<lambda>_. NaN)\<rparr>
       [\<lparr>mh_name = ''platos_whoami'', mh_description = [], mh_inputSchema = JObj [(''type'', JStr ''object'')],
          mh_requiresAdminTier = False, mh_category = None, mh_macroRecordable = None, mh_execute = w_whoami ''me''\<rparr>],
     mc_get = (\<lambda>k s. Inr (map_of (pd_sessions s) k)),
     mc_set = (\<lambda>k v ttl s. (Inr (), s\<lparr>pd_sessions := (k, v) # pd_sessions s\<rparr>)),
     mc_del = (\<lambda>k s. s\<lparr>pd_sessions := filter (\<lambda>(k', _). k' \<noteq> k) (pd_sessions s)\<rparr>),
     mc_subscribe = (\<lambda>ch s. (Inr (), s)), mc_publish = (\<lambda>ch m s. (Inr (), s)),
     mc_parse = (\<lambda>t. None), mc_appOrigin = None, mc_webappOrigin = None\<rparr>"

definition w_admin :: "string \<Rightarrow> token_row" where
  "w_admin i = \<lparr>tk_id = i, tk_environmentId = ''env'', tk_mintedByUserId = ''u'', tk_name = ''ops'',
     tk_tokenHash = ''plt_mcp_'' @ i, tk_permissions = [''*''], tk_tier = ''admin'', tk_expiresAt = None, tk_revokedAt = None,
     tk_revokedBy = None, tk_lastUsedAt = None, tk_createdAt = 0\<rparr>"

text \<open>Two admin tokens, an OAuth client with a read-only access token, and an unfinished erasure.\<close>

definition w_platform :: platform_db where
  "w_platform = erasure_db.extend (w_edb\<lparr>edb_operations := [w_row_op\<lparr>op_organizationId := ''org'',
       op_resumePlan := JObj [(''version'', JNum (Fin 1)), (''platosEndUserIds'', JArr [JStr ''u1''])]\<rparr>]\<rparr>)
     \<lparr>pd_credentials = w_tables\<lparr>cd_tokens := [w_admin ''a1'', w_admin ''a2'']\<rparr>, pd_oauth = w_exchanged, pd_sessions = []\<rparr>"

definition w_after :: platform_db where
  "w_after = snd (revoke double_credentials ''a1'' w_tenant ''u'' 10 w_platform)"

definition w_post :: "string \<Rightarrow> transport" where
  "w_post raw = Post (Some (''Bearer '' @ raw)) None (JObj [(''jsonrpc'', JStr ''2.0''), (''method'', JStr ''tools/call''),
     (''params'', JObj [(''name'', JStr ''platos_whoami'')])])"

definition w_clock :: request_clock where
  "w_clock = \<lparr>ck_checked = 20, ck_stamped = 21, ck_now = 1000\<rparr>"

definition w_erase_request :: erasure_request where
  "w_erase_request = Retry ''op1'' None ''tok''"

definition served_text :: "served \<Rightarrow> jsval" where
  "served_text r = (case r of Replied (Rpc x) \<Rightarrow> answered_text x | _ \<Rightarrow> JUndef)"

lemma w_whoami_served:
  "served_text (fst (serve_mcp (with_tools double_controller (\<lambda>_. w_whoami ''a'')) (w_post ''plt_mcp_a2'') 20 21 w_after)) = JStr ''a''"
  "served_text (fst (serve_mcp (with_tools double_controller (\<lambda>_. w_whoami ''b'')) (w_post ''plt_mcp_a2'') 20 21 w_after)) = JStr ''b''"
  "served_text (fst (serve_mcp (with_tools double_controller (\<lambda>_. w_whoami ''a'')) (w_post ''plt_oa_1'') 20 21 w_platform)) = JStr ''a''"
  "served_text (fst (serve_mcp (with_tools double_controller (\<lambda>_. w_whoami ''b'')) (w_post ''plt_oa_1'') 20 21 w_platform)) = JStr ''b''"
  by code_simp+

lemma w_erased:
  "edb_swept (snd (erase_serve (wired double_api clean_executors) (Some ''Bearer plt_mcp_a2'') w_erase_request w_clock w_after))
     = [Minio, Redis, Clickhouse, Postgres]"
  "edb_swept (snd (erase_serve (wired double_api no_executors) (Some ''Bearer plt_mcp_a2'') w_erase_request w_clock w_after)) = []"
  by code_simp+

lemma w_served_differ:
  "serve_mcp (with_tools double_controller (\<lambda>_. w_whoami ''a'')) (w_post ''plt_mcp_a2'') 20 21 w_after \<noteq>
   serve_mcp (with_tools double_controller (\<lambda>_. w_whoami ''b'')) (w_post ''plt_mcp_a2'') 20 21 w_after"
  "serve_mcp (with_tools double_controller (\<lambda>_. w_whoami ''a'')) (w_post ''plt_oa_1'') 20 21 w_platform \<noteq>
   serve_mcp (with_tools double_controller (\<lambda>_. w_whoami ''b'')) (w_post ''plt_oa_1'') 20 21 w_platform"
  using w_whoami_served by auto

lemma w_erased_differ:
  "erase_serve (wired double_api clean_executors) (Some ''Bearer plt_mcp_a2'') w_erase_request w_clock w_after \<noteq>
   erase_serve (wired double_api no_executors) (Some ''Bearer plt_mcp_a2'') w_erase_request w_clock w_after"
  using w_erased by (metis list.distinct(1))

section \<open>Properties\<close>

text \<open>
  C5: A revoked platform token acts nowhere. After a successful revocation and any sequence of
  steps of the token service and of other activity that leaves the token table alone, a request
  to the MCP surface, over any of its transports, runs a tool only for a caller with another
  credential, and a request to the erasure API touches a store only for another admin token.
\<close>

theorem revoked_token_acts_nowhere:
  assumes "prisma_table (ts_tokens sv) rows tk_id" "inj_on tk_id (set_mset (rows s))"
    and "revoke sv i scope userId now s = (Inr True, s1)" "(platform_step sv rows)\<^sup>*\<^sup>* s1 s2"
    and "mc_tokens c = sv" "ea_tokens api = sv"
  shows "(serve_mcp (with_tools c f) tr n n' s2 \<noteq> serve_mcp (with_tools c g) tr n n' s2 \<longrightarrow>
      (\<exists>t s3. caller c tr n n' s2 = (Inr (Some t), s3) \<and> vt_credential t \<noteq> Some (Platform i))) \<and>
    (erase_serve (wired api ex1) auth rq ck s2 \<noteq> erase_serve (wired api ex2) auth rq ck s2 \<longrightarrow>
      (\<exists>t s3. admin_of api auth ck (sc_organizationId (vt_scope t)) s2 t s3 \<and> vt_id t \<noteq> i))"
proof (intro conjI impI)
  have st: "token_store sv rows" using assms(1) by (rule token_store.intro)
  note other = token_store.sealed_refused [OF st revoked_stays_sealed [OF st assms(2-4)]]
  show "\<exists>t s3. caller c tr n n' s2 = (Inr (Some t), s3) \<and> vt_credential t \<noteq> Some (Platform i)"
    if d: "serve_mcp (with_tools c f) tr n n' s2 \<noteq> serve_mcp (with_tools c g) tr n n' s2"
  proof -
    obtain t s3 where t: "caller c tr n n' s2 = (Inr (Some t), s3)" using serve_mcp_diff [OF d] by blast
    have "vt_credential t \<noteq> Some (Platform i)"
      using caller_admitted [OF t] other written_credential
      unfolding admitted_as_def assms(5) by (fastforce simp: platform_view_def)
    with t show ?thesis by blast
  qed
  show "\<exists>t s3. admin_of api auth ck (sc_organizationId (vt_scope t)) s2 t s3 \<and> vt_id t \<noteq> i"
    if d: "erase_serve (wired api ex1) auth rq ck s2 \<noteq> erase_serve (wired api ex2) auth rq ck s2"
    using erase_diff [OF d] admin_written other unfolding assms(6) [symmetric] by metis
qed

theorem revoked_token_acts_nowhere_witness:
  "(\<exists>t s3. caller double_controller (w_post ''plt_mcp_a2'') 20 21 w_after = (Inr (Some t), s3) \<and>
      vt_credential t \<noteq> Some (Platform ''a1'')) \<and>
   (\<exists>t s3. admin_of double_api (Some ''Bearer plt_mcp_a2'') w_clock (sc_organizationId (vt_scope t)) w_after t s3 \<and> vt_id t \<noteq> ''a1'')"
proof -
  have rv: "revoke double_credentials ''a1'' w_tenant ''u'' 10 w_platform = (Inr True, w_after)"
    by (simp add: w_after_def prod_eq_iff) (code_simp)
  have inj: "inj_on tk_id (set_mset (mset (cd_tokens (pd_credentials w_platform))))" by code_simp
  have "mc_tokens double_controller = double_credentials" "ea_tokens double_api = double_credentials"
    by (simp_all add: double_controller_def double_api_def)
  from revoked_token_acts_nowhere [OF double_credentials_table inj rv rtranclp.rtrancl_refl this] w_served_differ(1) w_erased_differ
  show ?thesis by blast
qed



text \<open>
  C6: Nothing is erased except by a live admin token of the subject's organization. If a request
  to the erasure API touches a store, its bearer is an admin token that is stored, unrevoked and
  unexpired, and the service's guards were passed under that token's name: for a first request
  in the token's own organization, for a retry on an operation of that organization, for the
  drain on an operation that is due there.
\<close>

theorem erasure_needs_admin:
  assumes "prisma_table (ts_tokens (ea_tokens api)) rows tk_id"
    and "erase_serve (wired api ex1) auth rq ck s \<noteq> erase_serve (wired api ex2) auth rq ck s"
  shows "\<exists>t s1 r. admin_of api auth ck (sc_organizationId (vt_scope t)) s t s1 \<and>
    r \<in># rows s \<and> tk_id r = vt_id t \<and> usable (tk_revokedAt r) (tk_expiresAt r) (ck_stamped ck) \<and>
    cleared_for (ea_service api) t rq (ck_now ck) s1"
proof -
  have st: "token_store (ea_tokens api) rows" using assms(1) by (rule token_store.intro)
  obtain t s1 where t: "admin_of api auth ck (sc_organizationId (vt_scope t)) s t s1"
    "cleared_for (ea_service api) t rq (ck_now ck) s1" using erase_diff [OF assms(2)] by blast
  obtain row anc where "verify_write (ea_tokens api) row anc (ck_stamped ck) s = (Inr (Some t), s1)"
    using admin_written [OF t(1)] by blast
  from token_store.admitted_unsealed [OF st this] t show ?thesis by blast
qed

theorem erasure_needs_admin_witness:
  "\<exists>t s1 r. admin_of double_api (Some ''Bearer plt_mcp_a2'') w_clock (sc_organizationId (vt_scope t)) w_after t s1 \<and>
    r \<in># mset (cd_tokens (pd_credentials w_after)) \<and> tk_id r = vt_id t \<and> usable (tk_revokedAt r) (tk_expiresAt r) (ck_stamped w_clock) \<and>
    cleared_for (ea_service double_api) t w_erase_request (ck_now w_clock) s1"
  by (rule erasure_needs_admin [OF _ w_erased_differ]) (simp add: double_api_def double_credentials_table)

end
